(* ===== verification/BeadsPrelude.thy ===== *)
theory BeadsPrelude
  imports Main "HOL-Library.Char_ord" "HOL-Library.List_Lexorder"
    "HOL-Library.Sublist"
begin

text \<open>
  What the components share: Go's strings and the functions of its packages strings, strconv,
  unicode and unicode/utf8 that the sources call.

  A Go string is a sequence of bytes, and so is an Isabelle \<^typ>\<open>string\<close> (a \<^typ>\<open>char\<close>
  is an eight-bit byte), so indexing, slicing, \<open>len\<close> and the comparison \<open><\<close> (the lexicographic
  order of \<^theory_text>\<open>List_Lexorder\<close> over \<^theory_text>\<open>Char_ord\<close>) are the list operations.
  Runes are natural numbers; decoding follows \<open>utf8.DecodeRune\<close>, with an invalid byte decoded
  to U+FFFD of width one. The white-space table is Go's whole one. The case mappings are Go's on
  the runes below U+0100 and on every rune whose image lies below U+0100, and the identity on the
  others: the keywords, field names, statuses and types of the program are ASCII, and every rune
  the query lexer can produce lies below U+0100.

  A fallible function returns a sum, \<^const>\<open>Inl\<close> the error and \<^const>\<open>Inr\<close> the result.
\<close>

named_theorems go_defs \<open>definitions of the Go library functions, for evaluation\<close>

section \<open>Bytes and substrings\<close>

abbreviation code :: "char \<Rightarrow> nat" where
  "code c \<equiv> of_char c"

abbreviation NUL :: char where
  "NUL \<equiv> CHR 0x00"

abbreviation has_prefix :: "string \<Rightarrow> string \<Rightarrow> bool" where
  "has_prefix s p \<equiv> prefix p s"

definition has_suffix :: "string \<Rightarrow> string \<Rightarrow> bool" where
  [go_defs]: "has_suffix s p = prefix (rev p) (rev s)"

definition trim_prefix :: "string \<Rightarrow> string \<Rightarrow> string" where
  [go_defs]: "trim_prefix s p = (if has_prefix s p then drop (length p) s else s)"

definition trim_suffix :: "string \<Rightarrow> string \<Rightarrow> string" where
  [go_defs]: "trim_suffix s p = (if has_suffix s p then take (length s - length p) s else s)"

text \<open>\<open>strings.Index\<close>, \<open>strings.IndexByte\<close> and \<open>strings.LastIndex\<close>, with Go's -1 as \<^const>\<open>None\<close>.\<close>

fun index_of :: "string \<Rightarrow> string \<Rightarrow> nat option" where
  "index_of [] sub = (if sub = [] then Some 0 else None)"
| "index_of (c # s) sub = (if prefix sub (c # s) then Some 0 else map_option Suc (index_of s sub))"

fun index_byte :: "string \<Rightarrow> char \<Rightarrow> nat option" where
  "index_byte [] b = None"
| "index_byte (c # s) b = (if c = b then Some 0 else map_option Suc (index_byte s b))"

definition last_index_byte :: "string \<Rightarrow> char \<Rightarrow> nat option" where
  [go_defs]: "last_index_byte s b =
     (case index_byte (rev s) b of None \<Rightarrow> None | Some k \<Rightarrow> Some (length s - Suc k))"

definition contains :: "string \<Rightarrow> string \<Rightarrow> bool" where
  [go_defs]: "contains s sub = (index_of s sub \<noteq> None)"

text \<open>\<open>strings.Split\<close> on a one-byte separator and \<open>strings.Join\<close>.\<close>

fun split_byte :: "char \<Rightarrow> string \<Rightarrow> string list" where
  "split_byte b [] = [[]]"
| "split_byte b (c # s) =
     (if c = b then [] # split_byte b s
      else case split_byte b s of [] \<Rightarrow> [[c]] | p # ps \<Rightarrow> (c # p) # ps)"

fun join :: "string list \<Rightarrow> string \<Rightarrow> string" where
  "join [] sep = []"
| "join [x] sep = x"
| "join (x # y # ys) sep = x @ sep @ join (y # ys) sep"

section \<open>Runes\<close>

definition rune_error :: nat where
  [go_defs]: "rune_error = 65533"

definition cont_byte :: "char \<Rightarrow> bool" where
  [go_defs]: "cont_byte c = (128 \<le> code c \<and> code c \<le> 191)"

text \<open>The rune at the start of a non-empty string and the bytes it takes.\<close>

fun decode_rune :: "string \<Rightarrow> nat \<times> nat" where
  "decode_rune [] = (rune_error, 0)"
| "decode_rune (a # s) =
    (if code a < 128 then (code a, 1)
     else if 194 \<le> code a \<and> code a \<le> 223 then
       (case s of b # _ \<Rightarrow>
           if cont_byte b then ((code a - 192) * 64 + (code b - 128), 2) else (rune_error, 1)
        | _ \<Rightarrow> (rune_error, 1))
     else if 224 \<le> code a \<and> code a \<le> 239 then
       (case s of b # c # _ \<Rightarrow>
           if (if code a = 224 then 160 else 128) \<le> code b
              \<and> code b \<le> (if code a = 237 then 159 else 191) \<and> cont_byte c
           then ((code a - 224) * 4096 + (code b - 128) * 64 + (code c - 128), 3)
           else (rune_error, 1)
        | _ \<Rightarrow> (rune_error, 1))
     else if 240 \<le> code a \<and> code a \<le> 244 then
       (case s of b # c # d # _ \<Rightarrow>
           if (if code a = 240 then 144 else 128) \<le> code b
              \<and> code b \<le> (if code a = 244 then 143 else 191) \<and> cont_byte c \<and> cont_byte d
           then ((code a - 240) * 262144 + (code b - 128) * 4096
                 + (code c - 128) * 64 + (code d - 128), 4)
           else (rune_error, 1)
        | _ \<Rightarrow> (rune_error, 1))
     else (rune_error, 1))"

text \<open>The runes of a string with the bytes of each, as \<open>for _, r := range s\<close> visits them.\<close>

fun rune_chunks :: "string \<Rightarrow> (nat \<times> string) list" where
  "rune_chunks [] = []"
| "rune_chunks (a # s) =
     (let (r, w) = decode_rune (a # s) in (r, a # take (w - 1) s) # rune_chunks (drop (w - 1) s))"

definition rune_count :: "string \<Rightarrow> nat" where
  [go_defs]: "rune_count s = length (rune_chunks s)"

definition encode_rune :: "nat \<Rightarrow> string" where
  [go_defs]: "encode_rune r =
    (if r < 128 then [char_of r]
     else if r < 2048 then [char_of (192 + r div 64), char_of (128 + r mod 64)]
     else if r < 65536 then
       [char_of (224 + r div 4096), char_of (128 + r div 64 mod 64), char_of (128 + r mod 64)]
     else [char_of (240 + r div 262144), char_of (128 + r div 4096 mod 64),
           char_of (128 + r div 64 mod 64), char_of (128 + r mod 64)])"

definition is_space_rune :: "nat \<Rightarrow> bool" where
  [go_defs]: "is_space_rune r =
    (r \<in> {9, 10, 11, 12, 13, 32, 133, 160, 5760, 8232, 8233, 8239, 8287, 12288}
     \<or> (8192 \<le> r \<and> r \<le> 8202))"

definition trim_space :: "string \<Rightarrow> string" where
  [go_defs]: "trim_space s =
    (let sp = (\<lambda>(r, _). is_space_rune r)
     in concat (map snd (rev (dropWhile sp (rev (dropWhile sp (rune_chunks s)))))))"

definition rune_to_lower :: "nat \<Rightarrow> nat" where
  [go_defs]: "rune_to_lower r =
    (if (65 \<le> r \<and> r \<le> 90) \<or> (192 \<le> r \<and> r \<le> 222 \<and> r \<noteq> 215) then r + 32
     else if r = 304 then 105 else if r = 376 then 255 else if r = 7838 then 223
     else if r = 8490 then 107 else if r = 8491 then 229 else r)"

definition rune_to_upper :: "nat \<Rightarrow> nat" where
  [go_defs]: "rune_to_upper r =
    (if (97 \<le> r \<and> r \<le> 122) \<or> (224 \<le> r \<and> r \<le> 254 \<and> r \<noteq> 247) then r - 32
     else if r = 181 then 924 else if r = 255 then 376
     else if r = 305 then 73 else if r = 383 then 83 else r)"

text \<open>The class of a rune under simple case folding.\<close>

definition rune_fold :: "nat \<Rightarrow> nat" where
  [go_defs]: "rune_fold r =
    (if r = 304 then 304 else if r = 383 then 115 else if r = 924 \<or> r = 956 then 181
     else rune_to_lower r)"

definition to_lower :: "string \<Rightarrow> string" where
  [go_defs]: "to_lower s = concat (map (\<lambda>(r, _). encode_rune (rune_to_lower r)) (rune_chunks s))"

definition to_upper :: "string \<Rightarrow> string" where
  [go_defs]: "to_upper s = concat (map (\<lambda>(r, _). encode_rune (rune_to_upper r)) (rune_chunks s))"

text \<open>\<open>strings.EqualFold\<close> compares rune by rune under case folding.\<close>

definition equal_fold :: "string \<Rightarrow> string \<Rightarrow> bool" where
  [go_defs]: "equal_fold s t = (map (rune_fold \<circ> fst) (rune_chunks s)
                   = map (rune_fold \<circ> fst) (rune_chunks t))"

section \<open>Numbers\<close>

definition is_digit :: "char \<Rightarrow> bool" where
  [go_defs]: "is_digit c = (48 \<le> code c \<and> code c \<le> 57)"

definition digit_char :: "nat \<Rightarrow> char" where
  [go_defs]: "digit_char d = char_of (48 + d)"

fun nat_to_string :: "nat \<Rightarrow> string" where
  "nat_to_string n =
     (if n < 10 then [digit_char n] else nat_to_string (n div 10) @ [digit_char (n mod 10)])"

declare nat_to_string.simps [simp del]

text \<open>\<open>strconv.FormatInt(v, 10)\<close> and the verb \<open>%d\<close>.\<close>

definition int_to_string :: "int \<Rightarrow> string" where
  [go_defs]: "int_to_string v = (if v < 0 then ''-'' @ nat_to_string (nat (- v)) else nat_to_string (nat v))"

definition min_int64 :: int where
  [go_defs]: "min_int64 = - (2 ^ 63)"

definition max_int64 :: int where
  [go_defs]: "max_int64 = 2 ^ 63 - 1"

definition int64_range :: "int \<Rightarrow> bool" where
  [go_defs]: "int64_range v = (min_int64 \<le> v \<and> v \<le> max_int64)"

text \<open>Two's complement at 64 bits: what an \<open>int\<close> or \<open>int64\<close> expression evaluates to.\<close>

definition wrap64 :: "int \<Rightarrow> int" where
  [go_defs]: "wrap64 v = (v + 2 ^ 63) mod 2 ^ 64 - 2 ^ 63"

fun digits_value :: "nat \<Rightarrow> string \<Rightarrow> nat" where
  "digits_value acc [] = acc"
| "digits_value acc (c # s) = digits_value (acc * 10 + (code c - 48)) s"

text \<open>
  \<open>strconv.ParseInt(s, 10, 64)\<close>, which \<open>strconv.Atoi\<close> is on a 64-bit platform: an optional sign,
  at least one digit, nothing else, in range.
\<close>

definition parse_int :: "string \<Rightarrow> int option" where
  [go_defs]: "parse_int s =
    (let neg = (prefix ''-'' s);
         body = (if prefix ''-'' s \<or> prefix ''+'' s then tl s else s);
         v = (if neg then - int (digits_value 0 body) else int (digits_value 0 body))
     in if body = [] \<or> \<not> list_all is_digit body then None
        else if int64_range v then Some v else None)"

section \<open>Lemmas on bytes and substrings\<close>

lemma code_inject: "code c = code d \<longleftrightarrow> c = d"
  by (metis char_of_char)

lemma trim_prefix_append [simp]: "trim_prefix (p @ s) p = s"
  by (simp add: trim_prefix_def)

lemma has_suffix_append [simp]: "has_suffix (s @ p) p"
  by (simp add: has_suffix_def)

lemma has_suffix_iff: "has_suffix s p \<longleftrightarrow> (\<exists>t. s = t @ p)"
proof
  assume "has_suffix s p"
  then obtain t where "rev s = rev p @ t" by (auto simp: has_suffix_def prefix_def)
  then have "s = rev t @ p" by (metis rev_append rev_rev_ident)
  then show "\<exists>t. s = t @ p" ..
qed auto

lemma trim_suffix_append [simp]: "trim_suffix (s @ p) p = s"
  by (simp add: trim_suffix_def)

lemma index_of_append:
  "index_of s sub = Some k \<Longrightarrow> \<exists>t. s = take k s @ sub @ t \<and> k \<le> length s"
proof (induction s sub arbitrary: k rule: index_of.induct)
  case (1 sub)
  then show ?case by (auto split: if_splits)
next
  case (2 c s sub)
  show ?case
  proof (cases "prefix sub (c # s)")
    case True
    with "2.prems" show ?thesis by (auto simp: prefix_def)
  next
    case False
    with "2.prems" obtain j where j: "index_of s sub = Some j" "k = Suc j" by auto
    with False "2.IH" [of j] show ?thesis by auto
  qed
qed

lemma index_of_None: "index_of s sub = None \<longleftrightarrow> \<not> sublist sub s"
  by (induction s sub rule: index_of.induct) (auto simp: sublist_Cons_right)

lemma contains_iff_sublist [simp]: "contains s sub \<longleftrightarrow> sublist sub s"
  by (simp add: contains_def index_of_None)

lemma contains_infix [simp]: "contains (a @ sub @ b) sub"
  by simp

lemma index_of_prefix: "prefix sub s \<Longrightarrow> index_of s sub = Some 0"
  by (cases s) auto

text \<open>The first occurrence, when nothing before it starts one.\<close>

lemma index_of_first:
  "\<lbrakk>\<And>i. i < length a \<Longrightarrow> \<not> prefix sub (drop i (a @ sub @ b))\<rbrakk>
    \<Longrightarrow> index_of (a @ sub @ b) sub = Some (length a)"
proof (induction a)
  case Nil
  show ?case by (simp add: index_of_prefix)
next
  case (Cons c a)
  have "\<not> prefix sub (drop 0 ((c # a) @ sub @ b))" by (rule Cons.prems) simp
  moreover have "index_of (a @ sub @ b) sub = Some (length a)"
  proof (rule Cons.IH)
    fix i assume "i < length a"
    then have "\<not> prefix sub (drop (Suc i) ((c # a) @ sub @ b))" by (intro Cons.prems) simp
    then show "\<not> prefix sub (drop i (a @ sub @ b))" by simp
  qed
  ultimately show ?case by simp
qed

lemma index_byte_None: "index_byte s b = None \<longleftrightarrow> b \<notin> set s"
  by (induction s) auto

lemma index_byte_append: "b \<notin> set a \<Longrightarrow> index_byte (a @ b # c) b = Some (length a)"
  by (induction a) auto

lemma last_index_byte_append: "b \<notin> set c \<Longrightarrow> last_index_byte (a @ b # c) b = Some (length a)"
  by (simp add: last_index_byte_def index_byte_append)

lemma last_index_byte_None: "last_index_byte s b = None \<longleftrightarrow> b \<notin> set s"
proof (cases "index_byte (rev s) b")
  case None
  then have "b \<notin> set (rev s)" using index_byte_None by blast
  with None show ?thesis by (simp add: last_index_byte_def)
next
  case (Some k)
  then have "b \<in> set (rev s)" using index_byte_None [of "rev s" b] by auto
  with Some show ?thesis by (simp add: last_index_byte_def)
qed

lemma last_index_byte_SomeD:
  assumes "last_index_byte s b = Some k"
  shows "s = take k s @ b # drop (Suc k) s \<and> b \<notin> set (drop (Suc k) s) \<and> k < length s"
proof -
  have "b \<in> set s" using assms last_index_byte_None [of s b] by auto
  from split_list_last [OF this] obtain a c where s: "s = a @ b # c" "b \<notin> set c" by blast
  then have "last_index_byte s b = Some (length a)" by (simp add: last_index_byte_append)
  with assms have "k = length a" by simp
  with s show ?thesis by simp
qed

lemma split_byte_ne [simp]: "split_byte b s \<noteq> []"
  by (induction s) (auto split: list.splits)

lemma split_byte_no_sep: "b \<notin> set s \<Longrightarrow> split_byte b s = [s]"
  by (induction s) auto

lemma split_byte_append: "b \<notin> set a \<Longrightarrow> split_byte b (a @ b # s) = a # split_byte b s"
  by (induction a) auto

lemma split_byte_parts: "p \<in> set (split_byte b s) \<Longrightarrow> b \<notin> set p"
proof (induction s arbitrary: p)
  case (Cons c s)
  obtain q qs where "split_byte b s = q # qs" by (cases "split_byte b s") auto
  with Cons show ?case by (cases "c = b") auto
qed simp

lemma join_split_byte: "join (split_byte b s) [b] = s"
proof (induction s)
  case (Cons c s)
  obtain p ps where ps: "split_byte b s = p # ps" by (cases "split_byte b s") auto
  with Cons show ?case by (cases ps) auto
qed simp

lemma split_byte_join:
  "\<lbrakk>ps \<noteq> []; \<And>p. p \<in> set ps \<Longrightarrow> b \<notin> set p\<rbrakk> \<Longrightarrow> split_byte b (join ps [b]) = ps"
  by (induction ps "[b]" rule: join.induct) (auto simp: split_byte_no_sep split_byte_append)

lemma join_ne: "\<lbrakk>ps \<noteq> []; \<And>p. p \<in> set ps \<Longrightarrow> p \<noteq> []\<rbrakk> \<Longrightarrow> join ps sep \<noteq> [] \<and> hd (join ps sep) = hd (hd ps) \<and> last (join ps sep) = last (last ps)"
  by (induction ps sep rule: join.induct) auto

lemma set_join: "set (join ps sep) \<subseteq> (\<Union>p \<in> set ps. set p) \<union> set sep"
  by (induction ps sep rule: join.induct) auto

section \<open>Lemmas on runes\<close>

abbreviation ascii :: "string \<Rightarrow> bool" where
  "ascii s \<equiv> list_all (\<lambda>c. code c < 128) s"

declare decode_rune.simps(2) [simp del]

lemma decode_rune_ascii [simp]: "code a < 128 \<Longrightarrow> decode_rune (a # s) = (code a, 1)"
  by (simp only: decode_rune.simps if_True)

lemma rune_chunks_ascii: "ascii s \<Longrightarrow> rune_chunks s = map (\<lambda>c. (code c, [c])) s"
  by (induction s) auto

lemma concat_rune_chunks [simp]: "concat (map snd (rune_chunks s)) = s"
  by (induction s rule: rune_chunks.induct) (auto simp: Let_def split: prod.splits)

lemma rune_count_le: "rune_count s \<le> length s"
  unfolding rune_count_def
proof (induction s rule: rune_chunks.induct)
  case (2 a s)
  obtain r w where rw: "decode_rune (a # s) = (r, w)" by fastforce
  with "2.IH" [OF refl rw [symmetric]] have "length (rune_chunks (drop (w - 1) s)) \<le> length s" by simp
  with rw show ?case by simp
qed simp

text \<open>Nothing is trimmed off ASCII text that starts and ends with something else than a blank.\<close>

lemma dropWhile_hd: "xs \<noteq> [] \<Longrightarrow> \<not> P (hd xs) \<Longrightarrow> dropWhile P xs = xs"
  by (cases xs) auto

text \<open>What is written as UTF-8 is read back: the valid runes are the ones decoding yields.\<close>

definition valid_rune :: "nat \<Rightarrow> bool" where
  "valid_rune r = (r < 0x110000 \<and> \<not> (0xD800 \<le> r \<and> r \<le> 0xDFFF))"

lemma code_char_of: "n < 256 \<Longrightarrow> code (char_of n) = n"
  by (simp add: of_char_of take_bit_eq_mod)

lemma base64_digits: "r = r div 4096 * 4096 + r div 64 mod 64 * 64 + r mod (64::nat)"
proof -
  have "r div 4096 = r div 64 div 64" by (simp add: div_mult2_eq [symmetric])
  moreover have "r = r div 64 * 64 + r mod 64" "r div 64 = r div 64 div 64 * 64 + r div 64 mod 64" by simp_all
  ultimately show ?thesis by linarith
qed

lemma decode_encode2:
  assumes "128 \<le> r" "r < 2048"
  shows "decode_rune (encode_rune r @ s) = (r, length (encode_rune r))"
proof -
  define a b where "a = r div 64" and "b = r mod 64"
  have "a < 32" "2 \<le> a" "b < 64" "r = a * 64 + b" using assms by (auto simp: a_def b_def)
  moreover have "encode_rune r = [char_of (192 + a), char_of (128 + b)]" using assms by (simp add: encode_rune_def a_def b_def)
  ultimately show ?thesis by (simp add: cont_byte_def decode_rune.simps code_char_of)
qed

lemma decode_encode3:
  assumes "2048 \<le> r" "r < 65536" "\<not> (55296 \<le> r \<and> r \<le> 57343)"
  shows "decode_rune (encode_rune r @ s) = (r, length (encode_rune r))"
proof -
  define a b c where "a = r div 4096" and "b = r div 64 mod 64" and "c = r mod 64"
  have r: "r = a * 4096 + b * 64 + c" using base64_digits by (simp add: a_def b_def c_def)
  have "a < 16" "b < 64" "c < 64" using assms by (auto simp: a_def b_def c_def)
  moreover from this have "a = 0 \<longrightarrow> 32 \<le> b" "a = 13 \<longrightarrow> b \<le> 31" using assms r by auto
  moreover have "encode_rune r = [char_of (224 + a), char_of (128 + b), char_of (128 + c)]"
    using assms by (simp add: encode_rune_def a_def b_def c_def)
  ultimately show ?thesis using r by (simp add: cont_byte_def decode_rune.simps code_char_of)
qed

lemma decode_encode4:
  assumes "65536 \<le> r" "r < 1114112"
  shows "decode_rune (encode_rune r @ s) = (r, length (encode_rune r))"
proof -
  define z a b c where "z = r div 262144" and "a = r div 4096 mod 64" and "b = r div 64 mod 64" and "c = r mod 64"
  have "r div 262144 = r div 4096 div 64" by (simp add: div_mult2_eq [symmetric])
  then have "r div 4096 = z * 64 + a" by (simp add: z_def a_def)
  then have r: "r = z * 262144 + a * 4096 + b * 64 + c" using base64_digits [of r] by (simp add: b_def c_def)
  have "z < 5" "a < 64" "b < 64" "c < 64" using assms by (auto simp: z_def a_def b_def c_def)
  moreover from this have "z = 0 \<longrightarrow> 16 \<le> a" "z = 4 \<longrightarrow> a \<le> 15" using assms r by auto
  moreover have "encode_rune r = [char_of (240 + z), char_of (128 + a), char_of (128 + b), char_of (128 + c)]"
    using assms by (simp add: encode_rune_def a_def b_def c_def z_def)
  ultimately show ?thesis using r by (simp add: cont_byte_def decode_rune.simps code_char_of)
qed

lemma decode_encode: "valid_rune r \<Longrightarrow> decode_rune (encode_rune r @ s) = (r, length (encode_rune r))"
  using decode_encode2 [of r s] decode_encode3 [of r s] decode_encode4 [of r s]
  by (cases "r < 128") (auto simp: valid_rune_def encode_rune_def decode_rune.simps code_char_of not_less)

lemma rune_chunks_encode: "valid_rune r \<Longrightarrow> rune_chunks (encode_rune r @ s) = (r, encode_rune r) # rune_chunks s"
proof -
  assume v: "valid_rune r"
  have "encode_rune r \<noteq> []" by (simp add: encode_rune_def)
  then obtain a t where e: "encode_rune r = a # t" by (cases "encode_rune r") auto
  show ?thesis using decode_encode [OF v, of s] by (simp add: e)
qed

lemma decode_rune_valid: "decode_rune s = (r, w) \<Longrightarrow> valid_rune r"
proof (cases s)
  case (Cons a t)
  assume "decode_rune s = (r, w)"
  moreover have "code a < 256" by (cases a) (simp add: of_char_def horner_sum_simps)
  ultimately show ?thesis using Cons
    by (auto simp: valid_rune_def rune_error_def cont_byte_def decode_rune.simps split: if_splits list.splits)
qed (simp add: valid_rune_def rune_error_def)

lemma rune_chunks_valid: "(r, bs) \<in> set (rune_chunks s) \<Longrightarrow> valid_rune r"
  by (induction s rule: rune_chunks.induct) (auto dest: decode_rune_valid [OF sym] split: prod.splits)
lemma runes_encode: "list_all valid_rune rs \<Longrightarrow> map fst (rune_chunks (concat (map encode_rune rs))) = rs"
  by (induction rs) (auto simp: rune_chunks_encode)

lemma trim_space_ascii_id:
  assumes "ascii s" "s \<noteq> []" "\<not> is_space_rune (code (hd s))" "\<not> is_space_rune (code (last s))"
  shows "trim_space s = s"
proof -
  let ?cs = "map (\<lambda>c. (code c, [c])) s"
  have ne: "?cs \<noteq> []" "rev ?cs \<noteq> []" using assms(2) by auto
  have "hd ?cs = (code (hd s), [hd s])" "hd (rev ?cs) = (code (last s), [last s])"
    using assms(2) by (simp_all add: hd_map hd_rev last_map)
  then have "dropWhile (\<lambda>(r, _). is_space_rune r) ?cs = ?cs"
    "dropWhile (\<lambda>(r, _). is_space_rune r) (rev ?cs) = rev ?cs"
    using dropWhile_hd [OF ne(1)] dropWhile_hd [OF ne(2)] assms(3,4) by auto
  then have "trim_space s = concat (map snd ?cs)"
    unfolding trim_space_def Let_def rune_chunks_ascii [OF assms(1)] by simp
  also have "\<dots> = s" by (simp add: comp_def)
  finally show ?thesis .
qed

lemma trim_space_Nil [simp]: "trim_space [] = []"
  by (simp add: trim_space_def)

definition byte_lower :: "char \<Rightarrow> char" where
  "byte_lower c = (if 65 \<le> code c \<and> code c \<le> 90 then char_of (code c + 32) else c)"

lemma to_lower_ascii: "ascii s \<Longrightarrow> to_lower s = map byte_lower s"
proof -
  assume a: "ascii s"
  then have "map (\<lambda>c. encode_rune (rune_to_lower (code c))) s = map (\<lambda>c. [byte_lower c]) s"
    by (auto simp: list_all_iff encode_rune_def rune_to_lower_def byte_lower_def)
  with a show ?thesis
    by (simp add: to_lower_def rune_chunks_ascii comp_def del: map_eq_conv)
qed

lemma byte_lower_idem [simp]: "byte_lower (byte_lower c) = byte_lower c"
  by (auto simp: byte_lower_def)

lemma ascii_byte_lower: "ascii s \<Longrightarrow> ascii (map byte_lower s)"
  by (auto simp: list_all_iff byte_lower_def)

lemma to_lower_idem_ascii: "ascii s \<Longrightarrow> to_lower (to_lower s) = to_lower s"
  by (simp add: to_lower_ascii ascii_byte_lower)

lemma equal_fold_refl [simp]: "equal_fold s s"
  by (simp add: equal_fold_def)

lemma equal_fold_sym: "equal_fold s t \<Longrightarrow> equal_fold t s"
  by (simp add: equal_fold_def)

section \<open>Lemmas on numbers\<close>

lemma digit_char_code [simp]: "d < 10 \<Longrightarrow> code (digit_char d) = 48 + d"
  by (simp add: digit_char_def)

lemma is_digit_digit_char [simp]: "d < 10 \<Longrightarrow> is_digit (digit_char d)"
  by (simp add: is_digit_def)

lemma nat_to_string_ne [simp]: "nat_to_string n \<noteq> []"
  by (subst nat_to_string.simps) simp

lemma nat_to_string_digits: "list_all is_digit (nat_to_string n)"
proof (induction n rule: nat_to_string.induct)
  case (1 n)
  show ?case
    by (subst nat_to_string.simps) (simp add: "1.IH")
qed

lemma digits_value_append: "digits_value acc (s @ t) = digits_value (digits_value acc s) t"
  by (induction s arbitrary: acc) auto

lemma digits_value_nat_to_string [simp]: "digits_value 0 (nat_to_string n) = n"
proof (induction n rule: nat_to_string.induct)
  case (1 n)
  show ?case
    by (subst nat_to_string.simps) (simp add: digits_value_append "1.IH")
qed

lemma is_digit_not_sign: "is_digit c \<Longrightarrow> c \<noteq> CHR ''-'' \<and> c \<noteq> CHR ''+'' \<and> c \<noteq> CHR ''.''"
  by (auto simp: is_digit_def)

lemma prefix_single: "prefix [c] s \<longleftrightarrow> (\<exists>t. s = c # t)"
  by (auto simp: prefix_def)

text \<open>Digits without a leading zero are what printing their number gives.\<close>

lemma digits_value_mono: "a \<le> digits_value a s"
proof (induction s arbitrary: a)
  case (Cons c s)
  have "a \<le> a * 10 + (code c - 48)" by simp
  also have "\<dots> \<le> digits_value (a * 10 + (code c - 48)) s" by (rule Cons.IH)
  finally show ?case by simp
qed simp

lemma digits_value_pos:
  "is_digit c \<Longrightarrow> c \<noteq> CHR ''0'' \<Longrightarrow> 0 < digits_value 0 (c # s)"
proof -
  assume "is_digit c" "c \<noteq> CHR ''0''"
  then have "code c \<noteq> 48" using code_inject [of c "CHR ''0''"] by auto
  with \<open>is_digit c\<close> have "0 < code c - 48" by (simp add: is_digit_def)
  also have "\<dots> \<le> digits_value (code c - 48) s" by (rule digits_value_mono)
  finally show ?thesis by simp
qed

lemma digit_char_inverse: "is_digit c \<Longrightarrow> digit_char (code c - 48) = c"
  by (simp add: digit_char_def is_digit_def)

lemma nat_to_string_digits_value:
  "\<lbrakk>list_all is_digit ds; ds \<noteq> []; length ds \<le> 1 \<or> hd ds \<noteq> CHR ''0''\<rbrakk>
   \<Longrightarrow> nat_to_string (digits_value 0 ds) = ds"
proof (induction ds rule: rev_induct)
  case (snoc d ds)
  have d: "is_digit d" "code d - 48 < 10" using snoc.prems(1) by (auto simp: is_digit_def)
  show ?case
  proof (cases "ds = []")
    case True
    then show ?thesis using d by (subst nat_to_string.simps) (simp add: digit_char_inverse)
  next
    case False
    then have h: "hd ds \<noteq> CHR ''0''" using snoc.prems(3) by (cases ds) auto
    have "is_digit (hd ds)" using False snoc.prems(1) by (cases ds) auto
    then have pos: "0 < digits_value 0 ds" using digits_value_pos [OF _ h] False
      by (metis list.collapse)
    have ih: "nat_to_string (digits_value 0 ds) = ds" using snoc h False by simp
    let ?n = "digits_value 0 ds * 10 + (code d - 48)"
    have n: "\<not> ?n < 10" "?n div 10 = digits_value 0 ds" "?n mod 10 = code d - 48" using pos d by auto
    have "nat_to_string ?n = nat_to_string (?n div 10) @ [digit_char (?n mod 10)]"
      using n(1) by (subst nat_to_string.simps) simp
    then show ?thesis using n ih d by (simp add: digits_value_append digit_char_inverse)
  qed
qed simp

lemma nat_to_string_no_sign [simp]:
  "\<not> prefix ''-'' (nat_to_string n)" "\<not> prefix ''+'' (nat_to_string n)"
  using nat_to_string_digits [of n] by (auto simp: prefix_single is_digit_def)

theorem parse_int_to_string [simp]:
  "int64_range v \<Longrightarrow> parse_int (int_to_string v) = Some v"
  by (auto simp: parse_int_def int_to_string_def nat_to_string_digits Let_def)

lemma parse_int_range: "parse_int s = Some v \<Longrightarrow> int64_range v"
  by (auto simp: parse_int_def Let_def split: if_splits)

lemma wrap64_id: "int64_range v \<Longrightarrow> wrap64 v = v"
  by (simp add: wrap64_def int64_range_def min_int64_def max_int64_def)

lemma wrap64_range: "int64_range (wrap64 v)"
  using pos_mod_bound [of "2 ^ 64" "v + 2 ^ 63"] pos_mod_sign [of "2 ^ 64" "v + 2 ^ 63"]
  by (simp add: wrap64_def int64_range_def min_int64_def max_int64_def)

end
