(* ===== verification/GoTime.thy ===== *)
theory GoTime
  imports BeadsPrelude
begin

text \<open>
  The part of Go's package \<open>time\<close> that the repository uses: instants with a location, durations,
  the proleptic Gregorian calendar, and \<open>time.Parse\<close> on the layouts of the sources.

  An instant is a number of nanoseconds since the Unix epoch, and a location is a fixed offset in
  seconds east of UTC: daylight-saving transitions are not modelled. A \<open>time.Duration\<close> is an
  \<open>int64\<close> number of nanoseconds whose arithmetic wraps, which \<^const>\<open>wrap64\<close> writes out.
\<close>

named_theorems time_defs

record Time =
  unix_nano :: int
  zone_offset :: int

type_synonym Duration = int

definition nano :: int where "nano = 1000000000"

definition Time_zero :: Time where
  "Time_zero = \<lparr>unix_nano = -62135596800 * nano, zone_offset = 0\<rparr>"

definition IsZero :: "Time \<Rightarrow> bool" where
  [time_defs]: "IsZero t = (unix_nano t = unix_nano Time_zero)"

definition UTC :: "Time \<Rightarrow> Time" where
  [time_defs]: "UTC t = t\<lparr>zone_offset := 0\<rparr>"

definition Before :: "Time \<Rightarrow> Time \<Rightarrow> bool" where
  [time_defs]: "Before t u = (unix_nano t < unix_nano u)"

definition After :: "Time \<Rightarrow> Time \<Rightarrow> bool" where
  [time_defs]: "After t u = (unix_nano t > unix_nano u)"

definition Equal :: "Time \<Rightarrow> Time \<Rightarrow> bool" where
  [time_defs]: "Equal t u = (unix_nano t = unix_nano u)"

definition Add :: "Time \<Rightarrow> Duration \<Rightarrow> Time" where
  [time_defs]: "Add t d = t\<lparr>unix_nano := unix_nano t + d\<rparr>"

definition Minute :: Duration where "Minute = 60 * nano"

definition Hour :: Duration where "Hour = 3600 * nano"

section \<open>The calendar\<close>

definition is_leap :: "int \<Rightarrow> bool" where
  "is_leap y = (y mod 4 = 0 \<and> (y mod 100 \<noteq> 0 \<or> y mod 400 = 0))"

definition days_in :: "int \<Rightarrow> int \<Rightarrow> int" where
  "days_in m y =
    (if m = 2 then (if is_leap y then 29 else 28)
     else if m \<in> {4, 6, 9, 11} then 30 else 31)"

text \<open>
  Days from 1970-01-01 to a date, and the date of a day. Years start in March in both, so that
  the leap day is the last day of a year of an era of 400 years.
\<close>

definition days_from_civil :: "int \<Rightarrow> int \<Rightarrow> int \<Rightarrow> int" where
  "days_from_civil y m d =
    (let y' = (if m \<le> 2 then y - 1 else y);
         yoe = y' mod 400;
         mp = (m + 9) mod 12;
         doy = (153 * mp + 2) div 5 + d - 1
     in (y' div 400) * 146097 + (yoe * 365 + yoe div 4 - yoe div 100 + doy) - 719468)"

definition year_of_era :: "int \<Rightarrow> int" where
  "year_of_era doe =
    (let c = min 3 (doe div 36524); r = doe - 36524 * c
     in 100 * c + 4 * (r div 1461) + min 3 (r mod 1461 div 365))"

definition day_of_year :: "int \<Rightarrow> int" where
  "day_of_year doe =
    (let c = min 3 (doe div 36524); r = doe - 36524 * c
     in r mod 1461 - 365 * min 3 (r mod 1461 div 365))"

definition civil_from_days :: "int \<Rightarrow> int \<times> int \<times> int" where
  "civil_from_days z =
    (let doe = (z + 719468) mod 146097;
         era = (z + 719468) div 146097;
         doy = day_of_year doe;
         mp = (5 * doy + 2) div 153;
         d = doy - (153 * mp + 2) div 5 + 1;
         m = (if mp < 10 then mp + 3 else mp - 9)
     in (year_of_era doe + era * 400 + (if m \<le> 2 then 1 else 0), m, d))"

text \<open>\<open>time.Date\<close> with a month that may lie outside 1--12 and any day, and \<open>Time.AddDate\<close>.\<close>

definition Date :: "int \<Rightarrow> int \<Rightarrow> int \<Rightarrow> int \<Rightarrow> int \<Rightarrow> Time" where
  "Date y m d ns off =
    (let y' = y + (m - 1) div 12; m' = (m - 1) mod 12 + 1
     in \<lparr>unix_nano = (days_from_civil y' m' d * 86400 - off) * nano + ns, zone_offset = off\<rparr>)"

definition local_nano :: "Time \<Rightarrow> int" where
  "local_nano t = unix_nano t + zone_offset t * nano"

definition civil :: "Time \<Rightarrow> int \<times> int \<times> int" where
  "civil t = civil_from_days (local_nano t div (86400 * nano))"

definition AddDate :: "Time \<Rightarrow> int \<Rightarrow> int \<Rightarrow> int \<Rightarrow> Time" where
  "AddDate t years months days =
    (case civil t of (y, m, d) \<Rightarrow>
       Date (y + years) (m + months) (d + days) (local_nano t mod (86400 * nano)) (zone_offset t))"

section \<open>\<open>time.Parse\<close>\<close>

text \<open>The layout elements of the sources, and a layout as the list of them.\<close>

datatype layout_elem =
    StdLongYear | StdZeroMonth | StdZeroDay | StdHour | StdZeroMinute | StdZeroSecond
  | StdISO8601ColonTZ | Lit char

record parsed =
  p_year :: int
  p_month :: int
  p_day :: int
  p_hour :: int
  p_min :: int
  p_sec :: int
  p_nsec :: int
  p_zone :: "int option"

definition getnum :: "string \<Rightarrow> bool \<Rightarrow> (int \<times> string) option" where
  "getnum s fixed =
    (case s of
       [] \<Rightarrow> None
     | a # r \<Rightarrow>
         if \<not> is_digit a then None
         else (case r of
             b # r' \<Rightarrow> if is_digit b then Some (int (code a - 48) * 10 + int (code b - 48), r')
                       else if fixed then None else Some (int (code a - 48), r)
           | [] \<Rightarrow> if fixed then None else Some (int (code a - 48), r)))"

text \<open>A layout blank takes any number of blanks, or none at the end of the input.\<close>

definition skip_lit :: "char \<Rightarrow> string \<Rightarrow> string option" where
  "skip_lit c s =
    (if c = CHR '' '' then
       (case s of [] \<Rightarrow> Some [] | b # _ \<Rightarrow> if b \<noteq> CHR '' '' then None else Some (dropWhile (\<lambda>x. x = CHR '' '') s))
     else (case s of [] \<Rightarrow> None | b # r \<Rightarrow> if b = c then Some r else None))"

text \<open>Fractional seconds that the layout does not mention, nine digits of them read.\<close>

definition frac_seconds :: "string \<Rightarrow> int \<times> string" where
  "frac_seconds s =
    (case s of
       p # d # r \<Rightarrow>
         if (p = CHR ''.'' \<or> p = CHR '','') \<and> is_digit d then
           (let ds = takeWhile is_digit (d # r); k = min 9 (length ds)
            in (int (digits_value 0 (take k ds)) * 10 ^ (9 - k), dropWhile is_digit (d # r)))
         else (0, s)
     | _ \<Rightarrow> (0, s))"

definition parse_tz :: "string \<Rightarrow> (int \<times> string) option" where
  "parse_tz s =
    (if has_prefix s ''Z'' then Some (0, tl s)
     else if length s < 6 \<or> s ! 3 \<noteq> CHR '':'' then None
     else (case (getnum (take 2 (drop 1 s)) True, getnum (take 2 (drop 4 s)) True) of
         (Some (hr, _), Some (mm, _)) \<Rightarrow>
           if hr > 24 \<or> mm > 60 then None
           else if s ! 0 = CHR ''+'' then Some ((hr * 60 + mm) * 60, drop 6 s)
           else if s ! 0 = CHR ''-'' then Some (- ((hr * 60 + mm) * 60), drop 6 s)
           else None
       | _ \<Rightarrow> None))"

definition parse_elem :: "layout_elem \<Rightarrow> parsed \<Rightarrow> string \<Rightarrow> (parsed \<times> string) option" where
  "parse_elem e p s =
    (case e of
       StdLongYear \<Rightarrow>
         if length s < 4 \<or> \<not> list_all is_digit (take 4 s) then None
         else Some (p\<lparr>p_year := int (digits_value 0 (take 4 s))\<rparr>, drop 4 s)
     | StdZeroMonth \<Rightarrow>
         (case getnum s True of None \<Rightarrow> None | Some (v, r) \<Rightarrow>
            if v \<le> 0 \<or> 12 < v then None else Some (p\<lparr>p_month := v\<rparr>, r))
     | StdZeroDay \<Rightarrow>
         (case getnum s True of None \<Rightarrow> None | Some (v, r) \<Rightarrow> Some (p\<lparr>p_day := v\<rparr>, r))
     | StdHour \<Rightarrow>
         (case getnum s False of None \<Rightarrow> None | Some (v, r) \<Rightarrow>
            if 24 \<le> v then None else Some (p\<lparr>p_hour := v\<rparr>, r))
     | StdZeroMinute \<Rightarrow>
         (case getnum s True of None \<Rightarrow> None | Some (v, r) \<Rightarrow>
            if 60 \<le> v then None else Some (p\<lparr>p_min := v\<rparr>, r))
     | StdZeroSecond \<Rightarrow>
         (case getnum s True of None \<Rightarrow> None | Some (v, r) \<Rightarrow>
            if 60 \<le> v then None
            else case frac_seconds r of (ns, r') \<Rightarrow> Some (p\<lparr>p_sec := v, p_nsec := ns\<rparr>, r'))
     | StdISO8601ColonTZ \<Rightarrow>
         (case parse_tz s of None \<Rightarrow> None | Some (z, r) \<Rightarrow> Some (p\<lparr>p_zone := Some z\<rparr>, r))
     | Lit c \<Rightarrow> map_option (Pair p) (skip_lit c s))"

fun parse_elems :: "layout_elem list \<Rightarrow> parsed \<Rightarrow> string \<Rightarrow> parsed option" where
  "parse_elems [] p s = (if s = [] then Some p else None)"
| "parse_elems (e # es) p s =
     (case parse_elem e p s of None \<Rightarrow> None | Some (p', r) \<Rightarrow> parse_elems es p' r)"

definition parsed_start :: parsed where
  "parsed_start = \<lparr>p_year = 0, p_month = -1, p_day = -1, p_hour = 0, p_min = 0, p_sec = 0,
                   p_nsec = 0, p_zone = None\<rparr>"

definition ParseInLocation :: "layout_elem list \<Rightarrow> string \<Rightarrow> int \<Rightarrow> Time option" where
  "ParseInLocation layout s off =
    (case parse_elems layout parsed_start s of
       None \<Rightarrow> None
     | Some p \<Rightarrow>
         if p_day p < 1 \<or> p_day p > days_in (p_month p) (p_year p) then None
         else
           Some (Date (p_year p) (p_month p) (p_day p)
             (((p_hour p * 60 + p_min p) * 60 + p_sec p) * nano + p_nsec p)
             (case p_zone p of None \<Rightarrow> off | Some z \<Rightarrow> z)))"

text \<open>The layouts \<open>2006-01-02\<close>, \<open>2006-01-02T15:04:05\<close>, \<open>2006-01-02 15:04:05\<close> and RFC 3339.\<close>

definition layout_date :: "layout_elem list" where
  "layout_date = [StdLongYear, Lit CHR ''-'', StdZeroMonth, Lit CHR ''-'', StdZeroDay]"

definition layout_clock :: "layout_elem list" where
  "layout_clock = [StdHour, Lit CHR '':'', StdZeroMinute, Lit CHR '':'', StdZeroSecond]"

definition layout_datetime :: "char \<Rightarrow> layout_elem list" where
  "layout_datetime sep = layout_date @ [Lit sep] @ layout_clock"

definition layout_rfc3339 :: "layout_elem list" where
  "layout_rfc3339 = layout_datetime CHR ''T'' @ [StdISO8601ColonTZ]"

section \<open>\<open>Time.Format\<close>\<close>

definition zero_pad :: "nat \<Rightarrow> nat \<Rightarrow> string" where
  "zero_pad w n = (let s = nat_to_string n in replicate (w - length s) CHR ''0'' @ s)"

text \<open>\<open>t.UTC().Format(time.RFC3339)\<close>: whole seconds, with the zone letter Z.\<close>

definition format_rfc3339_utc :: "Time \<Rightarrow> string" where
  "format_rfc3339_utc t =
    (case civil (UTC t) of (y, m, d) \<Rightarrow>
       let s = unix_nano t mod (86400 * nano) div nano
       in (if y < 0 then ''-'' else []) @ zero_pad 4 (nat \<bar>y\<bar>) @ ''-'' @ zero_pad 2 (nat m) @ ''-'' @ zero_pad 2 (nat d)
          @ ''T'' @ zero_pad 2 (nat (s div 3600)) @ '':'' @ zero_pad 2 (nat (s mod 3600 div 60)) @ '':'' @ zero_pad 2 (nat (s mod 60))
          @ ''Z'')"

section \<open>Lemmas on the calendar\<close>

text \<open>An era of 400 years is four centuries, the last a day longer; a century is 25 spans of four years.\<close>

lemma era_decomp:
  assumes "0 \<le> doe" "doe < 146097"
  shows "0 \<le> year_of_era doe" "year_of_era doe < 400"
    "0 \<le> day_of_year doe" "day_of_year doe \<le> 365"
    "doe = 365 * year_of_era doe + year_of_era doe div 4 - year_of_era doe div 100 + day_of_year doe"
proof -
  define c where "c = min 3 (doe div 36524)"
  define r where "r = doe - 36524 * c"
  define k where "k = r div 1461"
  define s where "s = r mod 1461"
  define j where "j = min 3 (s div 365)"
  have c: "0 \<le> c" "c \<le> 3" using assms unfolding c_def by auto
  have r: "0 \<le> r" "r \<le> 36524" using assms unfolding r_def c_def by linarith+
  have k: "0 \<le> k" "k \<le> 24" using r unfolding k_def by linarith+
  have s: "0 \<le> s" "s \<le> 1460" "r = 1461 * k + s" unfolding s_def k_def by auto
  have j: "0 \<le> j" "j \<le> 3" "365 * j \<le> s" "s \<le> 365 * j + 365" using s unfolding j_def by linarith+
  have y: "year_of_era doe = 100 * c + 4 * k + j" and d: "day_of_year doe = s - 365 * j"
    unfolding year_of_era_def day_of_year_def Let_def c_def r_def k_def s_def j_def by simp_all
  have q4: "year_of_era doe div 4 = 25 * c + k" and q100: "year_of_era doe div 100 = c"
    unfolding y using c k j by linarith+
  have "doe = 365 * (100 * c + 4 * k + j) + (25 * c + k) - c + (s - 365 * j)"
    using s(3) r_def by simp
  then show "doe = 365 * year_of_era doe + year_of_era doe div 4 - year_of_era doe div 100 + day_of_year doe"
    unfolding q4 q100 d unfolding y .
  show "0 \<le> year_of_era doe" "year_of_era doe < 400" unfolding y using c k j by linarith+
  show "0 \<le> day_of_year doe" "day_of_year doe \<le> 365" unfolding d using j by linarith+
qed

text \<open>The date of a day counts back to the day, and a day offset moves the count by as much.\<close>

lemma days_from_civil_add: "days_from_civil y m (d + n) = days_from_civil y m d + n"
  by (simp add: days_from_civil_def Let_def)

lemma civil_from_days_inverse:
  "civil_from_days z = (y, m, d) \<Longrightarrow> days_from_civil y m d = z \<and> 1 \<le> m \<and> m \<le> 12"
proof -
  assume eq: "civil_from_days z = (y, m, d)"
  define doe where "doe = (z + 719468) mod 146097"
  define era where "era = (z + 719468) div 146097"
  define doy where "doy = day_of_year doe"
  define mp where "mp = (5 * doy + 2) div 153"
  have z: "z + 719468 = era * 146097 + doe" unfolding doe_def era_def by simp
  have b: "0 \<le> doe" "doe < 146097" unfolding doe_def by auto
  note e = era_decomp [OF b]
  have mp: "0 \<le> mp" "mp \<le> 11" unfolding mp_def doy_def using e(3,4) by linarith+
  define m' where "m' = (if mp < 10 then mp + 3 else mp - 9)"
  have "civil_from_days z = (year_of_era doe + era * 400 + (if m' \<le> 2 then 1 else 0), m',
                             doy - (153 * mp + 2) div 5 + 1)"
    unfolding civil_from_days_def Let_def doe_def era_def doy_def mp_def m'_def by (rule refl)
  with eq have m: "m = (if mp < 10 then mp + 3 else mp - 9)"
    and d: "d = doy - (153 * mp + 2) div 5 + 1"
    and y: "y = year_of_era doe + era * 400 + (if m \<le> 2 then 1 else 0)"
    unfolding m'_def by auto
  have mp9: "(m + 9) mod 12 = mp" unfolding m using mp by auto
  have y': "(if m \<le> 2 then y - 1 else y) = era * 400 + year_of_era doe" unfolding y by simp
  have "(era * 400 + year_of_era doe) div 400 = era" "(era * 400 + year_of_era doe) mod 400 = year_of_era doe"
    using e(1,2) by auto
  moreover have "(153 * mp + 2) div 5 + d - 1 = doy" using d by simp
  moreover have "era * 146097 + (year_of_era doe * 365 + year_of_era doe div 4
                 - year_of_era doe div 100 + doy) - 719468 = z"
    using z e(5) unfolding doy_def by simp
  ultimately have "days_from_civil y m d = z"
    unfolding days_from_civil_def Let_def y' mp9 by simp
  moreover have "1 \<le> m \<and> m \<le> 12" unfolding m using mp by auto
  ultimately show ?thesis by simp
qed

lemma Date_normalized:
  "1 \<le> m \<Longrightarrow> m \<le> 12 \<Longrightarrow>
   Date y m d ns off = \<lparr>unix_nano = (days_from_civil y m d * 86400 - off) * nano + ns, zone_offset = off\<rparr>"
  by (simp add: Date_def Let_def)

text \<open>Adding days to a date moves the instant by whole days.\<close>

lemma AddDate_days: "AddDate t 0 0 n = Add t (n * 86400 * nano)"
proof -
  obtain y m d where c: "civil_from_days (local_nano t div (86400 * nano)) = (y, m, d)"
    by (metis prod_cases3)
  from civil_from_days_inverse [OF this]
  have z: "days_from_civil y m d = local_nano t div (86400 * nano)" and m: "1 \<le> m" "m \<le> 12" by auto
  have "local_nano t div (86400 * nano) * (86400 * nano) + local_nano t mod (86400 * nano) = local_nano t"
    by (rule div_mult_mod_eq)
  then have "(local_nano t div (86400 * nano) + n) * (86400 * nano) + local_nano t mod (86400 * nano)
             = local_nano t + n * (86400 * nano)"
    by (simp only: distrib_right)
  then show ?thesis
    unfolding AddDate_def civil_def c prod.case Add_def add_0_right
    by (simp add: Date_normalized [OF m] days_from_civil_add z local_nano_def algebra_simps)
qed

lemma UTC_idem [simp]: "UTC (UTC t) = UTC t"
  by (simp add: UTC_def)

lemma UTC_Equal [simp]: "Equal (UTC t) t"
  by (simp add: UTC_def Equal_def)

end
