(* ===== verification/GoJson.thy ===== *)
theory GoJson
  imports BeadsPrelude
begin

text \<open>
  \<open>json.Valid\<close> of Go's package \<open>encoding/json\<close>, which the repository uses to accept metadata: the
  scanner is a pushdown automaton over the bytes, with a stack of open objects and arrays of depth
  at most 10000.
\<close>

datatype scan_state =
    BeginValueOrEmpty | BeginValue | BeginStringOrEmpty | BeginString
  | EndValue | EndTop
  | InString | InStringEsc | InStringEscU nat
  | Neg | State1 | State0 | Dot | Dot0 | StateE | ESign | E0
  | Literal string

datatype parse_state = ObjectKey | ObjectValue | ArrayValue

record scanner =
  step :: scan_state
  stack :: "parse_state list"
  endTop :: bool

definition json_space :: "char \<Rightarrow> bool" where
  "json_space c = (c = CHR '' '' \<or> code c = 9 \<or> code c = 13 \<or> code c = 10)"

definition hex_digit :: "char \<Rightarrow> bool" where
  "hex_digit c = (is_digit c \<or> (97 \<le> code c \<and> code c \<le> 102) \<or> (65 \<le> code c \<and> code c \<le> 70))"

definition goto :: "scanner \<Rightarrow> scan_state \<Rightarrow> scanner option" where
  "goto s st = Some (s\<lparr>step := st\<rparr>)"

definition push :: "scanner \<Rightarrow> scan_state \<Rightarrow> parse_state \<Rightarrow> scanner option" where
  "push s st p = (if length (stack s) < 10000 then Some (s\<lparr>step := st, stack := p # stack s\<rparr>) else None)"

definition pop :: "scanner \<Rightarrow> scanner option" where
  "pop s = (case tl (stack s) of
      [] \<Rightarrow> Some (s\<lparr>stack := [], step := EndTop, endTop := True\<rparr>)
    | ps \<Rightarrow> Some (s\<lparr>stack := ps, step := EndValue\<rparr>))"

definition step_end_top :: "scanner \<Rightarrow> char \<Rightarrow> scanner option" where
  "step_end_top s c = (if json_space c then Some s else None)"

definition step_end_value :: "scanner \<Rightarrow> char \<Rightarrow> scanner option" where
  "step_end_value s c =
    (case stack s of
       [] \<Rightarrow> step_end_top (s\<lparr>step := EndTop, endTop := True\<rparr>) c
     | p # ps \<Rightarrow>
         if json_space c then goto s EndValue
         else (case p of
             ObjectKey \<Rightarrow>
               if c = CHR '':'' then goto (s\<lparr>stack := ObjectValue # ps\<rparr>) BeginValue else None
           | ObjectValue \<Rightarrow>
               if c = CHR '','' then goto (s\<lparr>stack := ObjectKey # ps\<rparr>) BeginString
               else if c = CHR ''}'' then pop s else None
           | ArrayValue \<Rightarrow>
               if c = CHR '','' then goto s BeginValue
               else if c = CHR '']'' then pop s else None))"

definition step_begin_value :: "scanner \<Rightarrow> char \<Rightarrow> scanner option" where
  "step_begin_value s c =
    (if json_space c then Some s
     else if c = CHR ''{'' then push s BeginStringOrEmpty ObjectKey
     else if c = CHR ''['' then push s BeginValueOrEmpty ArrayValue
     else if code c = 34 then goto s InString
     else if c = CHR ''-'' then goto s Neg
     else if c = CHR ''0'' then goto s State0
     else if is_digit c then goto s State1
     else if c = CHR ''t'' then goto s (Literal ''rue'')
     else if c = CHR ''f'' then goto s (Literal ''alse'')
     else if c = CHR ''n'' then goto s (Literal ''ull'')
     else None)"

definition step_begin_string :: "scanner \<Rightarrow> char \<Rightarrow> scanner option" where
  "step_begin_string s c =
    (if json_space c then Some s else if code c = 34 then goto s InString else None)"

definition step_state0 :: "scanner \<Rightarrow> char \<Rightarrow> scanner option" where
  "step_state0 s c =
    (if c = CHR ''.'' then goto s Dot
     else if c = CHR ''e'' \<or> c = CHR ''E'' then goto s StateE
     else step_end_value s c)"

definition scan :: "scanner \<Rightarrow> char \<Rightarrow> scanner option" where
  "scan s c =
    (case step s of
       BeginValueOrEmpty \<Rightarrow>
         if json_space c then Some s
         else if c = CHR '']'' then step_end_value s c else step_begin_value s c
     | BeginValue \<Rightarrow> step_begin_value s c
     | BeginStringOrEmpty \<Rightarrow>
         if json_space c then Some s
         else if c = CHR ''}'' then step_end_value (s\<lparr>stack := ObjectValue # tl (stack s)\<rparr>) c
         else step_begin_string s c
     | BeginString \<Rightarrow> step_begin_string s c
     | EndValue \<Rightarrow> step_end_value s c
     | EndTop \<Rightarrow> step_end_top s c
     | InString \<Rightarrow>
         if code c = 34 then goto s EndValue
         else if code c = 92 then goto s InStringEsc
         else if code c < 32 then None else Some s
     | InStringEsc \<Rightarrow>
         if c \<in> set [CHR ''b'', CHR ''f'', CHR ''n'', CHR ''r'', CHR ''t'', char_of (92::nat), CHR ''/'', char_of (34::nat)]
         then goto s InString
         else if c = CHR ''u'' then goto s (InStringEscU 3) else None
     | InStringEscU n \<Rightarrow>
         if hex_digit c then goto s (if n = 0 then InString else InStringEscU (n - 1)) else None
     | Neg \<Rightarrow> if c = CHR ''0'' then goto s State0 else if is_digit c then goto s State1 else None
     | State1 \<Rightarrow> if is_digit c then goto s State1 else step_state0 s c
     | State0 \<Rightarrow> step_state0 s c
     | Dot \<Rightarrow> if is_digit c then goto s Dot0 else None
     | Dot0 \<Rightarrow>
         if is_digit c then Some s
         else if c = CHR ''e'' \<or> c = CHR ''E'' then goto s StateE else step_end_value s c
     | StateE \<Rightarrow>
         if c = CHR ''+'' \<or> c = CHR ''-'' then goto s ESign
         else if is_digit c then goto s E0 else None
     | ESign \<Rightarrow> if is_digit c then goto s E0 else None
     | E0 \<Rightarrow> if is_digit c then Some s else step_end_value s c
     | Literal w \<Rightarrow>
         (case w of [] \<Rightarrow> None
          | [d] \<Rightarrow> if c = d then goto s EndValue else None
          | d # ds \<Rightarrow> if c = d then goto s (Literal ds) else None))"

fun scan_bytes :: "scanner \<Rightarrow> string \<Rightarrow> scanner option" where
  "scan_bytes s [] = Some s"
| "scan_bytes s (c # cs) = (case scan s c of None \<Rightarrow> None | Some s' \<Rightarrow> scan_bytes s' cs)"

definition scan_eof :: "scanner \<Rightarrow> bool" where
  "scan_eof s = (endTop s \<or> (case scan s CHR '' '' of None \<Rightarrow> False | Some s' \<Rightarrow> endTop s'))"

definition scanner_reset :: scanner where
  "scanner_reset = \<lparr>step = BeginValue, stack = [], endTop = False\<rparr>"

definition json_Valid :: "string \<Rightarrow> bool" where
  "json_Valid data = (case scan_bytes scanner_reset data of None \<Rightarrow> False | Some s \<Rightarrow> scan_eof s)"

section \<open>Strings in \<open>json.Marshal\<close>\<close>

definition hex_char :: "nat \<Rightarrow> char" where
  "hex_char d = (if d < 10 then char_of (48 + d) else char_of (87 + d))"

definition json_quote_rune :: "nat \<times> string \<Rightarrow> string" where
  "json_quote_rune ch =
    (case ch of (r, bs) \<Rightarrow>
       let bslash = char_of (92::nat) in
       if r = 34 \<or> r = 92 then [bslash, char_of r]
       else if r = 8 then [bslash, CHR ''b'']
       else if r = 12 then [bslash, CHR ''f'']
       else if r = 10 then [bslash, CHR ''n'']
       else if r = 13 then [bslash, CHR ''r'']
       else if r = 9 then [bslash, CHR ''t'']
       else if r < 32 \<or> r = 60 \<or> r = 62 \<or> r = 38 then
         bslash # ''u00'' @ [hex_char (r div 16), hex_char (r mod 16)]
       else if r = rune_error \<and> length bs = 1 then bslash # ''ufffd''
       else if r = 8232 then bslash # ''u2028''
       else if r = 8233 then bslash # ''u2029''
       else bs)"

definition json_quote :: "string \<Rightarrow> string" where
  "json_quote s =
     char_of (34::nat) # concat (map json_quote_rune (rune_chunks s)) @ [char_of (34::nat)]"

section \<open>Lemmas\<close>

text \<open>The empty input and an open object are refused, the empty object and blanks around it are not.\<close>

lemma json_Valid_examples:
  "\<not> json_Valid ''''" "json_Valid ''{}''" "json_Valid '' {} ''" "\<not> json_Valid ''{''"
  by (simp_all add: json_Valid_def scanner_reset_def scan_eof_def scan_def step_begin_value_def
      step_begin_string_def step_end_value_def step_end_top_def push_def pop_def goto_def json_space_def)

end
