(* ===== verification/IssueTypes.thy ===== *)
theory IssueTypes
  imports GoTime GoJson
begin

text \<open>
  The issue record of \<open>internal/types/types.go\<close> with its status, type and length validation,
  defaults, custom statuses and the bytes of its content hash. A Go string type such as \<open>Status\<close> is
  a string here too: any text is a value of it, and validity is a predicate. A pointer is an option.
\<close>

named_theorems issue_defs

type_synonym Status = string
type_synonym IssueType = string
type_synonym StatusCategory = string
type_synonym MolType = string
type_synonym WispType = string
type_synonym StorageClass = string
type_synonym WorkType = string
type_synonym DependencyType = string

record Comment =
  ID :: string
  IssueID :: string
  Author :: string
  Text :: string
  CreatedAt :: Time

record Dependency =
  ID :: string
  IssueID :: string
  DependsOnID :: string
  Type :: DependencyType
  CreatedAt :: Time
  CreatedBy :: string
  Metadata :: string
  ThreadID :: string

record BondRef =
  SourceID :: string
  BondType :: string
  BondPoint :: string

record Issue =
  ID :: string
  ContentHash :: string
  Title :: string
  Description :: string
  Design :: string
  AcceptanceCriteria :: string
  Notes :: string
  SpecID :: string
  Status :: Status
  Priority :: int
  IssueType :: IssueType
  IsBlocked :: bool
  Assignee :: string
  Owner :: string
  EstimatedMinutes :: "int option"
  CreatedAt :: Time
  CreatedBy :: string
  UpdatedAt :: Time
  StartedAt :: "Time option"
  ClosedAt :: "Time option"
  CloseReason :: string
  ClosedBySession :: string
  LeaseExpiresAt :: "Time option"
  HeartbeatAt :: "Time option"
  LeaseGrantedNode :: string
  RowVersion :: int
  DueAt :: "Time option"
  DeferUntil :: "Time option"
  ExternalRef :: "string option"
  SourceSystem :: string
  Metadata :: string
  CompactionLevel :: int
  CompactedAt :: "Time option"
  CompactedAtCommit :: "string option"
  OriginalSize :: int
  SourceRepo :: string
  IDPrefix :: string
  PrefixOverride :: string
  WispPlaneOverride :: "bool option"
  Labels :: "string list"
  Dependencies :: "Dependency list"
  Comments :: "Comment list"
  Sender :: string
  Ephemeral :: bool
  NoHistory :: bool
  WispType :: WispType
  StorageClass :: StorageClass
  Pinned :: bool
  IsTemplate :: bool
  BondedFrom :: "BondRef list"
  AwaitType :: string
  AwaitID :: string
  Timeout :: Duration
  Waiters :: "string list"
  SourceFormula :: string
  SourceLocation :: string
  MolType :: MolType
  WorkType :: WorkType
  EventKind :: string
  Actor :: string
  Target :: string
  Payload :: string
  IsLitePartial :: bool

definition Issue_zero :: Issue where
  "Issue_zero = \<lparr>ID = [], ContentHash = [], Title = [], Description = [], Design = [],
    AcceptanceCriteria = [], Notes = [], SpecID = [], Status = [], Priority = 0, IssueType = [],
    IsBlocked = False, Assignee = [], Owner = [], EstimatedMinutes = None, CreatedAt = Time_zero,
    CreatedBy = [], UpdatedAt = Time_zero, StartedAt = None, ClosedAt = None, CloseReason = [],
    ClosedBySession = [], LeaseExpiresAt = None, HeartbeatAt = None, LeaseGrantedNode = [],
    RowVersion = 0, DueAt = None, DeferUntil = None, ExternalRef = None, SourceSystem = [],
    Metadata = [], CompactionLevel = 0, CompactedAt = None, CompactedAtCommit = None,
    OriginalSize = 0, SourceRepo = [], IDPrefix = [], PrefixOverride = [], WispPlaneOverride = None,
    Labels = [], Dependencies = [], Comments = [], Sender = [], Ephemeral = False, NoHistory = False,
    WispType = [], StorageClass = [], Pinned = False, IsTemplate = False, BondedFrom = [],
    AwaitType = [], AwaitID = [], Timeout = 0, Waiters = [], SourceFormula = [], SourceLocation = [],
    MolType = [], WorkType = [], EventKind = [], Actor = [], Target = [], Payload = [],
    IsLitePartial = False\<rparr>"

section \<open>Statuses and issue types\<close>

abbreviation "StatusOpen \<equiv> ''open''"
abbreviation "StatusInProgress \<equiv> ''in_progress''"
abbreviation "StatusBlocked \<equiv> ''blocked''"
abbreviation "StatusDeferred \<equiv> ''deferred''"
abbreviation "StatusClosed \<equiv> ''closed''"
abbreviation "StatusPinned \<equiv> ''pinned''"
abbreviation "StatusHooked \<equiv> ''hooked''"

definition AllStatuses :: "Status list" where
  "AllStatuses = [StatusOpen, StatusInProgress, StatusBlocked, StatusDeferred,
    StatusClosed, StatusPinned, StatusHooked]"

definition Status_IsValid :: "Status \<Rightarrow> bool" where
  [issue_defs]: "Status_IsValid s = (s \<in> set AllStatuses)"

definition Status_IsValidWithCustom :: "Status \<Rightarrow> string list \<Rightarrow> bool" where
  [issue_defs]: "Status_IsValidWithCustom s customStatuses = (Status_IsValid s \<or> s \<in> set customStatuses)"

abbreviation "CategoryActive \<equiv> ''active''"
abbreviation "CategoryWIP \<equiv> ''wip''"
abbreviation "CategoryDone \<equiv> ''done''"
abbreviation "CategoryFrozen \<equiv> ''frozen''"
abbreviation "CategoryUnspecified \<equiv> ''unspecified''"

definition validCategories :: "StatusCategory list" where
  "validCategories = [CategoryActive, CategoryWIP, CategoryDone, CategoryFrozen]"

record CustomStatus =
  Name :: string
  Category :: StatusCategory

definition Status_IsValidWithCustomStatuses :: "Status \<Rightarrow> CustomStatus list \<Rightarrow> bool" where
  [issue_defs]: "Status_IsValidWithCustomStatuses s customStatuses =
    (Status_IsValid s \<or> (\<exists>cs \<in> set customStatuses. s = Name cs))"

definition BuiltInStatusCategory :: "Status \<Rightarrow> StatusCategory" where
  "BuiltInStatusCategory s =
    (if s = StatusOpen then CategoryActive
     else if s \<in> {StatusInProgress, StatusBlocked, StatusHooked} then CategoryWIP
     else if s = StatusClosed then CategoryDone
     else if s \<in> {StatusDeferred, StatusPinned} then CategoryFrozen
     else CategoryUnspecified)"

abbreviation "TypeBug \<equiv> ''bug''"
abbreviation "TypeFeature \<equiv> ''feature''"
abbreviation "TypeTask \<equiv> ''task''"
abbreviation "TypeEpic \<equiv> ''epic''"
abbreviation "TypeChore \<equiv> ''chore''"
abbreviation "TypeDecision \<equiv> ''decision''"
abbreviation "TypeMessage \<equiv> ''message''"
abbreviation "TypeMolecule \<equiv> ''molecule''"
abbreviation "TypeGate \<equiv> ''gate''"
abbreviation "TypeSpike \<equiv> ''spike''"
abbreviation "TypeStory \<equiv> ''story''"
abbreviation "TypeMilestone \<equiv> ''milestone''"
abbreviation "TypeEvent \<equiv> ''event''"

definition AllIssueTypes :: "IssueType list" where
  "AllIssueTypes = [TypeBug, TypeFeature, TypeTask, TypeEpic, TypeChore, TypeDecision,
    TypeMessage, TypeMolecule, TypeGate, TypeSpike, TypeStory, TypeMilestone]"

definition IssueType_IsValid :: "IssueType \<Rightarrow> bool" where
  [issue_defs]: "IssueType_IsValid t = (t \<in> set AllIssueTypes)"

definition IssueType_IsBuiltIn :: "IssueType \<Rightarrow> bool" where
  [issue_defs]: "IssueType_IsBuiltIn t = (IssueType_IsValid t \<or> t = TypeEvent)"

definition IssueType_IsValidWithCustom :: "IssueType \<Rightarrow> string list \<Rightarrow> bool" where
  [issue_defs]: "IssueType_IsValidWithCustom t customTypes = (IssueType_IsBuiltIn t \<or> t \<in> set customTypes)"

definition IssueType_Normalize :: "IssueType \<Rightarrow> IssueType" where
  "IssueType_Normalize t =
    (let l = to_lower t in
     if l \<in> {''enhancement'', ''feat''} then TypeFeature
     else if l \<in> {''dec'', ''adr''} then TypeDecision
     else if l \<in> {''investigation'', ''timebox''} then TypeSpike
     else if l \<in> {''user-story'', ''user_story''} then TypeStory
     else if l = ''ms'' then TypeMilestone
     else t)"

record RequiredSection =
  Heading :: string
  Hint :: string

definition RequiredSections :: "IssueType \<Rightarrow> RequiredSection list" where
  "RequiredSections t =
    (if t = TypeBug then
       [\<lparr>Heading = ''## Steps to Reproduce'', Hint = ''Describe how to reproduce the bug''\<rparr>,
        \<lparr>Heading = ''## Acceptance Criteria'', Hint = ''Define criteria to verify the fix''\<rparr>]
     else if t \<in> {TypeTask, TypeFeature, TypeStory} then
       [\<lparr>Heading = ''## Acceptance Criteria'', Hint = ''Define criteria to verify completion''\<rparr>]
     else if t = TypeEpic then
       [\<lparr>Heading = ''## Success Criteria'', Hint = ''Define high-level success criteria''\<rparr>]
     else if t = TypeDecision then
       [\<lparr>Heading = ''## Decision'', Hint = ''Summarize what was decided''\<rparr>,
        \<lparr>Heading = ''## Rationale'', Hint = ''Explain why this option was chosen''\<rparr>,
        \<lparr>Heading = ''## Alternatives Considered'', Hint = ''List alternatives and why they were rejected''\<rparr>]
     else if t = TypeSpike then
       [\<lparr>Heading = ''## Goal'', Hint = ''What question does this spike answer?''\<rparr>,
        \<lparr>Heading = ''## Findings'', Hint = ''What was learned? (fill in when complete)''\<rparr>]
     else [])"

section \<open>Storage classes\<close>

abbreviation "StorageClassVersioned \<equiv> ''versioned''"
abbreviation "StorageClassUnversioned \<equiv> ''unversioned''"
abbreviation "StorageClassEphemeral \<equiv> ''ephemeral''"

definition validStorageClasses :: "StorageClass list" where
  "validStorageClasses = [StorageClassVersioned, StorageClassUnversioned, StorageClassEphemeral]"

definition StorageClass_IsValid :: "StorageClass \<Rightarrow> bool" where
  [issue_defs]: "StorageClass_IsValid s = (s = [] \<or> s \<in> set validStorageClasses)"

section \<open>Field validation\<close>

datatype issue_error =
    TitleRequired
  | TitleTooLong nat
  | PriorityOutOfRange int
  | InvalidStatus string
  | InvalidIssueType string
  | NegativeEstimate
  | ClosedWithoutClosedAt
  | ClosedAtOnNonClosed
  | MetadataNotJSON
  | EphemeralAndNoHistory
  | InvalidStorageClass string
  | StorageClassConflictsWithWisp string
  | EphemeralClassNeedsFlag
  | ErrFieldTooLong string nat

definition MaxFieldLen :: nat where "MaxFieldLen = 255"

definition CheckFieldLen :: "string \<Rightarrow> string \<Rightarrow> issue_error option" where
  "CheckFieldLen nm v =
    (let n = rune_count v in if n > MaxFieldLen then Some (ErrFieldTooLong nm n) else None)"

definition MaxTextBytes :: nat where "MaxTextBytes = 65535"

definition CheckTextLen :: "string \<Rightarrow> string \<Rightarrow> issue_error option" where
  "CheckTextLen nm v =
    (let n = length v in if n > MaxTextBytes then Some (ErrFieldTooLong nm n) else None)"

definition ValidateIssueTitle :: "string \<Rightarrow> issue_error option" where
  "ValidateIssueTitle t =
    (if length t = 0 then Some TitleRequired
     else if length t > 500 then Some (TitleTooLong (length t)) else None)"

definition ValidateIssuePriority :: "int \<Rightarrow> issue_error option" where
  "ValidateIssuePriority p = (if p < 0 \<or> p > 4 then Some (PriorityOutOfRange p) else None)"

definition ValidateIssueEstimatedMinutes :: "int option \<Rightarrow> issue_error option" where
  "ValidateIssueEstimatedMinutes e =
    (case e of None \<Rightarrow> None | Some m \<Rightarrow> if m < 0 then Some NegativeEstimate else None)"

text \<open>The first error of a sequence of checks, as the early returns give it.\<close>

fun first_error :: "'e option list \<Rightarrow> 'e option" where
  "first_error [] = None"
| "first_error (None # es) = first_error es"
| "first_error (Some e # es) = Some e"

abbreviation err_if :: "bool \<Rightarrow> 'e \<Rightarrow> 'e option" where
  "err_if b e \<equiv> (if b then Some e else None)"

definition checkStorageClass :: "Issue \<Rightarrow> issue_error option" where
  "checkStorageClass i =
    (let sc = StorageClass i; wispPlane = (Ephemeral i \<or> NoHistory i) in
     if sc = [] then None
     else if wispPlane \<and> sc \<noteq> StorageClassEphemeral then Some (StorageClassConflictsWithWisp sc)
     else if \<not> wispPlane \<and> sc = StorageClassEphemeral then Some EphemeralClassNeedsFlag
     else None)"

definition ValidateWithCustom :: "Issue \<Rightarrow> string list \<Rightarrow> string list \<Rightarrow> issue_error option" where
  "ValidateWithCustom i customStatuses customTypes = first_error
    [ValidateIssueTitle (Title i),
     ValidateIssuePriority (Priority i),
     err_if (\<not> Status_IsValidWithCustom (Status i) customStatuses) (InvalidStatus (Status i)),
     err_if (\<not> IssueType_IsValidWithCustom (IssueType i) customTypes) (InvalidIssueType (IssueType i)),
     ValidateIssueEstimatedMinutes (EstimatedMinutes i),
     err_if (Status i = StatusClosed \<and> ClosedAt i = None) ClosedWithoutClosedAt,
     err_if (Status i \<noteq> StatusClosed \<and> ClosedAt i \<noteq> None) ClosedAtOnNonClosed,
     err_if (Metadata i \<noteq> [] \<and> \<not> json_Valid (Metadata i)) MetadataNotJSON,
     err_if (Ephemeral i \<and> NoHistory i) EphemeralAndNoHistory,
     err_if (\<not> StorageClass_IsValid (StorageClass i)) (InvalidStorageClass (StorageClass i)),
     checkStorageClass i,
     CheckFieldLen ''assignee'' (Assignee i),
     CheckFieldLen ''owner'' (Owner i)]"

definition ValidateWithCustomStatuses :: "Issue \<Rightarrow> string list \<Rightarrow> issue_error option" where
  "ValidateWithCustomStatuses i customStatuses = ValidateWithCustom i customStatuses []"

definition Validate :: "Issue \<Rightarrow> issue_error option" where
  "Validate i = ValidateWithCustomStatuses i []"

text \<open>The import check trusts every issue type and does not look at the storage class.\<close>

definition ValidateForImport :: "Issue \<Rightarrow> string list \<Rightarrow> issue_error option" where
  "ValidateForImport i customStatuses = first_error
    [ValidateIssueTitle (Title i),
     ValidateIssuePriority (Priority i),
     err_if (\<not> Status_IsValidWithCustom (Status i) customStatuses) (InvalidStatus (Status i)),
     ValidateIssueEstimatedMinutes (EstimatedMinutes i),
     err_if (Status i = StatusClosed \<and> ClosedAt i = None) ClosedWithoutClosedAt,
     err_if (Status i \<noteq> StatusClosed \<and> ClosedAt i \<noteq> None) ClosedAtOnNonClosed,
     err_if (Metadata i \<noteq> [] \<and> \<not> json_Valid (Metadata i)) MetadataNotJSON,
     CheckFieldLen ''assignee'' (Assignee i),
     CheckFieldLen ''owner'' (Owner i)]"

definition SetDefaults :: "Issue \<Rightarrow> Issue" where
  "SetDefaults i =
    (let i = (if Status i = [] then i\<lparr>Status := StatusOpen\<rparr> else i)
     in if IssueType i = [] then i\<lparr>IssueType := TypeTask\<rparr> else i)"

definition NormalizeOptionalTimestampsToUTC :: "Issue \<Rightarrow> Issue" where
  "NormalizeOptionalTimestampsToUTC i =
    i\<lparr>StartedAt := map_option UTC (StartedAt i), ClosedAt := map_option UTC (ClosedAt i),
      CompactedAt := map_option UTC (CompactedAt i), DueAt := map_option UTC (DueAt i),
      DeferUntil := map_option UTC (DeferUntil i), LeaseExpiresAt := map_option UTC (LeaseExpiresAt i),
      HeartbeatAt := map_option UTC (HeartbeatAt i)\<rparr>"

definition IsCompound :: "Issue \<Rightarrow> bool" where
  "IsCompound i = (BondedFrom i \<noteq> [])"

section \<open>Lemmas\<close>

lemma first_error_None [simp]: "first_error es = None \<longleftrightarrow> list_all (\<lambda>e. e = None) es"
  by (induction es rule: first_error.induct) auto

lemma first_error_mem: "first_error es = Some e \<Longrightarrow> Some e \<in> set es"
  by (induction es rule: first_error.induct) auto

text \<open>What a row must satisfy to be stored, as one predicate.\<close>

definition wf_issue :: "string list \<Rightarrow> string list \<Rightarrow> Issue \<Rightarrow> bool" where
  "wf_issue cs ct i =
    (1 \<le> length (Title i) \<and> length (Title i) \<le> 500
     \<and> Priority i \<in> {0..4}
     \<and> Status i \<in> set AllStatuses \<union> set cs
     \<and> IssueType i \<in> set AllIssueTypes \<union> {TypeEvent} \<union> set ct
     \<and> (case EstimatedMinutes i of None \<Rightarrow> True | Some m \<Rightarrow> 0 \<le> m)
     \<and> (Status i = StatusClosed \<longleftrightarrow> ClosedAt i \<noteq> None)
     \<and> (Metadata i = [] \<or> json_Valid (Metadata i))
     \<and> (case StorageClass i = [] of
          True \<Rightarrow> \<not> (Ephemeral i \<and> NoHistory i)
        | False \<Rightarrow> StorageClass i \<in> set validStorageClasses
            \<and> (if StorageClass i = StorageClassEphemeral then Ephemeral i \<noteq> NoHistory i
               else \<not> Ephemeral i \<and> \<not> NoHistory i))
     \<and> rune_count (Assignee i) \<le> MaxFieldLen \<and> rune_count (Owner i) \<le> MaxFieldLen)"

lemma title_ok: "ValidateIssueTitle t = None \<longleftrightarrow> 1 \<le> length t \<and> length t \<le> 500"
  by (auto simp: ValidateIssueTitle_def Suc_le_eq)

lemma priority_ok: "ValidateIssuePriority p = None \<longleftrightarrow> p \<in> {0..4}"
  by (auto simp: ValidateIssuePriority_def)

lemma estimate_ok:
  "ValidateIssueEstimatedMinutes e = None \<longleftrightarrow> (case e of None \<Rightarrow> True | Some m \<Rightarrow> 0 \<le> m)"
  by (auto simp: ValidateIssueEstimatedMinutes_def split: option.splits)

lemma field_len_ok: "CheckFieldLen nm v = None \<longleftrightarrow> rune_count v \<le> MaxFieldLen"
  by (auto simp: CheckFieldLen_def Let_def)

lemma storage_ok:
  "\<not> (Ephemeral i \<and> NoHistory i) \<and> StorageClass_IsValid (StorageClass i) \<and> checkStorageClass i = None
   \<longleftrightarrow> (case StorageClass i = [] of
          True \<Rightarrow> \<not> (Ephemeral i \<and> NoHistory i)
        | False \<Rightarrow> StorageClass i \<in> set validStorageClasses
            \<and> (if StorageClass i = StorageClassEphemeral then Ephemeral i \<noteq> NoHistory i
               else \<not> Ephemeral i \<and> \<not> NoHistory i))"
  by (auto simp: StorageClass_IsValid_def checkStorageClass_def Let_def split: bool.splits)

lemmas issue_checks = title_ok priority_ok estimate_ok field_len_ok
  Status_IsValidWithCustom_def Status_IsValid_def IssueType_IsValidWithCustom_def
  IssueType_IsBuiltIn_def IssueType_IsValid_def

section \<open>Properties\<close>

text \<open>
  C12: validation accepts exactly the well-formed issues: a title of 1 to 500 bytes, a priority
  P0--P4, a known status and type, a non-negative estimate, a closing time exactly on closed
  issues, JSON metadata, one consistent storage plane, and assignee and owner that fit their columns.
\<close>

theorem ValidateWithCustom_accepts_wf:
  "(ValidateWithCustom i cs ct = None) = wf_issue cs ct i"
proof -
  have "(ValidateWithCustom i cs ct = None) =
    (ValidateIssueTitle (Title i) = None \<and> ValidateIssuePriority (Priority i) = None
     \<and> Status_IsValidWithCustom (Status i) cs \<and> IssueType_IsValidWithCustom (IssueType i) ct
     \<and> ValidateIssueEstimatedMinutes (EstimatedMinutes i) = None
     \<and> (Status i = StatusClosed \<longleftrightarrow> ClosedAt i \<noteq> None)
     \<and> (Metadata i = [] \<or> json_Valid (Metadata i))
     \<and> (\<not> (Ephemeral i \<and> NoHistory i) \<and> StorageClass_IsValid (StorageClass i) \<and> checkStorageClass i = None)
     \<and> CheckFieldLen ''assignee'' (Assignee i) = None \<and> CheckFieldLen ''owner'' (Owner i) = None)"
    unfolding ValidateWithCustom_def by auto
  then show ?thesis
    unfolding wf_issue_def storage_ok by (simp only: issue_checks Un_iff insert_iff empty_iff simp_thms conj_assoc disj_assoc)
qed

text \<open>
  C20: the import check is validation without the issue-type check and the storage-class checks:
  an issue passes validation exactly when it passes the import check and those three.
\<close>

theorem ValidateForImport_gap:
  "(ValidateWithCustom i cs ct = None) =
   (ValidateForImport i cs = None \<and> IssueType_IsValidWithCustom (IssueType i) ct
    \<and> \<not> (Ephemeral i \<and> NoHistory i) \<and> StorageClass_IsValid (StorageClass i)
    \<and> checkStorageClass i = None)"
  unfolding ValidateWithCustom_def ValidateForImport_def by auto


end
