(* ===== verification/CustomStatuses.thy ===== *)
theory CustomStatuses
  imports IssueTypes
begin

text \<open>
  User-defined statuses: the parser of the configuration value \<open>status.custom\<close>
  (\<open>internal/types/types.go\<close>, \<open>ParseCustomStatusConfig\<close>) and the projections of its result.
\<close>

datatype status_config_error =
    TrailingColon string
  | InvalidCategory string string
  | InvalidStatusName string
  | CollidesWithBuiltIn string
  | DuplicateStatusName string
  | TooManyStatuses nat

definition lower_letter :: "char \<Rightarrow> bool" where
  "lower_letter c = (97 \<le> code c \<and> code c \<le> 122)"

definition statusNameRegexp :: "string \<Rightarrow> bool" where
  "statusNameRegexp s =
    (case s of [] \<Rightarrow> False
     | c # r \<Rightarrow> lower_letter c
         \<and> list_all (\<lambda>d. lower_letter d \<or> is_digit d \<or> d = CHR ''_'' \<or> d = CHR ''-'') r)"

definition maxCustomStatuses :: nat where "maxCustomStatuses = 50"

definition builtInStatusNames :: "string list" where
  "builtInStatusNames = [''open'', ''in_progress'', ''blocked'', ''deferred'', ''closed'', ''pinned'', ''hooked'']"

text \<open>One part of the value: the name and the category, or the error that stops the parser.\<close>

definition parse_status_part :: "string \<Rightarrow> status_config_error + CustomStatus" where
  "parse_status_part part =
    (case index_byte part CHR '':'' of
       Some idx \<Rightarrow>
         (let nm = take idx part; catStr = drop (idx + 1) part in
          if catStr = [] then Inl (TrailingColon part)
          else if catStr \<notin> set validCategories then Inl (InvalidCategory catStr nm)
          else Inr \<lparr>Name = nm, Category = catStr\<rparr>)
     | None \<Rightarrow> Inr \<lparr>Name = part, Category = CategoryUnspecified\<rparr>)"

fun parse_status_parts ::
  "string list \<Rightarrow> string set \<Rightarrow> CustomStatus list \<Rightarrow> status_config_error + CustomStatus list" where
  "parse_status_parts [] seen result = Inr result"
| "parse_status_parts (part # parts) seen result =
    (let part = trim_space part in
     if part = [] then parse_status_parts parts seen result
     else case parse_status_part part of
       Inl e \<Rightarrow> Inl e
     | Inr cs \<Rightarrow>
         if \<not> statusNameRegexp (Name cs) then Inl (InvalidStatusName (Name cs))
         else if to_lower (Name cs) \<in> set builtInStatusNames then Inl (CollidesWithBuiltIn (Name cs))
         else if Name cs \<in> seen then Inl (DuplicateStatusName (Name cs))
         else parse_status_parts parts (insert (Name cs) seen) (result @ [cs]))"

definition ParseCustomStatusConfig :: "string \<Rightarrow> status_config_error + CustomStatus list" where
  "ParseCustomStatusConfig v =
    (let v = trim_space v in
     if v = [] then Inr []
     else case parse_status_parts (split_byte CHR '','' v) {} [] of
       Inl e \<Rightarrow> Inl e
     | Inr result \<Rightarrow>
         if length result > maxCustomStatuses then Inl (TooManyStatuses (length result)) else Inr result)"

definition CustomStatusNames :: "CustomStatus list \<Rightarrow> string list" where
  "CustomStatusNames statuses = map Name statuses"

definition CustomStatusesByCategory :: "CustomStatus list \<Rightarrow> StatusCategory \<Rightarrow> CustomStatus list" where
  "CustomStatusesByCategory statuses c = filter (\<lambda>s. Category s = c) statuses"

section \<open>Lemmas\<close>

text \<open>What the parser promises of its result.\<close>

definition valid_custom_status :: "CustomStatus \<Rightarrow> bool" where
  "valid_custom_status cs =
    (statusNameRegexp (Name cs) \<and> Name cs \<notin> set AllStatuses
     \<and> Category cs \<in> set (CategoryUnspecified # validCategories))"

definition valid_custom_statuses :: "CustomStatus list \<Rightarrow> bool" where
  "valid_custom_statuses css =
    (list_all valid_custom_status css \<and> distinct (map Name css) \<and> length css \<le> maxCustomStatuses)"

text \<open>The configuration value that spells a list of statuses.\<close>

definition print_custom_status :: "CustomStatus \<Rightarrow> string" where
  "print_custom_status cs =
     Name cs @ (if Category cs = CategoryUnspecified then [] else '':'' @ Category cs)"

definition print_custom_statuses :: "CustomStatus list \<Rightarrow> string" where
  "print_custom_statuses css = join (map print_custom_status css) '',''"

lemma builtin_names: "set builtInStatusNames = set AllStatuses"
  by (auto simp: builtInStatusNames_def AllStatuses_def)

lemma statusName_ascii: "statusNameRegexp s \<Longrightarrow> ascii s \<and> s \<noteq> [] \<and> CHR '':'' \<notin> set s \<and> CHR '','' \<notin> set s"
  by (auto simp: statusNameRegexp_def lower_letter_def is_digit_def list_all_iff split: list.splits)

lemma statusName_lower: "statusNameRegexp s \<Longrightarrow> to_lower s = s"
proof -
  assume r: "statusNameRegexp s"
  then have "byte_lower c = c" if "c \<in> set s" for c
    using that by (auto simp: statusNameRegexp_def lower_letter_def is_digit_def list_all_iff
        byte_lower_def split: list.splits)
  then have "map byte_lower s = s" by (simp add: map_idI)
  with r show ?thesis by (simp add: to_lower_ascii statusName_ascii)
qed

lemma statusName_ends:
  assumes "statusNameRegexp s"
  shows "\<not> is_space_rune (code (hd s))" "\<not> is_space_rune (code (last s))"
proof -
  have "c \<in> set s \<Longrightarrow> \<not> is_space_rune (code c)" for c
    using assms by (auto simp: statusNameRegexp_def lower_letter_def is_digit_def list_all_iff
        is_space_rune_def split: list.splits)
  moreover have "s \<noteq> []" using assms statusName_ascii by blast
  ultimately show "\<not> is_space_rune (code (hd s))" "\<not> is_space_rune (code (last s))" by simp_all
qed

lemma category_text:
  "c \<in> set validCategories \<Longrightarrow> ascii c \<and> c \<noteq> [] \<and> CHR '','' \<notin> set c \<and> \<not> is_space_rune (code (last c))
     \<and> c \<noteq> CategoryUnspecified"
  by (auto simp: validCategories_def is_space_rune_def)

lemma parse_status_part_category: "parse_status_part p = Inr cs \<Longrightarrow> Category cs \<in> set (CategoryUnspecified # validCategories)"
  by (auto simp: parse_status_part_def Let_def split: option.splits if_splits)

lemma parse_status_parts_sound:
  "\<lbrakk>parse_status_parts ps seen acc = Inr r; seen = Name ` set acc; list_all valid_custom_status acc;
    distinct (map Name acc)\<rbrakk>
   \<Longrightarrow> list_all valid_custom_status r \<and> distinct (map Name r)"
proof (induction ps seen acc rule: parse_status_parts.induct)
  case (2 part parts seen acc)
  show ?case
  proof (cases "trim_space part = []")
    case True
    with 2 show ?thesis by simp
  next
    case False
    with "2.prems"(1) obtain cs where cs: "parse_status_part (trim_space part) = Inr cs"
      by (auto split: sum.splits)
    with False "2.prems"(1) have ok: "statusNameRegexp (Name cs)" "to_lower (Name cs) \<notin> set builtInStatusNames"
      "Name cs \<notin> seen" "parse_status_parts parts (insert (Name cs) seen) (acc @ [cs]) = Inr r"
      by (auto split: if_splits)
    have "valid_custom_status cs"
      using ok parse_status_part_category [OF cs]
      by (simp add: valid_custom_status_def statusName_lower builtin_names)
    with ok "2.prems" "2.IH"(2) [OF refl False cs] show ?thesis by simp
  qed
qed simp

lemma print_custom_status_text:
  assumes "valid_custom_status cs"
  shows "ascii (print_custom_status cs)" "print_custom_status cs \<noteq> []" "CHR '','' \<notin> set (print_custom_status cs)"
    "\<not> is_space_rune (code (hd (print_custom_status cs)))"
    "\<not> is_space_rune (code (last (print_custom_status cs)))"
  using assms statusName_ascii [of "Name cs"] statusName_ends [of "Name cs"] category_text [of "Category cs"]
  by (auto simp: valid_custom_status_def print_custom_status_def)

lemma parse_print_custom_status:
  assumes "valid_custom_status cs"
  shows "parse_status_part (print_custom_status cs) = Inr cs"
proof (cases "Category cs = CategoryUnspecified")
  case True
  have "CHR '':'' \<notin> set (Name cs)" using assms statusName_ascii by (auto simp: valid_custom_status_def)
  then have "index_byte (Name cs) CHR '':'' = None" by (simp add: index_byte_None)
  with True show ?thesis by (simp add: parse_status_part_def print_custom_status_def)
next
  case False
  have "CHR '':'' \<notin> set (Name cs)" using assms statusName_ascii by (auto simp: valid_custom_status_def)
  then have "index_byte (Name cs @ CHR '':'' # Category cs) CHR '':'' = Some (length (Name cs))"
    by (rule index_byte_append)
  moreover have c: "Category cs \<in> set validCategories" using False assms by (simp add: valid_custom_status_def)
  ultimately show ?thesis
    using False category_text [OF c] by (simp add: parse_status_part_def print_custom_status_def Let_def)
qed

lemma parse_status_parts_print:
  "\<lbrakk>list_all valid_custom_status css; distinct (map Name css); seen \<inter> Name ` set css = {}\<rbrakk>
   \<Longrightarrow> parse_status_parts (map print_custom_status css) seen acc = Inr (acc @ css)"
proof (induction css arbitrary: seen acc)
  case (Cons cs css)
  then have v: "valid_custom_status cs" by simp
  note t = print_custom_status_text [OF v]
  have tr: "trim_space (print_custom_status cs) = print_custom_status cs"
    by (rule trim_space_ascii_id [OF t(1,2,4,5)])
  have n: "statusNameRegexp (Name cs)" "to_lower (Name cs) \<notin> set builtInStatusNames"
    using v by (simp_all add: valid_custom_status_def statusName_lower builtin_names)
  have "parse_status_parts (map print_custom_status css) (insert (Name cs) seen) (acc @ [cs])
        = Inr ((acc @ [cs]) @ css)"
    by (rule Cons.IH) (use Cons.prems in auto)
  with n t(2) Cons.prems(3) show ?case
    by (simp add: tr parse_print_custom_status [OF v])
qed simp

section \<open>Properties\<close>

text \<open>
  C19: what the configuration parser returns is a list of at most fifty statuses with distinct
  names, each a lower-case identifier that is not a built-in status, each with a known category.
\<close>

theorem ParseCustomStatusConfig_sound:
  assumes "ParseCustomStatusConfig v = Inr css"
  shows "valid_custom_statuses css"
proof (cases "trim_space v = []")
  case True
  with assms show ?thesis by (simp add: ParseCustomStatusConfig_def valid_custom_statuses_def)
next
  case False
  with assms have "parse_status_parts (split_byte CHR '','' (trim_space v)) {} [] = Inr css"
    "length css \<le> maxCustomStatuses"
    by (auto simp: ParseCustomStatusConfig_def Let_def split: sum.splits if_splits)
  then show ?thesis
    using parse_status_parts_sound [of _ "{}" "[]" css] by (auto simp: valid_custom_statuses_def)
qed

theorem ParseCustomStatusConfig_sound_witness:
  "ParseCustomStatusConfig '''' = Inr [] \<and> valid_custom_statuses []"
  using ParseCustomStatusConfig_sound [of "''''" "[]"] by (simp add: ParseCustomStatusConfig_def)

text \<open>
  C18: every such list has a spelling the parser reads back, category by category and in order.
\<close>

theorem ParseCustomStatusConfig_roundtrip:
  assumes "valid_custom_statuses css"
  shows "ParseCustomStatusConfig (print_custom_statuses css) = Inr css"
proof (cases "css = []")
  case True
  then show ?thesis by (simp add: ParseCustomStatusConfig_def print_custom_statuses_def)
next
  case False
  have v: "list_all valid_custom_status css" "distinct (map Name css)" "length css \<le> maxCustomStatuses"
    using assms by (simp_all add: valid_custom_statuses_def)
  let ?ps = "map print_custom_status css"
  let ?s = "print_custom_statuses css"
  have t: "ascii p" "p \<noteq> []" "CHR '','' \<notin> set p" "\<not> is_space_rune (code (hd p))"
    "\<not> is_space_rune (code (last p))" if "p \<in> set ?ps" for p
    using that v(1) print_custom_status_text by (auto simp: list_all_iff)
  have ne: "?ps \<noteq> []" using False by simp
  have s: "?s \<noteq> []" "hd ?s = hd (hd ?ps)" "last ?s = last (last ?ps)"
    using join_ne [OF ne t(2), of "'',''"] by (simp_all add: print_custom_statuses_def)
  have "code c < 128" if "c \<in> set ?s" for c
  proof -
    from that set_join [of ?ps "'',''"] have "(\<exists>p \<in> set ?ps. c \<in> set p) \<or> c = CHR '',''"
      unfolding print_custom_statuses_def by auto
    then show ?thesis using t(1) unfolding list_all_iff by force
  qed
  then have a: "ascii ?s" by (simp add: list_all_iff)
  have h: "hd ?ps \<in> set ?ps" "last ?ps \<in> set ?ps" using ne by (rule hd_in_set, rule last_in_set)
  have "trim_space ?s = ?s"
    using t(4) [OF h(1)] t(5) [OF h(2)]
    by (intro trim_space_ascii_id a s(1)) (simp_all only: s(2,3) not_False_eq_True)
  moreover have "split_byte CHR '','' ?s = ?ps"
    unfolding print_custom_statuses_def by (rule split_byte_join [OF ne t(3)])
  ultimately show ?thesis
    using s(1) v parse_status_parts_print [of css "{}" "[]"] by (simp add: ParseCustomStatusConfig_def)
qed

theorem ParseCustomStatusConfig_roundtrip_witness:
  "ParseCustomStatusConfig ''review:wip,parked'' =
   Inr [\<lparr>Name = ''review'', Category = ''wip''\<rparr>, \<lparr>Name = ''parked'', Category = ''unspecified''\<rparr>]"
proof -
  let ?css = "[\<lparr>Name = ''review'', Category = ''wip''\<rparr>, \<lparr>Name = ''parked'', Category = ''unspecified''\<rparr>]"
  have "valid_custom_statuses ?css"
    by (simp add: valid_custom_statuses_def valid_custom_status_def statusNameRegexp_def lower_letter_def
        AllStatuses_def validCategories_def maxCustomStatuses_def)
  from ParseCustomStatusConfig_roundtrip [OF this] show ?thesis
    by (simp add: print_custom_statuses_def print_custom_status_def)
qed

end
