(* ===== verification/Dependencies.thy ===== *)
theory Dependencies
  imports IssueTypes
begin

text \<open>
  Dependency types, the dependency records of graph plans, and the classification of close reasons
  (\<open>internal/types/types.go\<close> and \<open>internal/types/non_completing_close.go\<close>).
\<close>

named_theorems dep_defs

section \<open>Dependency types\<close>

abbreviation "DepBlocks \<equiv> ''blocks''"
abbreviation "DepParentChild \<equiv> ''parent-child''"
abbreviation "DepConditionalBlocks \<equiv> ''conditional-blocks''"
abbreviation "DepWaitsFor \<equiv> ''waits-for''"
abbreviation "DepRelated \<equiv> ''related''"
abbreviation "DepDiscoveredFrom \<equiv> ''discovered-from''"

definition AllDependencyTypes :: "DependencyType list" where
  "AllDependencyTypes =
    [DepBlocks, DepParentChild, DepConditionalBlocks, DepWaitsFor, DepRelated, DepDiscoveredFrom,
     ''replies-to'', ''relates-to'', ''duplicates'', ''supersedes'',
     ''authored-by'', ''assigned-to'', ''approved-by'', ''attests'', ''tracks'',
     ''until'', ''caused-by'', ''validates'', ''delegated-from'']"

definition MaxDependencyTypeLen :: nat where "MaxDependencyTypeLen = 32"

definition DependencyType_IsValid :: "DependencyType \<Rightarrow> bool" where
  [dep_defs]: "DependencyType_IsValid d = (0 < length d \<and> length d \<le> MaxDependencyTypeLen)"

definition WellKnownDependencyTypes :: "DependencyType list" where
  "WellKnownDependencyTypes =
    [DepBlocks, DepParentChild, DepConditionalBlocks, DepWaitsFor, DepRelated, DepDiscoveredFrom,
     ''replies-to'', ''relates-to'', ''duplicates'', ''supersedes'',
     ''authored-by'', ''assigned-to'', ''approved-by'', ''attests'', ''tracks'',
     ''until'', ''caused-by'', ''validates'', ''delegated-from'']"

definition IsWellKnown :: "DependencyType \<Rightarrow> bool" where
  [dep_defs]: "IsWellKnown d = (d \<in> set WellKnownDependencyTypes)"

definition AffectsReadyWork :: "DependencyType \<Rightarrow> bool" where
  [dep_defs]: "AffectsReadyWork d =
    (d = DepBlocks \<or> d = DepParentChild \<or> d = DepConditionalBlocks \<or> d = DepWaitsFor)"

definition IsBlockingEdge :: "DependencyType \<Rightarrow> bool" where
  [dep_defs]: "IsBlockingEdge d = (d = DepBlocks \<or> d = DepConditionalBlocks \<or> d = DepWaitsFor)"

definition IsSchedulingEdge :: "DependencyType \<Rightarrow> bool" where
  [dep_defs]: "IsSchedulingEdge t = (t = DepBlocks \<or> t = DepConditionalBlocks \<or> t = DepParentChild)"

abbreviation "WaitsForAllChildren \<equiv> ''all-children''"
abbreviation "WaitsForAnyChildren \<equiv> ''any-children''"

definition IsValidWaitsForGate :: "string \<Rightarrow> bool" where
  [dep_defs]: "IsValidWaitsForGate gate = (gate = WaitsForAllChildren \<or> gate = WaitsForAnyChildren)"

section \<open>Dependencies of graph plans\<close>

record WaitsForMeta =
  Gate :: string
  SpawnerID :: string
  AlsoBlocks :: bool

text \<open>\<open>json.Marshal\<close> of the metadata: the last two members are omitted when empty.\<close>

definition marshal_waits_for :: "WaitsForMeta \<Rightarrow> string" where
  "marshal_waits_for m =
    ''{'' @ json_quote ''gate'' @ '':'' @ json_quote (Gate m)
     @ (if SpawnerID m = [] then [] else '','' @ json_quote ''spawner_id'' @ '':'' @ json_quote (SpawnerID m))
     @ (if AlsoBlocks m then '','' @ json_quote ''also_blocks'' @ '':true'' else [])
     @ ''}''"

datatype edge_error = UnresolvedSpawner string | DepTargetNotFound string

definition Dependency_zero :: Dependency where
  "Dependency_zero = \<lparr>Dependency.ID = [], IssueID = [], DependsOnID = [], Type = [],
     CreatedAt = Time_zero, CreatedBy = [], Metadata = [], ThreadID = []\<rparr>"

definition NewGraphEdgeDependency ::
  "string \<Rightarrow> string \<Rightarrow> DependencyType \<Rightarrow> string \<Rightarrow> string \<Rightarrow> string \<Rightarrow> string \<Rightarrow> (string \<rightharpoonup> string)
   \<Rightarrow> edge_error + Dependency" where
  "NewGraphEdgeDependency fromID toID depType gate spawnerKey spawnerID threadID keyToID =
    (let dep = Dependency_zero\<lparr>IssueID := fromID, DependsOnID := toID, Type := depType, ThreadID := threadID\<rparr> in
     if depType = DepWaitsFor then
       (case (if spawnerKey \<noteq> [] then keyToID spawnerKey else Some spawnerID) of
          None \<Rightarrow> Inl (UnresolvedSpawner spawnerKey)
        | Some spawner \<Rightarrow>
            let g = (if gate = [] then WaitsForAllChildren else gate)
            in Inr (dep\<lparr>Dependency.Metadata := marshal_waits_for \<lparr>Gate = g, SpawnerID = spawner, AlsoBlocks = False\<rparr>\<rparr>))
     else Inr dep)"

definition NewWaitsForDependency :: "string \<Rightarrow> string \<Rightarrow> string \<Rightarrow> edge_error + Dependency" where
  "NewWaitsForDependency issueID spawnerID gate =
     NewGraphEdgeDependency issueID spawnerID DepWaitsFor gate [] [] [] Map.empty"

definition NewGraphNodeDependency ::
  "string \<Rightarrow> DependencyType \<Rightarrow> string \<Rightarrow> (string \<rightharpoonup> string) \<Rightarrow> edge_error + Dependency" where
  "NewGraphNodeDependency issueID depType target keyToID =
    (let depType = (if depType = [] then DepBlocks else depType);
         mapped = (case keyToID target of None \<Rightarrow> [] | Some v \<Rightarrow> v);
         targetID = (if mapped = [] then target else mapped)
     in if targetID = [] then Inl (DepTargetNotFound target)
        else NewGraphEdgeDependency issueID targetID depType [] [] [] [] Map.empty)"

section \<open>Close reasons\<close>

definition FailureCloseKeywords :: "string list" where
  "FailureCloseKeywords =
    [''failed'', ''rejected'', ''wontfix'', ''won'' @ [char_of (39::nat)] @ ''t fix'', ''canceled'', ''cancelled'',
     ''abandoned'', ''blocked'', ''error'', ''timeout'', ''aborted'']"

definition IsFailureClose :: "string \<Rightarrow> bool" where
  "IsFailureClose closeReason =
    (closeReason \<noteq> [] \<and> (let lower = to_lower closeReason in \<exists>k \<in> set FailureCloseKeywords. contains lower k))"

text \<open>
  \<open>nonCompletingCloseRegexp\<close>: each alternative as its spellings, a spelling as the runes allowed at
  each place, matched up to case folding between two ASCII word boundaries.
\<close>

definition spell :: "string \<Rightarrow> nat list list" where
  "spell s = map (\<lambda>c. [code c]) s"

definition opt_sep :: "nat list list list" where
  "opt_sep = [[], [[45, 32]]]"

definition nonCompletingSpellings :: "nat list list list" where
  "nonCompletingSpellings =
    [spell ''duplicate'', spell ''dupe'']
    @ map (\<lambda>sep. spell ''wont'' @ sep @ spell ''fix'') opt_sep
    @ map (\<lambda>sep. spell ''won'' @ [[39, 8217]] @ spell ''t'' @ sep @ spell ''fix'') opt_sep
    @ [spell ''superseded'', spell ''obsoleted'']
    @ map (\<lambda>sep. spell ''not'' @ sep @ spell ''planned'') opt_sep"

definition word_rune :: "nat \<Rightarrow> bool" where
  "word_rune r = ((48 \<le> r \<and> r \<le> 57) \<or> (65 \<le> r \<and> r \<le> 90) \<or> r = 95 \<or> (97 \<le> r \<and> r \<le> 122))"

text \<open>The assertion \<open>\b\<close> between the runes before a place and the runes from it on.\<close>

definition word_boundary :: "nat list \<Rightarrow> nat list \<Rightarrow> bool" where
  "word_boundary before after =
    ((before \<noteq> [] \<and> word_rune (last before)) \<noteq> (after \<noteq> [] \<and> word_rune (hd after)))"

definition spelling_at :: "nat list list \<Rightarrow> nat list \<Rightarrow> nat \<Rightarrow> bool" where
  "spelling_at p rs i =
    (i + length p \<le> length rs
     \<and> list_all2 (\<lambda>allowed r. rune_fold r \<in> set allowed) p (take (length p) (drop i rs))
     \<and> word_boundary (take i rs) (drop i rs)
     \<and> word_boundary (take (i + length p) rs) (drop (i + length p) rs))"

definition IsNonCompletingClose :: "string \<Rightarrow> bool" where
  "IsNonCompletingClose closeReason =
    (trim_space closeReason \<noteq> []
     \<and> (let rs = map fst (rune_chunks closeReason)
        in \<exists>p \<in> set nonCompletingSpellings. \<exists>i \<in> set [0..<Suc (length rs)]. spelling_at p rs i))"

section \<open>Lemmas\<close>

lemma blocking_edge_split:
  "AffectsReadyWork d \<longleftrightarrow> IsBlockingEdge d \<or> d = DepParentChild"
  by (auto simp: dep_defs)

lemma scheduling_edge_split:
  "IsSchedulingEdge d \<longleftrightarrow> AffectsReadyWork d \<and> d \<noteq> DepWaitsFor"
  by (auto simp: dep_defs)

text \<open>A graph node never yields a record the ready-work computation cannot read.\<close>

lemma NewGraphEdgeDependency_plain:
  "depType \<noteq> DepWaitsFor \<Longrightarrow>
   NewGraphEdgeDependency f t depType g sk si th m =
     Inr (Dependency_zero\<lparr>IssueID := f, DependsOnID := t, Type := depType, ThreadID := th\<rparr>)"
  by (simp add: NewGraphEdgeDependency_def Let_def)

section \<open>Properties\<close>


text \<open>
  The record of an inline dependency of a plan node names the issue and its target --- the id the
  plan minted for it, or the target itself --- and a fanout gate always carries its gate metadata.
\<close>

theorem NewGraphNodeDependency_result:
  assumes "NewGraphNodeDependency issueID depType target keyToID = Inr dep"
  shows "IssueID dep = issueID
    \<and> DependsOnID dep = (case keyToID target of Some v \<Rightarrow> if v = [] then target else v | None \<Rightarrow> target)
    \<and> DependsOnID dep \<noteq> []
    \<and> Type dep = (if depType = [] then DepBlocks else depType)
    \<and> (Dependency.Metadata dep = []) = (Type dep \<noteq> DepWaitsFor)"
  using assms
  by (auto simp: NewGraphNodeDependency_def NewGraphEdgeDependency_def Let_def Dependency_zero_def
      marshal_waits_for_def split: if_splits option.splits)

theorem NewGraphNodeDependency_result_witness:
  "\<exists>dep. NewGraphNodeDependency ''bd-1'' [] ''k'' [''k'' \<mapsto> ''bd-7''] = Inr dep \<and> DependsOnID dep = ''bd-7''"
proof -
  obtain dep where d: "NewGraphNodeDependency ''bd-1'' [] ''k'' [''k'' \<mapsto> ''bd-7''] = Inr dep"
    by (simp add: NewGraphNodeDependency_def NewGraphEdgeDependency_def Let_def)
  from NewGraphNodeDependency_result [OF this] d show ?thesis by auto
qed

end
