(* ===== verification/ReadyExplain.thy ===== *)
theory ReadyExplain
  imports Dependencies
begin

text \<open>
  The gate decoration of \<open>internal/types/gated.go\<close> and the explanation of the ready set,
  \<open>BuildReadyExplanation\<close> of \<open>internal/types/types.go\<close>.

  A map to pointers is a partial function to options: a missing key is \<^const>\<open>None\<close> and a key
  holding a nil pointer is \<open>Some None\<close>, since the code tells the two apart in one place.
\<close>

section \<open>Gates\<close>

record GateRef =
  gate_id :: string
  gate_type :: string
  Reason :: string

definition IsGateEdge :: "DependencyType \<Rightarrow> bool" where
  [dep_defs]: "IsGateEdge depType = (depType = DepBlocks \<or> depType = DepConditionalBlocks)"

definition SubjectCanBeGated :: "Issue option \<Rightarrow> bool" where
  "SubjectCanBeGated subject =
    (case subject of None \<Rightarrow> False | Some s \<Rightarrow> Status s \<noteq> StatusClosed \<and> Status s \<noteq> StatusPinned)"

definition GateIsHolding :: "DependencyType \<Rightarrow> Issue option \<Rightarrow> bool" where
  "GateIsHolding depType target =
    (case target of
       None \<Rightarrow> False
     | Some t \<Rightarrow>
         if IssueType t \<noteq> TypeGate then False
         else if \<not> IsGateEdge depType then False
         else Status t \<noteq> StatusClosed \<and> Status t \<noteq> StatusPinned)"

text \<open>The hydrated dependencies of a subject: an issue with the type of the edge to it, or nil.\<close>

type_synonym hydrated = "(Issue \<times> DependencyType) option"

fun gates_of :: "hydrated list \<Rightarrow> Issue list" where
  "gates_of [] = []"
| "gates_of (None # deps) = gates_of deps"
| "gates_of (Some (issue, depType) # deps) =
     (if GateIsHolding depType (Some issue) then issue # gates_of deps else gates_of deps)"

definition GatesHolding :: "Issue option \<Rightarrow> hydrated list \<Rightarrow> Issue list" where
  "GatesHolding subject deps = (if \<not> SubjectCanBeGated subject then [] else gates_of deps)"

definition GateKind :: "Issue option \<Rightarrow> string" where
  "GateKind gate =
    (case gate of None \<Rightarrow> [] | Some g \<Rightarrow> if AwaitType g \<noteq> [] then AwaitType g else TypeGate)"

definition ReasonMarker :: string where
  "ReasonMarker = [CHR 0x0A, CHR 0x0A] @ ''Reason: ''"

definition GateDescription :: "string \<Rightarrow> string \<Rightarrow> string" where
  "GateDescription targetID reason =
    (let desc = ''Ad-hoc gate blocking '' @ targetID
     in if reason \<noteq> [] then desc @ ReasonMarker @ reason else desc)"

definition GateReason :: "string \<Rightarrow> string" where
  "GateReason description =
    (case index_of description ReasonMarker of
       None \<Rightarrow> []
     | Some idx \<Rightarrow> trim_space (drop (idx + length ReasonMarker) description))"

definition NewGateRef :: "Issue option \<Rightarrow> GateRef" where
  "NewGateRef gate =
    (case gate of
       None \<Rightarrow> \<lparr>gate_id = [], gate_type = [], Reason = []\<rparr>
     | Some g \<Rightarrow> \<lparr>gate_id = ID g, gate_type = GateKind gate, Reason = GateReason (Description g)\<rparr>)"

definition GateRefs :: "Issue list \<Rightarrow> GateRef list" where
  "GateRefs gates = map (\<lambda>g. NewGateRef (Some g)) gates"

section \<open>Why an issue is ready or blocked\<close>

record DependencyCounts =
  DependencyCount :: int
  DependentCount :: int

record BlockedIssue =
  bi_issue :: Issue
  BlockedByCount :: int
  BlockedBy :: "string list"

record ReadyItem =
  ri_issue :: Issue
  ri_reason :: string
  ResolvedBlockers :: "string list"
  PinnedDependencies :: "string list"
  OpenDependencies :: "string list"
  ri_dependency_count :: int
  ri_dependent_count :: int
  Parent :: "string option"

record BlockerInfo =
  bl_id :: string
  bl_title :: string
  bl_status :: Status
  bl_priority :: int

record BlockedItem =
  bk_issue :: Issue
  bk_blocked_by :: "BlockerInfo list"
  bk_count :: int

record ReadyExplanation =
  Ready :: "ReadyItem list"
  Blocked :: "BlockedItem list"
  Cycles :: "string list list"
  TotalReady :: nat
  TotalBlocked :: nat
  CycleCount :: nat

type_synonym issue_map = "string \<Rightarrow> Issue option option"

definition readyReason :: "nat \<Rightarrow> nat \<Rightarrow> nat \<Rightarrow> string" where
  "readyReason resolved pinned opn =
    (let parts =
       (if resolved > 0 then [nat_to_string resolved @ '' blocker(s) resolved''] else [])
       @ (if pinned > 0 then [nat_to_string pinned @ '' pinned dependency(ies), never blocking''] else [])
       @ (if opn > 0 then [nat_to_string opn @ '' open dependency(ies), not blocking''] else [])
     in if parts = [] then ''no blocking dependencies'' else join parts ''; '')"

text \<open>The three lists the loop over the blocking dependencies appends to.\<close>

fun sort_blockers ::
  "issue_map \<Rightarrow> Dependency list \<Rightarrow> string list \<times> string list \<times> string list
   \<Rightarrow> string list \<times> string list \<times> string list" where
  "sort_blockers blockerMap [] acc = acc"
| "sort_blockers blockerMap (dep # deps) (resolved, pinned, opn) =
    (if Type dep \<noteq> DepBlocks \<and> Type dep \<noteq> DepConditionalBlocks \<and> Type dep \<noteq> DepWaitsFor
     then sort_blockers blockerMap deps (resolved, pinned, opn)
     else case blockerMap (DependsOnID dep) of
       Some (Some target) \<Rightarrow>
         if Status target = StatusClosed
         then sort_blockers blockerMap deps (resolved @ [DependsOnID dep], pinned, opn)
         else if Status target = StatusPinned
         then sort_blockers blockerMap deps (resolved, pinned @ [DependsOnID dep], opn)
         else sort_blockers blockerMap deps (resolved, pinned, opn @ [DependsOnID dep])
     | _ \<Rightarrow> sort_blockers blockerMap deps (resolved @ [DependsOnID dep], pinned, opn))"

fun parent_of :: "Dependency list \<Rightarrow> string option" where
  "parent_of [] = None"
| "parent_of (dep # deps) = (if Type dep = DepParentChild then Some (DependsOnID dep) else parent_of deps)"

definition ready_item ::
  "(string \<rightharpoonup> DependencyCounts) \<Rightarrow> (string \<Rightarrow> Dependency list) \<Rightarrow> issue_map \<Rightarrow> Issue \<Rightarrow> ReadyItem" where
  "ready_item depCounts allDeps blockerMap issue =
    (let counts = (case depCounts (ID issue) of None \<Rightarrow> \<lparr>DependencyCount = 0, DependentCount = 0\<rparr> | Some c \<Rightarrow> c);
         deps = allDeps (ID issue)
     in case sort_blockers blockerMap deps ([], [], []) of (resolved, pinned, opn) \<Rightarrow>
        \<lparr>ri_issue = issue, ri_reason = readyReason (length resolved) (length pinned) (length opn),
         ResolvedBlockers = resolved, PinnedDependencies = pinned, OpenDependencies = opn,
         ri_dependency_count = DependencyCount counts, ri_dependent_count = DependentCount counts,
         Parent = parent_of deps\<rparr>)"

text \<open>A nil issue under a present key is dereferenced here: the result is then \<^const>\<open>None\<close>.\<close>

definition blocker_info :: "issue_map \<Rightarrow> string \<Rightarrow> BlockerInfo option" where
  "blocker_info blockerMap blockerID =
    (case blockerMap blockerID of
       None \<Rightarrow> Some \<lparr>bl_id = blockerID, bl_title = [], bl_status = [], bl_priority = 0\<rparr>
     | Some None \<Rightarrow> None
     | Some (Some b) \<Rightarrow> Some \<lparr>bl_id = blockerID, bl_title = Title b, bl_status = Status b, bl_priority = Priority b\<rparr>)"

definition blocked_item :: "issue_map \<Rightarrow> BlockedIssue \<Rightarrow> BlockedItem option" where
  "blocked_item blockerMap bi =
    (case those (map (blocker_info blockerMap) (BlockedBy bi)) of
       None \<Rightarrow> None
     | Some infos \<Rightarrow> Some \<lparr>bk_issue = bi_issue bi, bk_blocked_by = infos, bk_count = BlockedByCount bi\<rparr>)"

definition BuildReadyExplanation ::
  "Issue list \<Rightarrow> BlockedIssue list \<Rightarrow> (string \<rightharpoonup> DependencyCounts) \<Rightarrow> (string \<Rightarrow> Dependency list)
   \<Rightarrow> issue_map \<Rightarrow> Issue list list \<Rightarrow> ReadyExplanation option" where
  "BuildReadyExplanation readyIssues blockedIssues depCounts allDeps blockerMap cycles =
    (let readyItems = map (ready_item depCounts allDeps blockerMap) readyIssues;
         cycleIDs = map (map ID) cycles
     in case those (map (blocked_item blockerMap) blockedIssues) of
          None \<Rightarrow> None
        | Some blockedItems \<Rightarrow>
            Some \<lparr>Ready = readyItems, Blocked = blockedItems, Cycles = cycleIDs,
                  TotalReady = length readyItems, TotalBlocked = length blockedItems,
                  CycleCount = length cycleIDs\<rparr>)"

section \<open>Lemmas\<close>

definition blocking_deps :: "Dependency list \<Rightarrow> Dependency list" where
  "blocking_deps deps = filter (\<lambda>d. IsBlockingEdge (Type d)) deps"

definition target_status :: "issue_map \<Rightarrow> Dependency \<Rightarrow> Status option" where
  "target_status m d = (case m (DependsOnID d) of Some (Some t) \<Rightarrow> Some (Status t) | _ \<Rightarrow> None)"

text \<open>The loop is three filters over the blocking dependencies, in the order of the edges.\<close>

lemma sort_blockers_filters:
  "sort_blockers m deps (r, p, q) =
    (r @ map DependsOnID (filter (\<lambda>d. target_status m d \<in> {None, Some StatusClosed}) (blocking_deps deps)),
     p @ map DependsOnID (filter (\<lambda>d. target_status m d = Some StatusPinned) (blocking_deps deps)),
     q @ map DependsOnID (filter (\<lambda>d. target_status m d \<notin> {None, Some StatusClosed, Some StatusPinned}) (blocking_deps deps)))"
proof (induction deps arbitrary: r p q)
  case (Cons dep deps)
  show ?case
  proof (cases "IsBlockingEdge (Type dep)")
    case True
    then have "\<not> (Type dep \<noteq> DepBlocks \<and> Type dep \<noteq> DepConditionalBlocks \<and> Type dep \<noteq> DepWaitsFor)"
      by (simp add: dep_defs)
    moreover have "blocking_deps (dep # deps) = dep # blocking_deps deps" using True by (simp add: blocking_deps_def)
    ultimately show ?thesis
      by (auto simp: Cons.IH target_status_def split: option.splits)
  next
    case False
    then have "Type dep \<noteq> DepBlocks \<and> Type dep \<noteq> DepConditionalBlocks \<and> Type dep \<noteq> DepWaitsFor"
      by (simp add: dep_defs)
    moreover have "blocking_deps (dep # deps) = blocking_deps deps" using False by (simp add: blocking_deps_def)
    ultimately show ?thesis by (simp add: Cons.IH)
  qed
qed (simp add: blocking_deps_def)

lemma filter_three:
  "length (filter (\<lambda>x. f x \<in> {None, Some a}) xs) + length (filter (\<lambda>x. f x = Some b) xs)
   + length (filter (\<lambda>x. f x \<notin> {None, Some a, Some b}) xs) = length xs" if "a \<noteq> b"
  using that by (induction xs) auto

lemma those_Some: "those xs = Some ys \<Longrightarrow> length ys = length xs \<and> (\<forall>i < length xs. xs ! i = Some (ys ! i))"
proof (induction xs arbitrary: ys)
  case (Cons x xs)
  then show ?case by (auto split: option.splits simp: nth_Cons')
qed simp

lemma nat_to_string_suffix_ne: "nat_to_string n @ s \<noteq> ''no blocking dependencies'' "
proof
  assume "nat_to_string n @ s = ''no blocking dependencies''"
  then have "hd (nat_to_string n @ s) = CHR ''n''" by simp
  then have "hd (nat_to_string n) = CHR ''n''" by simp
  moreover have "is_digit (hd (nat_to_string n))"
    using nat_to_string_digits [of n] by (cases "nat_to_string n") auto
  ultimately show False by (simp add: is_digit_def)
qed

lemma readyReason_none: "(readyReason r p q = ''no blocking dependencies'') = (r + p + q = 0)"
  by (cases "r > 0"; cases "p > 0"; cases "q > 0")
    (simp_all add: readyReason_def nat_to_string_suffix_ne)

lemma those_map_None: "(those (map f xs) = None) = (\<exists>x \<in> set xs. f x = None)"
  by (induction xs) (auto split: option.splits)

lemma marker_not_inside:
  assumes "CHR 0x0A \<notin> set a" "i < length a"
  shows "\<not> prefix ReasonMarker (drop i (a @ t))"
proof
  assume "prefix ReasonMarker (drop i (a @ t))"
  then have "hd (drop i (a @ t)) = CHR 0x0A" by (auto simp: ReasonMarker_def prefix_def)
  moreover have "hd (drop i (a @ t)) = a ! i" using assms(2) by (simp add: hd_drop_conv_nth nth_append)
  ultimately show False using assms by (metis nth_mem)
qed

section \<open>Properties\<close>

text \<open>
  C30: the three lists of a ready item hold every blocking dependency of the issue exactly once, the
  resolved list holds no dependency whose target is known to be neither closed nor pinned, the open
  list holds only such, and the wording \<open>no blocking dependencies\<close> is used exactly when there are
  none.
\<close>

theorem ready_item_sorts_blockers:
  fixes depCounts allDeps blockerMap issue
  defines "item \<equiv> ready_item depCounts allDeps blockerMap issue"
    and "deps \<equiv> blocking_deps (allDeps (ID issue))"
  shows "length (ResolvedBlockers item) + length (PinnedDependencies item) + length (OpenDependencies item)
           = length deps
    \<and> set (ResolvedBlockers item) = DependsOnID ` {d \<in> set deps. target_status blockerMap d \<in> {None, Some StatusClosed}}
    \<and> set (PinnedDependencies item) = DependsOnID ` {d \<in> set deps. target_status blockerMap d = Some StatusPinned}
    \<and> set (OpenDependencies item) =
        DependsOnID ` {d \<in> set deps. target_status blockerMap d \<notin> {None, Some StatusClosed, Some StatusPinned}}
    \<and> (ri_reason item = ''no blocking dependencies'') = (deps = [])"
proof -
  have "length (filter (\<lambda>x. target_status blockerMap x \<in> {None, Some StatusClosed}) deps)
      + length (filter (\<lambda>x. target_status blockerMap x = Some StatusPinned) deps)
      + length (filter (\<lambda>x. target_status blockerMap x \<notin> {None, Some StatusClosed, Some StatusPinned}) deps)
      = length deps"
    by (rule filter_three) simp
  then show ?thesis
    unfolding item_def ready_item_def Let_def sort_blockers_filters deps_def [symmetric]
    by (simp add: readyReason_none)
qed


text \<open>
  C32: the reason of an ad-hoc gate is read back from its description up to surrounding white space,
  for a target id without a line break.
\<close>

theorem GateReason_GateDescription:
  assumes "CHR 0x0A \<notin> set targetID"
  shows "GateReason (GateDescription targetID reason) = trim_space reason"
proof -
  let ?a = "''Ad-hoc gate blocking '' @ targetID"
  have nl: "CHR 0x0A \<notin> set ?a" using assms by simp
  show ?thesis
  proof (cases "reason = []")
    case True
    have "CHR 0x0A \<in> set ReasonMarker" by (simp add: ReasonMarker_def)
    then have "\<not> sublist ReasonMarker ?a" using nl set_mono_sublist by blast
    then have "index_of ?a ReasonMarker = None" by (simp only: index_of_None not_False_eq_True)
    with True show ?thesis by (simp add: GateReason_def GateDescription_def)
  next
    case False
    have "index_of (?a @ ReasonMarker @ reason) ReasonMarker = Some (length ?a)"
      by (rule index_of_first) (rule marker_not_inside [OF nl])
    then have "GateReason (?a @ ReasonMarker @ reason) = trim_space (drop (length ?a + length ReasonMarker) (?a @ ReasonMarker @ reason))"
      by (simp only: GateReason_def option.case)
    also have "drop (length ?a + length ReasonMarker) (?a @ ReasonMarker @ reason) = reason" by simp
    finally show ?thesis using False by (simp add: GateDescription_def)
  qed
qed

theorem GateReason_GateDescription_witness:
  "GateReason (GateDescription ''bd-1'' ''ship it'') = ''ship it''"
proof -
  have "trim_space ''ship it'' = ''ship it''" by (rule trim_space_ascii_id) (simp_all add: is_space_rune_def)
  with GateReason_GateDescription [of "''bd-1''" "''ship it''"] show ?thesis by simp
qed

end
