(* ===== verification/GoSha256.thy ===== *)
theory GoSha256
  imports BeadsPrelude "HOL-Library.Word"
begin

text \<open>
  SHA-256 (FIPS 180-4), as Go's package \<open>crypto/sha256\<close> computes it, over byte strings. The
  repository uses it for content hashes and issue ids.
\<close>

unbundle bit_operations_syntax

definition rotr :: "nat \<Rightarrow> 32 word \<Rightarrow> 32 word" where
  "rotr n x = (drop_bit n x) OR (push_bit (32 - n) x)"

text \<open>
  The constants as the standard defines them: the first 32 bits of the fractional parts of the cube
  roots of the first 64 primes, and of the square roots of the first eight.
\<close>

fun root_bits :: "nat \<Rightarrow> nat \<Rightarrow> nat \<Rightarrow> nat \<Rightarrow> nat" where
  "root_bits k n 0 acc = acc"
| "root_bits k n (Suc b) acc = root_bits k n b (if (acc + 2 ^ b) ^ k \<le> n then acc + 2 ^ b else acc)"

definition first_primes :: "nat \<Rightarrow> nat list" where
  "first_primes k = take k (filter (\<lambda>p. list_all (\<lambda>d. p mod d \<noteq> 0) [2..<p]) [2..<312])"

definition root_fraction :: "nat \<Rightarrow> nat \<Rightarrow> 32 word" where
  "root_fraction k p = word_of_nat (root_bits k (p * 2 ^ (32 * k)) 37 0)"

definition sha_K :: "32 word list" where
  "sha_K = map (root_fraction 3) (first_primes 64)"

type_synonym sha_state = "32 word \<times> 32 word \<times> 32 word \<times> 32 word \<times> 32 word \<times> 32 word \<times> 32 word \<times> 32 word"

definition sha_H0 :: sha_state where
  "sha_H0 =
    (case map (root_fraction 2) (first_primes 8) of
       [a, b, c, d, e, f, g, h] \<Rightarrow> (a, b, c, d, e, f, g, h)
     | _ \<Rightarrow> (0, 0, 0, 0, 0, 0, 0, 0))"

text \<open>The bytes of a number, most significant first, and the padded message.\<close>

fun be_bytes :: "nat \<Rightarrow> nat \<Rightarrow> string" where
  "be_bytes 0 v = []"
| "be_bytes (Suc n) v = be_bytes n (v div 256) @ [char_of (v mod 256)]"

definition sha_pad :: "string \<Rightarrow> string" where
  "sha_pad m = m @ [char_of (128::nat)] @ replicate ((119 - length m mod 64) mod 64) NUL @ be_bytes 8 (8 * length m)"

fun be_words :: "string \<Rightarrow> 32 word list" where
  "be_words (a # b # c # d # s) =
     word_of_nat (((code a * 256 + code b) * 256 + code c) * 256 + code d) # be_words s"
| "be_words s = []"

text \<open>The message schedule, built from the back: the newest word is the head.\<close>

fun sha_extend :: "nat \<Rightarrow> 32 word list \<Rightarrow> 32 word list" where
  "sha_extend 0 ws = ws"
| "sha_extend (Suc n) ws =
    (let w2 = ws ! 1; w7 = ws ! 6; w15 = ws ! 14; w16 = ws ! 15;
         s0 = rotr 7 w15 XOR rotr 18 w15 XOR drop_bit 3 w15;
         s1 = rotr 17 w2 XOR rotr 19 w2 XOR drop_bit 10 w2
     in sha_extend n ((w16 + s0 + w7 + s1) # ws))"

definition sha_round :: "sha_state \<Rightarrow> 32 word \<times> 32 word \<Rightarrow> sha_state" where
  "sha_round st kw =
    (case st of (a, b, c, d, e, f, g, h) \<Rightarrow>
       let S1 = rotr 6 e XOR rotr 11 e XOR rotr 25 e;
           ch = (e AND f) XOR ((NOT e) AND g);
           t1 = h + S1 + ch + fst kw + snd kw;
           S0 = rotr 2 a XOR rotr 13 a XOR rotr 22 a;
           maj = (a AND b) XOR (a AND c) XOR (b AND c)
       in (t1 + S0 + maj, a, b, c, d + t1, e, f, g))"

definition sha_block :: "sha_state \<Rightarrow> 32 word list \<Rightarrow> sha_state" where
  "sha_block st ws =
    (let sched = rev (sha_extend 48 (rev ws))
     in case st of (a, b, c, d, e, f, g, h) \<Rightarrow>
        case foldl sha_round st (zip sha_K sched) of (a', b', c', d', e', f', g', h') \<Rightarrow>
          (a + a', b + b', c + c', d + d', e + e', f + f', g + g', h + h'))"

function sha_blocks :: "sha_state \<Rightarrow> 32 word list \<Rightarrow> sha_state" where
  "sha_blocks st ws = (if length ws < 16 then st else sha_blocks (sha_block st (take 16 ws)) (drop 16 ws))"
  by pat_completeness auto
termination by (relation "measure (length \<circ> snd)") auto

declare sha_blocks.simps [simp del]

definition word_bytes :: "32 word \<Rightarrow> string" where
  "word_bytes w = be_bytes 4 (unat w)"

definition sha256 :: "string \<Rightarrow> string" where
  "sha256 m =
    (case sha_blocks sha_H0 (be_words (sha_pad m)) of (a, b, c, d, e, f, g, h) \<Rightarrow>
       concat (map word_bytes [a, b, c, d, e, f, g, h]))"

text \<open>\<open>hex.EncodeToString\<close> and the verb \<open>%x\<close>.\<close>

definition hex_digit_char :: "nat \<Rightarrow> char" where
  "hex_digit_char d = (if d < 10 then char_of (48 + d) else char_of (87 + d))"

definition hex_string :: "string \<Rightarrow> string" where
  "hex_string s = concat (map (\<lambda>c. [hex_digit_char (code c div 16), hex_digit_char (code c mod 16)]) s)"

section \<open>Lemmas\<close>

lemma length_be_bytes [simp]: "length (be_bytes n v) = n"
  by (induction n arbitrary: v) auto

lemma length_sha256 [simp]: "length (sha256 m) = 32"
  by (simp add: sha256_def word_bytes_def split: prod.splits)

lemma length_hex_string [simp]: "length (hex_string s) = 2 * length s"
  by (induction s) (simp_all add: hex_string_def)

end
