(* ===== verification/ContentHash.thy ===== *)
theory ContentHash
  imports IssueTypes GoSha256
begin

text \<open>
  \<open>Issue.ComputeContentHash\<close> (\<open>internal/types/types.go\<close>): the bytes written to the hash, field by
  field with a NUL after each, and their SHA-256 in hexadecimal.
\<close>

definition w_str :: "string \<Rightarrow> string" where
  "w_str s = s @ [NUL]"

definition w_int :: "int \<Rightarrow> string" where
  "w_int n = int_to_string n @ [NUL]"

definition w_strPtr :: "string option \<Rightarrow> string" where
  "w_strPtr p = (case p of None \<Rightarrow> [] | Some s \<Rightarrow> s) @ [NUL]"

definition w_duration :: "Duration \<Rightarrow> string" where
  "w_duration d = int_to_string d @ [NUL]"

definition w_flag :: "bool \<Rightarrow> string \<Rightarrow> string" where
  "w_flag b label = (if b then label else []) @ [NUL]"

definition content_bytes :: "Issue \<Rightarrow> string" where
  "content_bytes i =
    w_str (Title i) @ w_str (Description i) @ w_str (Design i) @ w_str (AcceptanceCriteria i)
    @ w_str (Notes i) @ w_str (SpecID i) @ w_str (Status i) @ w_int (Priority i)
    @ w_str (IssueType i) @ w_str (Assignee i) @ w_str (Owner i) @ w_str (CreatedBy i)
    @ w_strPtr (ExternalRef i) @ w_str (SourceSystem i) @ w_flag (Pinned i) ''pinned''
    @ w_str (Metadata i) @ w_flag (IsTemplate i) ''template''
    @ concat (map (\<lambda>br. w_str (SourceID br) @ w_str (BondType br) @ w_str (BondPoint br)) (BondedFrom i))
    @ w_str (AwaitType i) @ w_str (AwaitID i) @ w_duration (Timeout i)
    @ concat (map w_str (Waiters i))
    @ w_str (MolType i) @ w_str (WorkType i)
    @ w_str (EventKind i) @ w_str (Actor i) @ w_str (Target i) @ w_str (Payload i)"

definition ComputeContentHash :: "Issue \<Rightarrow> string" where
  "ComputeContentHash i = hex_string (sha256 (content_bytes i))"

section \<open>Lemmas\<close>

text \<open>The fields of the hash as a list of texts, and the texts with their separators.\<close>

definition content_tokens :: "Issue \<Rightarrow> string list" where
  "content_tokens i =
    [Title i, Description i, Design i, AcceptanceCriteria i, Notes i, SpecID i, Status i,
     int_to_string (Priority i), IssueType i, Assignee i, Owner i, CreatedBy i,
     (case ExternalRef i of None \<Rightarrow> [] | Some s \<Rightarrow> s), SourceSystem i, (if Pinned i then ''pinned'' else []),
     Metadata i, (if IsTemplate i then ''template'' else [])]
    @ concat (map (\<lambda>br. [SourceID br, BondType br, BondPoint br]) (BondedFrom i))
    @ [AwaitType i, AwaitID i, int_to_string (Timeout i)] @ Waiters i
    @ [MolType i, WorkType i, EventKind i, Actor i, Target i, Payload i]"

definition terminated :: "string list \<Rightarrow> string" where
  "terminated ts = concat (map (\<lambda>t. t @ [NUL]) ts)"

lemma terminated_append: "terminated (xs @ ys) = terminated xs @ terminated ys"
  by (simp add: terminated_def)

lemma content_bytes_tokens: "content_bytes i = terminated (content_tokens i)"
proof -
  have b: "concat (map (\<lambda>br. w_str (SourceID br) @ w_str (BondType br) @ w_str (BondPoint br)) bs)
        = terminated (concat (map (\<lambda>br. [SourceID br, BondType br, BondPoint br]) bs))" for bs
    by (induction bs) (simp_all add: terminated_def w_str_def)
  have w: "concat (map w_str ws) = terminated ws" for ws
    by (simp add: terminated_def w_str_def [abs_def])
  show ?thesis
    unfolding content_bytes_def content_tokens_def terminated_append b w
    by (simp add: terminated_def w_str_def w_int_def w_duration_def w_strPtr_def w_flag_def)
qed

text \<open>Texts without a NUL are recovered from their terminated concatenation.\<close>

lemma append_sep_inj:
  "\<lbrakk>x \<notin> set a; x \<notin> set b; a @ x # s = b @ x # t\<rbrakk> \<Longrightarrow> a = b \<and> s = t"
proof (induction a arbitrary: b)
  case Nil
  then show ?case by (cases b) auto
next
  case (Cons c a)
  then show ?case by (cases b) auto
qed

lemma terminated_inj:
  "\<lbrakk>list_all (\<lambda>t. NUL \<notin> set t) xs; list_all (\<lambda>t. NUL \<notin> set t) ys; terminated xs = terminated ys\<rbrakk>
   \<Longrightarrow> xs = ys"
proof (induction xs arbitrary: ys)
  case Nil
  then show ?case by (cases ys) (auto simp: terminated_def)
next
  case (Cons x xs)
  then obtain y zs where ys: "ys = y # zs" by (cases ys) (auto simp: terminated_def)
  have "x @ NUL # terminated xs = y @ NUL # terminated zs"
    using Cons.prems(3) ys by (simp add: terminated_def)
  from append_sep_inj [OF _ _ this] Cons.prems ys have "x = y" "terminated xs = terminated zs" by simp_all
  with Cons ys show ?case by simp
qed

lemma int_to_string_inj: "int64_range a \<Longrightarrow> int64_range b \<Longrightarrow> int_to_string a = int_to_string b \<Longrightarrow> a = b"
  using parse_int_to_string [of a] parse_int_to_string [of b] by (metis option.inject)

lemma bond_eq: "SourceID x = SourceID y \<Longrightarrow> BondType x = BondType y \<Longrightarrow> BondPoint x = BondPoint y \<Longrightarrow> (x :: BondRef) = y"
  by (cases x; cases y) simp

lemma bond_tokens_inj:
  "length (as :: BondRef list) = length bs \<Longrightarrow>
   concat (map (\<lambda>br. [SourceID br, BondType br, BondPoint br]) as)
   = concat (map (\<lambda>br. [SourceID br, BondType br, BondPoint br]) bs) \<Longrightarrow> as = bs"
  by (induction as bs rule: list_induct2) (auto intro: bond_eq)

lemma bond_tokens_length:
  "length (concat (map (\<lambda>br. [SourceID br, BondType br, BondPoint br]) bs)) = 3 * length bs"
  by (induction bs) auto

text \<open>An issue as a Go value: 64-bit numbers, and no NUL in a hashed text.\<close>

definition hashable :: "Issue \<Rightarrow> bool" where
  "hashable i = (int64_range (Priority i) \<and> int64_range (Timeout i)
                 \<and> list_all (\<lambda>t. NUL \<notin> set t) (content_tokens i))"

definition hashed_texts :: "Issue \<Rightarrow> string list" where
  "hashed_texts i =
    [Title i, Description i, Design i, AcceptanceCriteria i, Notes i, SpecID i, Status i, IssueType i,
     Assignee i, Owner i, CreatedBy i, SourceSystem i, Metadata i, AwaitType i, AwaitID i,
     MolType i, WorkType i, EventKind i, Actor i, Target i, Payload i]"

section \<open>Properties\<close>




end
