(* ===== verification/IssueIds.thy ===== *)
theory IssueIds
  imports GoTime GoSha256 "HOL-Library.List_Lexorder"
begin

text \<open>
  Issue identifiers: hierarchical ids (\<open>internal/types/id_generator.go\<close>), hash ids
  (\<open>internal/idgen/hash.go\<close>), and the analysis of ids (\<open>internal/utils/issue_id.go\<close>,
  \<open>internal/utils/strings.go\<close>).
\<close>

section \<open>Hierarchical ids\<close>

definition GenerateChildID :: "string \<Rightarrow> int \<Rightarrow> string" where
  "GenerateChildID parentID childNumber = parentID @ ''.'' @ int_to_string childNumber"

definition count_dots :: "string \<Rightarrow> nat" where
  "count_dots s = length (filter (\<lambda>c. c = CHR ''.'') s)"

definition ParseHierarchicalID :: "string \<Rightarrow> string \<times> string \<times> nat" where
  "ParseHierarchicalID issueId =
    (let depth = count_dots issueId in
     case (index_byte issueId CHR ''.'', last_index_byte issueId CHR ''.'') of
       (Some firstDot, Some lastDot) \<Rightarrow>
         if depth = 0 then (issueId, [], 0) else (take firstDot issueId, take lastDot issueId, depth)
     | _ \<Rightarrow> (issueId, [], 0))"

definition ExtractPrefix :: "string \<Rightarrow> string" where
  "ExtractPrefix issueId = (case index_byte issueId CHR ''-'' of None \<Rightarrow> [] | Some idx \<Rightarrow> take (idx + 1) issueId)"

definition MaxHierarchyDepth :: int where "MaxHierarchyDepth = 3"

datatype depth_error = DepthExceeded int string

definition CheckHierarchyDepth :: "string \<Rightarrow> int \<Rightarrow> depth_error option" where
  "CheckHierarchyDepth parentID maxDepth =
    (let maxDepth = (if maxDepth < 1 then MaxHierarchyDepth else maxDepth)
     in if int (count_dots parentID) \<ge> maxDepth then Some (DepthExceeded maxDepth parentID) else None)"

section \<open>Hash ids\<close>

definition base36Alphabet :: string where
  "base36Alphabet = ''0123456789abcdefghijklmnopqrstuvwxyz''"

text \<open>The value of a byte slice, most significant byte first, and its base-36 digits, least significant first.\<close>

definition bytes_value :: "string \<Rightarrow> nat" where
  "bytes_value bs = foldl (\<lambda>v c. v * 256 + code c) 0 bs"

fun base36_chars :: "nat \<Rightarrow> string" where
  "base36_chars num =
     (if num = 0 then [] else base36Alphabet ! (num mod 36) # base36_chars (num div 36))"

declare base36_chars.simps [simp del]

definition EncodeBase36 :: "string \<Rightarrow> nat \<Rightarrow> string" where
  "EncodeBase36 bs len =
    (let str = rev (base36_chars (bytes_value bs));
         str = (if length str < len then replicate (len - length str) CHR ''0'' @ str else str)
     in if length str > len then drop (length str - len) str else str)"

definition hash_num_bytes :: "nat \<Rightarrow> nat" where
  "hash_num_bytes len =
    (if len = 3 then 2 else if len = 4 then 3 else if len = 5 \<or> len = 6 then 4
     else if len = 7 \<or> len = 8 then 5 else 3)"

definition GenerateHashID :: "string \<Rightarrow> string \<Rightarrow> string \<Rightarrow> string \<Rightarrow> Time \<Rightarrow> nat \<Rightarrow> int \<Rightarrow> string" where
  "GenerateHashID pre ttl desc creator timestamp len nonce =
    (let content = ttl @ ''|'' @ desc @ ''|'' @ creator @ ''|'' @ int_to_string (wrap64 (unix_nano timestamp))
                   @ ''|'' @ int_to_string nonce;
         hash = sha256 content
     in pre @ ''-'' @ EncodeBase36 (take (hash_num_bytes len) hash) len)"

section \<open>Prefixes, numbers and the natural order of ids\<close>

definition isNumeric :: "string \<Rightarrow> bool" where
  "isNumeric s = (s \<noteq> [] \<and> list_all is_digit s)"

definition base36_char :: "char \<Rightarrow> bool" where
  "base36_char c = (is_digit c \<or> (97 \<le> code c \<and> code c \<le> 122) \<or> (65 \<le> code c \<and> code c \<le> 90))"

definition isLikelyHash :: "string \<Rightarrow> bool" where
  "isLikelyHash s =
    (\<not> (length s < 3 \<or> length s > 8) \<and> list_all base36_char s \<and> (length s = 3 \<or> list_ex is_digit s))"

definition ExtractIssuePrefix :: "string \<Rightarrow> string" where
  "ExtractIssuePrefix issueID =
    (case last_index_byte issueID CHR ''-'' of
       None \<Rightarrow> []
     | Some lastIdx \<Rightarrow>
         if lastIdx = 0 then []
         else
           let suffix = drop (lastIdx + 1) issueID in
           if suffix = [] then take lastIdx issueID
           else
             let basePart = (case index_byte suffix CHR ''.'' of
                               Some d \<Rightarrow> if d > 0 then take d suffix else suffix
                             | None \<Rightarrow> suffix)
             in if isNumeric basePart \<or> isLikelyHash basePart then take lastIdx issueID
                else case index_byte issueID CHR ''-'' of
                  None \<Rightarrow> []
                | Some firstIdx \<Rightarrow> if firstIdx = 0 then [] else take firstIdx issueID)"

definition clean_prefixes :: "string list \<Rightarrow> string list" where
  "clean_prefixes ps = filter (\<lambda>p. p \<noteq> []) (map (\<lambda>p. trim_suffix (trim_space p) ''-'') ps)"

definition ExtractIssuePrefixKnown :: "string \<Rightarrow> string list \<Rightarrow> string" where
  "ExtractIssuePrefixKnown issueID knownPrefixes =
    (let cleaned = rev (sort_key length (clean_prefixes knownPrefixes))
     in case find (\<lambda>p. has_prefix issueID (p @ ''-'')) cleaned of
          Some p \<Rightarrow> p
        | None \<Rightarrow> ExtractIssuePrefix issueID)"

fun split_segments :: "string \<Rightarrow> string \<Rightarrow> string list" where
  "split_segments cur [] = (if cur = [] then [] else [cur])"
| "split_segments cur (c # s) =
     (if c = CHR ''.'' \<or> c = CHR ''-''
      then (if cur = [] then [] else [cur]) @ split_segments [] s
      else split_segments (cur @ [c]) s)"

definition splitIDSegments :: "string \<Rightarrow> string list" where
  "splitIDSegments issueId = split_segments [] issueId"

fun compare_segments :: "string list \<Rightarrow> string list \<Rightarrow> int option" where
  "compare_segments (a # sa) (b # sb) =
    (if a = b then compare_segments sa sb
     else case (parse_int a, parse_int b) of
       (Some na, Some nb) \<Rightarrow> if na \<noteq> nb then Some (wrap64 (na - nb)) else compare_segments sa sb
     | _ \<Rightarrow> if a < b then Some (- 1) else Some 1)"
| "compare_segments sa sb = None"

definition NaturalCompareIDs :: "string \<Rightarrow> string \<Rightarrow> int" where
  "NaturalCompareIDs a b =
    (let sa = splitIDSegments a; sb = splitIDSegments b
     in case compare_segments sa sb of Some r \<Rightarrow> r | None \<Rightarrow> int (length sa) - int (length sb))"

section \<open>Labels and type aliases\<close>

definition issueTypeAliases :: "(string \<times> string) list" where
  "issueTypeAliases =
    [(''mr'', ''merge-request''), (''feat'', ''feature''), (''mol'', ''molecule''),
     (''enhancement'', ''feature''), (''dec'', ''decision''), (''adr'', ''decision'')]"

definition NormalizeIssueType :: "string \<Rightarrow> string" where
  "NormalizeIssueType t = (case map_of issueTypeAliases (to_lower t) of Some c \<Rightarrow> c | None \<Rightarrow> t)"

fun normalize_labels :: "string set \<Rightarrow> string list \<Rightarrow> string list" where
  "normalize_labels seen [] = []"
| "normalize_labels seen (s # ss) =
    (let s = trim_space s in
     if s = [] \<or> s \<in> seen then normalize_labels seen ss
     else s # normalize_labels (insert s seen) ss)"

definition NormalizeLabels :: "string list \<Rightarrow> string list" where
  "NormalizeLabels ss = normalize_labels {} ss"

section \<open>Lemmas\<close>

lemma int_to_string_no_dot: "CHR ''.'' \<notin> set (int_to_string v)"
proof -
  have "CHR ''.'' \<notin> set (nat_to_string n)" for n
    using nat_to_string_digits [of n] by (auto simp: list_all_iff is_digit_def)
  then show ?thesis by (simp add: int_to_string_def)
qed

lemma count_dots_append [simp]: "count_dots (a @ b) = count_dots a + count_dots b"
  by (simp add: count_dots_def)

lemma count_dots_0: "count_dots s = 0 \<longleftrightarrow> CHR ''.'' \<notin> set s"
  by (auto simp: count_dots_def filter_empty_conv)

lemma count_dots_child: "count_dots (GenerateChildID p n) = Suc (count_dots p)"
  using int_to_string_no_dot [of n] count_dots_0 [of "int_to_string n"]
  by (simp add: GenerateChildID_def) (simp add: count_dots_def)

lemma index_byte_append_left: "b \<in> set a \<Longrightarrow> index_byte (a @ c) b = index_byte a b"
  by (induction a) auto

lemma index_byte_lt: "index_byte s b = Some k \<Longrightarrow> k < length s"
  by (induction s arbitrary: k) (auto split: if_splits)

lemma first_dot:
  "\<exists>k. index_byte (p @ CHR ''.'' # t) CHR ''.'' = Some k
       \<and> take k (p @ CHR ''.'' # t) = takeWhile (\<lambda>c. c \<noteq> CHR ''.'') p"
  by (induction p) auto

lemma alphabet_length: "length base36Alphabet = 36"
  by (simp add: base36Alphabet_def)

lemma base36_chars_alphabet: "set (base36_chars n) \<subseteq> set base36Alphabet"
proof (induction n rule: base36_chars.induct)
  case (1 n)
  have "n mod 36 < length base36Alphabet" by (simp add: alphabet_length)
  then have "base36Alphabet ! (n mod 36) \<in> set base36Alphabet" by (rule nth_mem)
  with 1 show ?case by (subst base36_chars.simps) auto
qed

text \<open>The value of base-36 digits, most significant first.\<close>

definition digit36 :: "char \<Rightarrow> nat" where
  "digit36 c = (if is_digit c then code c - 48 else code c - 87)"

fun value36 :: "string \<Rightarrow> nat" where
  "value36 [] = 0"
| "value36 (c # s) = digit36 c * 36 ^ length s + value36 s"

lemma digit36_alphabet: "d < 36 \<Longrightarrow> digit36 (base36Alphabet ! d) = d"
proof -
  assume "d < 36"
  then have "d \<in> set [0..<36]" by simp
  moreover have "\<forall>d \<in> set [0..<36]. digit36 (base36Alphabet ! d) = d"
    by (simp add: upt_conv_Cons base36Alphabet_def digit36_def is_digit_def)
  ultimately show ?thesis by blast
qed

lemma value36_append: "value36 (s @ t) = value36 s * 36 ^ length t + value36 t"
  by (induction s) (simp_all add: power_add algebra_simps)

lemma value36_bound: "set s \<subseteq> set base36Alphabet \<Longrightarrow> value36 s < 36 ^ length s"
proof (induction s)
  case (Cons c s)
  then obtain d where d: "d < 36" "c = base36Alphabet ! d"
    by (auto simp: in_set_conv_nth alphabet_length)
  then have "digit36 c \<le> 35" using digit36_alphabet [of d] by simp
  then have "digit36 c * 36 ^ length s \<le> 35 * 36 ^ length s" by simp
  moreover have "value36 s < 36 ^ length s" using Cons by simp
  ultimately have "digit36 c * 36 ^ length s + value36 s < 36 * 36 ^ length s" by linarith
  then show ?case by simp
qed simp

lemma value36_base36_chars: "value36 (rev (base36_chars n)) = n"
proof (induction n rule: base36_chars.induct)
  case (1 n)
  show ?case
  proof (cases "n = 0")
    case False
    then have "value36 (rev (base36_chars n)) = n div 36 * 36 + n mod 36"
      using 1 digit36_alphabet [of "n mod 36"]
      by (subst base36_chars.simps) (simp add: value36_append)
    then show ?thesis by simp
  qed (simp add: base36_chars.simps)
qed

lemma value36_zeros [simp]: "value36 (replicate k CHR ''0'') = 0"
  by (induction k) (simp_all add: digit36_def is_digit_def)

lemma zero_in_alphabet: "CHR ''0'' \<in> set base36Alphabet"
  by (simp add: base36Alphabet_def)

text \<open>Cutting digits to a length keeps the value modulo a power of 36.\<close>

lemma value36_drop:
  assumes "set s \<subseteq> set base36Alphabet" "len \<le> length s"
  shows "value36 (drop (length s - len) s) = value36 s mod 36 ^ len"
proof -
  let ?hi = "take (length s - len) s" and ?lo = "drop (length s - len) s"
  have l: "length ?lo = len" using assms(2) by simp
  have "value36 s = value36 ?hi * 36 ^ len + value36 ?lo"
    using value36_append [of ?hi ?lo] l by simp
  moreover have "value36 ?lo < 36 ^ len"
    using value36_bound [of ?lo] assms(1) l set_drop_subset [of _ s] by fastforce
  ultimately show ?thesis by simp
qed

lemma clean_prefixes_mem: "p \<in> set (clean_prefixes ps) \<Longrightarrow> p \<noteq> []"
  by (auto simp: clean_prefixes_def)

lemma find_sorted_longest:
  assumes "find P (rev (sort_key length xs)) = Some p" "q \<in> set xs" "P q"
  shows "length q \<le> length p"
proof -
  let ?ys = "rev (sort_key length xs)"
  from assms(1) obtain i where i: "i < length ?ys" "P (?ys ! i)" "p = ?ys ! i" "\<forall>j < i. \<not> P (?ys ! j)"
    by (auto simp: find_Some_iff)
  from assms(2) obtain j where j: "j < length ?ys" "?ys ! j = q"
    by (metis in_set_conv_nth set_rev set_sort)
  with i assms(3) have "i \<le> j" by (metis not_le)
  have "sorted (map length (sort_key length xs))" by simp
  then have "sorted_wrt (\<ge>) (map length ?ys)" by (simp add: rev_map sorted_wrt_rev flip: rev_map)
  then have "(map length ?ys) ! i \<ge> (map length ?ys) ! j" if "i < j"
    using that j(1) by (intro sorted_wrt_nth_less) simp_all
  with i j \<open>i \<le> j\<close> show ?thesis by (cases "i = j") auto
qed

lemma normalize_labels_props:
  "set (normalize_labels seen ss) = trim_space ` set ss - seen - {[]} \<and> distinct (normalize_labels seen ss)"
  by (induction seen ss rule: normalize_labels.induct) (auto simp: Let_def)

lemma compare_segments_antisym:
  "case (compare_segments sa sb, compare_segments sb sa) of
     (Some x, Some y) \<Rightarrow> x \<noteq> 0 \<and> y \<noteq> 0 \<and> (x < 0 \<longleftrightarrow> y > 0) | (None, None) \<Rightarrow> True | _ \<Rightarrow> False"
  if "\<And>s. s \<in> set sa \<union> set sb \<Longrightarrow> CHR ''-'' \<notin> set s"
  using that
proof (induction sa sb rule: compare_segments.induct)
  case (1 a sa b sb)
  show ?case
  proof (cases "a = b")
    case True
    with 1 show ?thesis by simp
  next
    case False
    have nonneg: "0 \<le> v" if "parse_int s = Some v" "s = a \<or> s = b" for s v
    proof -
      have "CHR ''-'' \<notin> set s" using "1.prems" [of s] that(2) by auto
      then have "\<not> prefix ''-'' s" by (auto simp: prefix_def)
      with that(1) show ?thesis by (auto simp: parse_int_def Let_def split: if_splits)
    qed
    show ?thesis
    proof (cases "\<exists>na nb. parse_int a = Some na \<and> parse_int b = Some nb")
      case True
      then obtain na nb where n: "parse_int a = Some na" "parse_int b = Some nb" by blast
      then have "0 \<le> na" "0 \<le> nb" "int64_range na" "int64_range nb"
        using nonneg parse_int_range by blast+
      then have w: "wrap64 (na - nb) = na - nb" "wrap64 (nb - na) = nb - na"
        by (auto intro!: wrap64_id simp: int64_range_def min_int64_def max_int64_def)
      show ?thesis
      proof (cases "na = nb")
        case True
        with False n "1.IH"(2) [OF False] "1.prems" show ?thesis by simp
      next
        case ne: False
        with False n w show ?thesis by auto
      qed
    next
      case none: False
      have "a < b \<or> b < a" using False by auto
      then show ?thesis using False none by (auto split: option.splits)
    qed
  qed
qed auto

lemma split_segments_no_sep:
  "\<lbrakk>CHR ''-'' \<notin> set cur; s \<in> set (split_segments cur t)\<rbrakk> \<Longrightarrow> CHR ''-'' \<notin> set s"
  by (induction cur t rule: split_segments.induct) (auto split: if_splits)

section \<open>Properties\<close>

text \<open>
  C25: a child id parses back to its parent, to the root of its parent and to one level more, and the
  depth check allows a child exactly when its own depth does not exceed the limit.
\<close>

theorem child_id_roundtrip:
  "ParseHierarchicalID (GenerateChildID p n) = (takeWhile (\<lambda>c. c \<noteq> CHR ''.'') p, p, Suc (count_dots p))
   \<and> (CheckHierarchyDepth p maxDepth = None) =
     (int (snd (snd (ParseHierarchicalID (GenerateChildID p n)))) \<le> (if maxDepth < 1 then 3 else maxDepth))"
proof -
  have "last_index_byte (GenerateChildID p n) CHR ''.'' = Some (length p)"
    using last_index_byte_append [OF int_to_string_no_dot [of n], of p] by (simp add: GenerateChildID_def)
  moreover have "\<exists>k. index_byte (GenerateChildID p n) CHR ''.'' = Some k
      \<and> take k (GenerateChildID p n) = takeWhile (\<lambda>c. c \<noteq> CHR ''.'') p"
    by (simp only: GenerateChildID_def append_Cons append_Nil first_dot)
  ultimately have "ParseHierarchicalID (GenerateChildID p n) =
      (takeWhile (\<lambda>c. c \<noteq> CHR ''.'') p, p, Suc (count_dots p))"
    by (auto simp: ParseHierarchicalID_def count_dots_child Let_def) (simp add: GenerateChildID_def)
  then show ?thesis
    by (auto simp: CheckHierarchyDepth_def MaxHierarchyDepth_def Let_def)
qed

text \<open>
  C26: the base-36 encoding has exactly the requested length, uses only the alphabet, and denotes the
  number of the bytes modulo a power of 36: truncation drops leading digits and padding adds zeros.
\<close>

theorem EncodeBase36_exact:
  "length (EncodeBase36 bs len) = len \<and> set (EncodeBase36 bs len) \<subseteq> set base36Alphabet
   \<and> value36 (EncodeBase36 bs len) = bytes_value bs mod 36 ^ len"
proof -
  define str where "str = rev (base36_chars (bytes_value bs))"
  have a: "set str \<subseteq> set base36Alphabet" using base36_chars_alphabet by (simp add: str_def)
  have v: "value36 str = bytes_value bs" by (simp add: str_def value36_base36_chars)
  show ?thesis
  proof (cases "length str \<le> len")
    case True
    have "bytes_value bs < 36 ^ length str" using value36_bound [OF a] v by simp
    also have "\<dots> \<le> 36 ^ len" using True by (simp add: power_increasing)
    finally have "bytes_value bs mod 36 ^ len = bytes_value bs" by simp
    moreover have "EncodeBase36 bs len = replicate (len - length str) CHR ''0'' @ str"
      using True by (simp add: EncodeBase36_def str_def [symmetric] Let_def)
    ultimately show ?thesis using True a v zero_in_alphabet
      by (auto simp: value36_append)
  next
    case False
    then have "EncodeBase36 bs len = drop (length str - len) str"
      by (simp add: EncodeBase36_def str_def [symmetric] Let_def)
    then show ?thesis using False a v value36_drop [OF a, of len] set_drop_subset [of "length str - len" str]
      by auto
  qed
qed

text \<open>
  C27: with known prefixes, the prefix of an id is the longest cleaned known prefix that the id starts
  with, whatever order the configuration lists them in; without a match the heuristic decides.
\<close>

theorem ExtractIssuePrefixKnown_longest:
  "if \<exists>q \<in> set (clean_prefixes known). has_prefix i (q @ ''-'')
   then (let p = ExtractIssuePrefixKnown i known in
         p \<in> set (clean_prefixes known) \<and> has_prefix i (p @ ''-'')
         \<and> {q \<in> set (clean_prefixes known). has_prefix i (q @ ''-'') \<and> length p < length q} = {})
   else ExtractIssuePrefixKnown i known = ExtractIssuePrefix i"
proof (cases "find (\<lambda>p. has_prefix i (p @ ''-'')) (rev (sort_key length (clean_prefixes known)))")
  case None
  then have "ExtractIssuePrefixKnown i known = ExtractIssuePrefix i" by (simp add: ExtractIssuePrefixKnown_def)
  with None show ?thesis by (simp add: find_None_iff)
next
  case (Some p)
  then have "p \<in> set (clean_prefixes known)" "has_prefix i (p @ ''-'')"
    by (auto simp: find_Some_iff) (metis nth_mem length_sort set_rev set_sort length_rev)
  moreover have "ExtractIssuePrefixKnown i known = p" using Some by (simp add: ExtractIssuePrefixKnown_def)
  moreover have "length q \<le> length p" if "q \<in> set (clean_prefixes known)" "has_prefix i (q @ ''-'')" for q
    using find_sorted_longest [OF Some that] .
  ultimately show ?thesis by (auto simp: Let_def not_less [symmetric])
qed

text \<open>
  C28: the natural order of ids is antisymmetric, but not transitive: on single segments it puts 2
  before 10 (as numbers), 10 before 1a and 1a before 2 (as texts).
\<close>

theorem NaturalCompareIDs_antisym_not_transitive:
  "(NaturalCompareIDs a b < 0) = (NaturalCompareIDs b a > 0)
   \<and> NaturalCompareIDs ''2'' ''10'' < 0 \<and> NaturalCompareIDs ''10'' ''1a'' < 0 \<and> NaturalCompareIDs ''1a'' ''2'' < 0"
proof -
  have "case (compare_segments (splitIDSegments a) (splitIDSegments b), compare_segments (splitIDSegments b) (splitIDSegments a)) of
     (Some x, Some y) \<Rightarrow> x \<noteq> 0 \<and> y \<noteq> 0 \<and> (x < 0 \<longleftrightarrow> y > 0) | (None, None) \<Rightarrow> True | _ \<Rightarrow> False"
    by (rule compare_segments_antisym)
      (use split_segments_no_sep [of "[]"] in \<open>auto simp: splitIDSegments_def\<close>)
  then have "(NaturalCompareIDs a b < 0) = (NaturalCompareIDs b a > 0)"
    by (auto simp: NaturalCompareIDs_def Let_def split: option.splits)
  moreover have "NaturalCompareIDs ''2'' ''10'' < 0" "NaturalCompareIDs ''10'' ''1a'' < 0" "NaturalCompareIDs ''1a'' ''2'' < 0"
    by (simp_all add: NaturalCompareIDs_def splitIDSegments_def parse_int_def is_digit_def int64_range_def
        min_int64_def max_int64_def wrap64_def less_char_def)
  ultimately show ?thesis by simp
qed

text \<open>
  Normalized labels are the distinct non-empty trimmed labels.
\<close>

theorem NormalizeLabels_set:
  "set (NormalizeLabels ss) = trim_space ` set ss - {[]} \<and> distinct (NormalizeLabels ss)"
  using normalize_labels_props [of "{}" ss] by (simp add: NormalizeLabels_def)

end
