(* ===== verification/QueryLexer.thy ===== *)
theory QueryLexer
  imports BeadsPrelude
begin

text \<open>
  The lexer of the query language, \<open>internal/query/lexer.go\<close>. The lexer reads bytes: a byte is taken
  as the rune of the same number, so every rune lies below U+0100, and a value is written back as
  the UTF-8 of those runes. Rune 0 is both the end of the input (width 0) and a NUL byte (width 1),
  as in the code.

  The state is the record of the code. A function that may fail returns a \<open>lex_error\<close> or its result
  with the new state.
\<close>

named_theorems lex_defs

datatype TokenType =
    TokenEOF | TokenIdent | TokenString | TokenNumber | TokenDuration
  | TokenEquals | TokenNotEquals | TokenLess | TokenLessEq | TokenGreater | TokenGreaterEq
  | TokenAnd | TokenOr | TokenNot | TokenLParen | TokenRParen | TokenComma

definition token_type_string :: "TokenType \<Rightarrow> string" where
  "token_type_string t =
    (case t of TokenEOF \<Rightarrow> ''EOF'' | TokenIdent \<Rightarrow> ''IDENT'' | TokenString \<Rightarrow> ''STRING''
     | TokenNumber \<Rightarrow> ''NUMBER'' | TokenDuration \<Rightarrow> ''DURATION'' | TokenEquals \<Rightarrow> ''=''
     | TokenNotEquals \<Rightarrow> ''!='' | TokenLess \<Rightarrow> ''<'' | TokenLessEq \<Rightarrow> ''<='' | TokenGreater \<Rightarrow> ''>''
     | TokenGreaterEq \<Rightarrow> ''>='' | TokenAnd \<Rightarrow> ''AND'' | TokenOr \<Rightarrow> ''OR'' | TokenNot \<Rightarrow> ''NOT''
     | TokenLParen \<Rightarrow> ''('' | TokenRParen \<Rightarrow> '')'' | TokenComma \<Rightarrow> '','')"

record Token =
  tok_type :: TokenType
  tok_value :: string
  tok_pos :: nat

record Lexer =
  input :: string
  pos :: nat
  width :: nat

datatype lex_error =
    UnexpectedBang nat
  | UnexpectedChar nat nat
  | UnterminatedString nat
  | UnterminatedEscape nat
  | ExpectedDigit nat

definition NewLexer :: "string \<Rightarrow> Lexer" where
  "NewLexer s = \<lparr>input = s, pos = 0, width = 0\<rparr>"

definition next_rune :: "Lexer \<Rightarrow> nat \<times> Lexer" where
  [lex_defs]: "next_rune l =
    (if pos l \<ge> length (input l) then (0, l\<lparr>width := 0\<rparr>)
     else (code (input l ! pos l), l\<lparr>width := 1, pos := pos l + 1\<rparr>))"

definition peek_rune :: "Lexer \<Rightarrow> nat" where
  [lex_defs]: "peek_rune l = (if pos l \<ge> length (input l) then 0 else code (input l ! pos l))"

definition backup :: "Lexer \<Rightarrow> Lexer" where
  [lex_defs]: "backup l = l\<lparr>pos := pos l - width l\<rparr>"

text \<open>The tables of package \<open>unicode\<close> below U+0100.\<close>

definition unicode_IsSpace :: "nat \<Rightarrow> bool" where
  "unicode_IsSpace r = (r \<in> {9, 10, 11, 12, 13, 32, 133, 160})"

definition unicode_IsDigit :: "nat \<Rightarrow> bool" where
  "unicode_IsDigit r = (48 \<le> r \<and> r \<le> 57)"

definition unicode_IsLetter :: "nat \<Rightarrow> bool" where
  "unicode_IsLetter r =
    ((65 \<le> r \<and> r \<le> 90) \<or> (97 \<le> r \<and> r \<le> 122) \<or> r \<in> {170, 181, 186}
     \<or> (192 \<le> r \<and> r \<le> 214) \<or> (216 \<le> r \<and> r \<le> 246) \<or> (248 \<le> r \<and> r \<le> 255))"

definition isIdentStart :: "nat \<Rightarrow> bool" where
  "isIdentStart r = (unicode_IsLetter r \<or> r = 95)"

definition isIdentChar :: "nat \<Rightarrow> bool" where
  "isIdentChar r = (unicode_IsLetter r \<or> unicode_IsDigit r \<or> r \<in> {95, 45, 46, 58, 47})"

definition isDurationSuffix :: "nat \<Rightarrow> bool" where
  "isDurationSuffix r = (r \<in> {104, 100, 119, 109, 121, 72, 68, 87, 77, 89})"

lemma next_rune_pos: "next_rune l = (r, l') \<Longrightarrow> r \<noteq> 0 \<Longrightarrow>
    pos l < length (input l) \<and> l' = l\<lparr>width := 1, pos := pos l + 1\<rparr> \<and> r = code (input l ! pos l)"
  by (auto simp: next_rune_def split: if_splits)

function skipWhitespace :: "Lexer \<Rightarrow> Lexer" where
  "skipWhitespace l =
    (case next_rune l of (r, l') \<Rightarrow>
       if r = 0 \<or> \<not> unicode_IsSpace r then backup l' else skipWhitespace l')"
  by pat_completeness auto
termination
  by (relation "measure (\<lambda>l. length (input l) - pos l)") (auto dest!: next_rune_pos [OF sym])

declare skipWhitespace.simps [simp del]

function read_string :: "nat \<Rightarrow> nat \<Rightarrow> string \<Rightarrow> Lexer \<Rightarrow> lex_error + Token \<times> Lexer" where
  "read_string quote startPos sb l =
    (case next_rune l of (r, l') \<Rightarrow>
       if r = 0 then Inl (UnterminatedString startPos)
       else if r = quote then Inr (\<lparr>tok_type = TokenString, tok_value = sb, tok_pos = startPos\<rparr>, l')
       else if r = 92 then
         (case next_rune l' of (escaped, l'') \<Rightarrow>
            if escaped = 0 then Inl (UnterminatedEscape (pos l'' - 1))
            else if escaped = 110 then read_string quote startPos (sb @ [CHR 0x0A]) l''
            else if escaped = 116 then read_string quote startPos (sb @ [CHR 0x09]) l''
            else read_string quote startPos (sb @ encode_rune escaped) l'')
       else read_string quote startPos (sb @ encode_rune r) l')"
  by pat_completeness auto
termination
  by (relation "measure (\<lambda>(_, _, _, l). length (input l) - pos l)")
    (auto dest!: next_rune_pos [OF sym])

declare read_string.simps [simp del]

abbreviation readString :: "nat \<Rightarrow> nat \<Rightarrow> Lexer \<Rightarrow> lex_error + Token \<times> Lexer" where
  "readString quote startPos l \<equiv> read_string quote startPos [] l"

function read_ident :: "string \<Rightarrow> Lexer \<Rightarrow> string \<times> Lexer" where
  "read_ident sb l =
    (case next_rune l of (r, l') \<Rightarrow>
       if r = 0 \<or> \<not> isIdentChar r then (sb, backup l') else read_ident (sb @ encode_rune r) l')"
  by pat_completeness auto
termination
  by (relation "measure (\<lambda>(_, l). length (input l) - pos l)") (auto dest!: next_rune_pos [OF sym])

declare read_ident.simps [simp del]

definition keyword_type :: "string \<Rightarrow> TokenType" where
  "keyword_type v =
    (let upper = to_upper v in
     if upper = ''AND'' then TokenAnd else if upper = ''OR'' then TokenOr
     else if upper = ''NOT'' then TokenNot else TokenIdent)"

definition readIdent :: "nat \<Rightarrow> Lexer \<Rightarrow> lex_error + Token \<times> Lexer" where
  "readIdent startPos l =
    (case read_ident [] l of (v, l') \<Rightarrow>
       Inr (\<lparr>tok_type = keyword_type v, tok_value = v, tok_pos = startPos\<rparr>, l'))"

text \<open>The digits after the first, and the rune that ends them, already read.\<close>

function read_digits :: "string \<Rightarrow> Lexer \<Rightarrow> string \<times> nat \<times> Lexer" where
  "read_digits sb l =
    (case next_rune l of (r, l') \<Rightarrow>
       if \<not> unicode_IsDigit r then (sb, r, l') else read_digits (sb @ encode_rune r) l')"
  by pat_completeness auto
termination
  by (relation "measure (\<lambda>(_, l). length (input l) - pos l)")
    (auto dest!: next_rune_pos [OF sym] simp: unicode_IsDigit_def)

declare read_digits.simps [simp del]

definition durationWords :: "string list" where
  "durationWords = [''min'']"

definition acceptDurationWord :: "Lexer \<Rightarrow> (string \<times> Lexer) option" where
  "acceptDurationWord l =
    (if width l = 0 then None
     else
       let start = pos l - width l in
       case find (\<lambda>w. has_prefix (drop start (input l)) w
                   \<and> \<not> (start + length w < length (input l) \<and> isIdentChar (code (input l ! (start + length w)))))
              durationWords of
         None \<Rightarrow> None
       | Some w \<Rightarrow> Some (w, l\<lparr>pos := start + length w, width := 1\<rparr>))"

definition number_tail :: "nat \<Rightarrow> bool \<Rightarrow> string \<Rightarrow> nat \<Rightarrow> Lexer \<Rightarrow> lex_error + Token \<times> Lexer" where
  "number_tail startPos hadSign sb r l =
    (if r \<noteq> 0 \<and> isDurationSuffix r \<and> \<not> isIdentChar (peek_rune l)
     then Inr (\<lparr>tok_type = TokenDuration, tok_value = sb @ encode_rune r, tok_pos = startPos\<rparr>, l)
     else case (if r \<noteq> 0 then acceptDurationWord l else None) of
       Some (w, l') \<Rightarrow> Inr (\<lparr>tok_type = TokenDuration, tok_value = sb @ w, tok_pos = startPos\<rparr>, l')
     | None \<Rightarrow>
         if \<not> hadSign \<and> r \<noteq> 0 \<and> isIdentChar r then readIdent startPos (l\<lparr>pos := startPos\<rparr>)
         else Inr (\<lparr>tok_type = TokenNumber, tok_value = sb, tok_pos = startPos\<rparr>,
                   if r \<noteq> 0 then backup l else l))"

definition readNumberOrDuration :: "nat \<Rightarrow> Lexer \<Rightarrow> lex_error + Token \<times> Lexer" where
  "readNumberOrDuration startPos l =
    (case next_rune l of (r0, l0) \<Rightarrow>
       let hadSign = (r0 = 45 \<or> r0 = 43) in
       case (if hadSign then next_rune l0 else (r0, l0)) of (r, l1) \<Rightarrow>
         let sb = (if hadSign then encode_rune r0 else []) in
         if \<not> unicode_IsDigit r then Inl (ExpectedDigit (pos (backup l1)))
         else case read_digits (sb @ encode_rune r) l1 of (sb', r', l2) \<Rightarrow>
           number_tail startPos hadSign sb' r' l2)"

definition simple_token :: "TokenType \<Rightarrow> string \<Rightarrow> nat \<Rightarrow> Lexer \<Rightarrow> lex_error + Token \<times> Lexer" where
  [lex_defs]: "simple_token t v p l = Inr (\<lparr>tok_type = t, tok_value = v, tok_pos = p\<rparr>, l)"

definition NextToken :: "Lexer \<Rightarrow> lex_error + Token \<times> Lexer" where
  "NextToken l0 =
    (let l = skipWhitespace l0; startPos = pos l in
     case next_rune l of (r, l') \<Rightarrow>
       if r = 0 then simple_token TokenEOF [] startPos l'
       else if r = 40 then simple_token TokenLParen ''('' startPos l'
       else if r = 41 then simple_token TokenRParen '')'' startPos l'
       else if r = 44 then simple_token TokenComma '','' startPos l'
       else if r = 61 then simple_token TokenEquals ''='' startPos l'
       else if r = 33 then
         (if peek_rune l' = 61 then simple_token TokenNotEquals ''!='' startPos (snd (next_rune l'))
          else Inl (UnexpectedBang startPos))
       else if r = 60 then
         (if peek_rune l' = 61 then simple_token TokenLessEq ''<='' startPos (snd (next_rune l'))
          else simple_token TokenLess ''<'' startPos l')
       else if r = 62 then
         (if peek_rune l' = 61 then simple_token TokenGreaterEq ''>='' startPos (snd (next_rune l'))
          else simple_token TokenGreater ''>'' startPos l')
       else if r = 34 \<or> r = 39 then readString r startPos l'
       else if unicode_IsDigit r \<or> r = 45 \<or> r = 43 then readNumberOrDuration startPos (backup l')
       else if isIdentStart r then readIdent startPos (backup l')
       else Inl (UnexpectedChar r startPos))"

section \<open>The lexer makes progress\<close>

text \<open>The bytes still to be read, and what every reader keeps: the input, and a position inside it.\<close>

definition rest :: "Lexer \<Rightarrow> string" where
  "rest l = drop (pos l) (input l)"

definition reads :: "Lexer \<Rightarrow> Lexer \<Rightarrow> bool" where
  "reads l l' = (input l' = input l \<and> pos l \<le> pos l' \<and> pos l' \<le> length (input l))"

lemma reads_trans: "reads l l' \<Longrightarrow> reads l' l'' \<Longrightarrow> reads l l''"
  by (simp add: reads_def)

lemma next_rune_reads: "next_rune l = (r, l') \<Longrightarrow> pos l \<le> length (input l) \<Longrightarrow> reads l l'"
  by (auto simp: next_rune_def reads_def split: if_splits)

lemma next_rune_backup: "next_rune l = (r, l') \<Longrightarrow> pos (backup l') = pos l \<and> input (backup l') = input l"
  by (auto simp: next_rune_def backup_def split: if_splits)

lemma skipWhitespace_reads: "pos l \<le> length (input l) \<Longrightarrow> reads l (skipWhitespace l)"
proof (induction l rule: skipWhitespace.induct)
  case (1 l)
  obtain r l' where n: "next_rune l = (r, l')" by fastforce
  show ?case
  proof (cases "r = 0 \<or> \<not> unicode_IsSpace r")
    case True
    with n next_rune_backup [OF n] "1.prems" show ?thesis
      by (subst skipWhitespace.simps) (auto simp: reads_def)
  next
    case False
    have r: "reads l l'" using next_rune_reads [OF n "1.prems"] .
    with False n "1.IH" [OF n [symmetric]] have "reads l' (skipWhitespace l')" by (simp add: reads_def)
    with False n r show ?thesis by (subst skipWhitespace.simps) (auto intro: reads_trans)
  qed
qed

lemma read_string_reads:
  "read_string q sp sb l = Inr (t, l') \<Longrightarrow> reads l l' \<and> tok_type t = TokenString"
proof (induction q sp sb l rule: read_string.induct)
  case (1 q sp sb l)
  obtain r l1 where n: "next_rune l = (r, l1)" by fastforce
  from "1.prems" n have r: "r \<noteq> 0" by (auto simp: read_string.simps [of _ _ _ l] split: if_splits)
  with n have l1: "reads l l1" by (auto dest!: next_rune_pos simp: reads_def)
  consider "r = q" | "r \<noteq> q" "r = 92" | "r \<noteq> q" "r \<noteq> 92" by blast
  then show ?case
  proof cases
    case 1
    with "1.prems" n r l1 show ?thesis by (auto simp: read_string.simps [of _ _ _ l])
  next
    case 2
    obtain e l2 where e: "next_rune l1 = (e, l2)" by fastforce
    with "1.prems" n r 2 have e0: "e \<noteq> 0" by (auto simp: read_string.simps [of _ _ _ l] split: if_splits)
    with e have l2: "reads l1 l2" by (auto dest!: next_rune_pos simp: reads_def)
    from "1.prems" n r 2 e e0 obtain sb' where
      "read_string q sp sb' l2 = Inr (t, l')" "sb' = sb @ (if e = 110 then [CHR 0x0A] else if e = 116 then [CHR 0x09] else encode_rune e)"
      by (auto simp: read_string.simps [of _ _ _ l] split: if_splits)
    then have "reads l2 l' \<and> tok_type t = TokenString"
      using "1.IH"(1,2,3) [OF n [symmetric] r 2 e [symmetric] e0] by (auto split: if_splits)
    with l1 l2 show ?thesis by (auto intro: reads_trans)
  next
    case 3
    from "1.prems" n r 3 have "read_string q sp (sb @ encode_rune r) l1 = Inr (t, l')"
      by (auto simp: read_string.simps [of _ _ _ l])
    with "1.IH"(4) [OF n [symmetric] r 3] l1 show ?thesis by (auto intro: reads_trans)
  qed
qed

lemma read_ident_reads:
  "read_ident sb l = (v, l') \<Longrightarrow> pos l \<le> length (input l) \<Longrightarrow>
   reads l l' \<and> (isIdentChar (peek_rune l) \<and> peek_rune l \<noteq> 0 \<longrightarrow> pos l < pos l')"
proof (induction sb l rule: read_ident.induct)
  case (1 sb l)
  obtain r l1 where n: "next_rune l = (r, l1)" by fastforce
  then have pk: "peek_rune l = r" by (auto simp: next_rune_def peek_rune_def split: if_splits)
  show ?case
  proof (cases "r = 0 \<or> \<not> isIdentChar r")
    case True
    with n "1.prems" next_rune_backup [OF n] pk show ?thesis
      by (auto simp: read_ident.simps [of _ l] reads_def)
  next
    case False
    have l1: "reads l l1" "pos l < pos l1" using False n "1.prems"(2)
      by (auto dest!: next_rune_pos simp: reads_def)
    from False n "1.prems"(1) have "read_ident (sb @ encode_rune r) l1 = (v, l')"
      by (auto simp: read_ident.simps [of _ l])
    with "1.IH" [OF n [symmetric] False] l1 have "reads l1 l'" by (auto simp: reads_def)
    with l1 show ?thesis by (auto simp: reads_def)
  qed
qed

lemma read_digits_reads:
  "read_digits sb l = (sb', r, l') \<Longrightarrow> pos l \<le> length (input l) \<Longrightarrow>
   reads l l' \<and> (r \<noteq> 0 \<longrightarrow> width l' = 1 \<and> pos l < pos l')"
proof (induction sb l rule: read_digits.induct)
  case (1 sb l)
  obtain r1 l1 where n: "next_rune l = (r1, l1)" by fastforce
  show ?case
  proof (cases "unicode_IsDigit r1")
    case False
    then have d: "sb' = sb" "r = r1" "l' = l1" using n "1.prems"(1) by (auto simp: read_digits.simps [of _ l])
    have "r1 \<noteq> 0 \<longrightarrow> width l1 = 1 \<and> pos l < pos l1" using n by (auto dest: next_rune_pos)
    with d show ?thesis using next_rune_reads [OF n "1.prems"(2)] by simp
  next
    case True
    then have "r1 \<noteq> 0" by (auto simp: unicode_IsDigit_def)
    with n have l1: "reads l l1" "pos l < pos l1" by (auto dest!: next_rune_pos simp: reads_def)
    from True n "1.prems"(1) have "read_digits (sb @ encode_rune r1) l1 = (sb', r, l')"
      by (auto simp: read_digits.simps [of _ l])
    with "1.IH" [OF n [symmetric]] True l1 have "reads l1 l' \<and> (r \<noteq> 0 \<longrightarrow> width l' = 1 \<and> pos l1 < pos l')"
      by (auto simp: reads_def)
    with l1 show ?thesis by (auto simp: reads_def)
  qed
qed

lemma acceptDurationWord_reads:
  assumes "acceptDurationWord l = Some (w, l')" "width l = 1" "0 < pos l" "pos l \<le> length (input l)"
  shows "reads l l'"
proof -
  let ?s = "pos l - width l"
  have p: "has_prefix (drop ?s (input l)) ''min''" "l' = l\<lparr>pos := ?s + 3, width := 1\<rparr>"
    using assms(1) by (auto simp: acceptDurationWord_def durationWords_def Let_def split: if_splits option.splits)
  from p(1) have "length ''min'' \<le> length (drop ?s (input l))" by (rule prefix_length_le)
  then show ?thesis using p(2) assms(2-4) by (simp add: reads_def)
qed

lemma keyword_type_not_EOF: "keyword_type v \<noteq> TokenEOF"
  by (simp add: keyword_type_def Let_def)

lemma readIdent_reads:
  assumes "readIdent sp l = Inr (t, l')" "pos l < length (input l)" "isIdentChar (code (input l ! pos l))"
    "input l ! pos l \<noteq> NUL"
  shows "reads l l' \<and> pos l < pos l' \<and> tok_type t \<noteq> TokenEOF"
proof -
  obtain v where v: "read_ident [] l = (v, l')" "tok_type t = keyword_type v"
    using assms(1) by (auto simp: readIdent_def split: prod.splits)
  have "code (input l ! pos l) \<noteq> 0" using assms(4) code_inject [of _ NUL] by auto
  then show ?thesis
    using read_ident_reads [OF v(1)] assms(2,3) v(2) by (auto simp: peek_rune_def keyword_type_not_EOF)
qed

lemma number_tail_reads:
  assumes "number_tail sp hs sb r l = Inr (t, l')" "reads l0 l" "r \<noteq> 0 \<longrightarrow> width l = 1 \<and> pos l0 < pos l"
    "sp < pos l0" "is_digit (input l0 ! sp) \<or> hs"
  shows "input l' = input l0 \<and> pos l' \<le> length (input l0) \<and> sp < pos l' \<and> tok_type t \<noteq> TokenEOF"
proof -
  have l: "input l = input l0" "pos l \<le> length (input l0)" "pos l0 \<le> pos l" using assms(2) by (auto simp: reads_def)
  consider (dur) "t = \<lparr>tok_type = TokenDuration, tok_value = sb @ encode_rune r, tok_pos = sp\<rparr>" "l' = l"
    | (word) w where "r \<noteq> 0" "acceptDurationWord l = Some (w, l')" "tok_type t = TokenDuration"
    | (id) "\<not> hs" "readIdent sp (l\<lparr>pos := sp\<rparr>) = Inr (t, l')"
    | (num) "tok_type t = TokenNumber" "l' = (if r \<noteq> 0 then backup l else l)"
    using assms(1) unfolding number_tail_def by (auto split: if_splits option.splits)
  then show ?thesis
  proof cases
    case dur
    with l assms(4) show ?thesis by auto
  next
    case word
    with assms(3) l acceptDurationWord_reads [OF word(2)] have "reads l l'" by auto
    with word l assms(4) show ?thesis by (auto simp: reads_def)
  next
    case id
    with assms(5) have d: "is_digit (input l0 ! sp)" by simp
    then have "isIdentChar (code (input l0 ! sp))" "input l0 ! sp \<noteq> NUL"
      by (auto simp: isIdentChar_def unicode_IsDigit_def is_digit_def)
    with readIdent_reads [OF id(2)] l assms(4) show ?thesis by (auto simp: reads_def)
  next
    case num
    with assms(3,4) l show ?thesis by (auto simp: backup_def)
  qed
qed

lemma readNumberOrDuration_reads:
  assumes "readNumberOrDuration (pos l) l = Inr (t, l')" "pos l < length (input l)"
  shows "input l' = input l \<and> pos l' \<le> length (input l) \<and> pos l < pos l' \<and> tok_type t \<noteq> TokenEOF"
proof -
  obtain r0 l0 where n: "next_rune l = (r0, l0)" by fastforce
  then have l0: "r0 = code (input l ! pos l)" "pos l0 = Suc (pos l)" "input l0 = input l" "reads l l0"
    using assms(2) by (auto simp: next_rune_def reads_def)
  define hs where "hs = (r0 = 45 \<or> r0 = 43)"
  obtain r l1 where n1: "(if hs then next_rune l0 else (r0, l0)) = (r, l1)" by fastforce
  obtain sb' r' l2 where d: "read_digits ((if hs then encode_rune r0 else []) @ encode_rune r) l1 = (sb', r', l2)"
    using prod_cases3 by blast
  have dg: "unicode_IsDigit r" and tail: "number_tail (pos l) hs sb' r' l2 = Inr (t, l')"
    using assms(1)
    unfolding readNumberOrDuration_def n prod.case Let_def hs_def [symmetric] n1 d
    by (auto split: if_splits)
  have l1: "reads l0 l1"
    using n1 next_rune_reads [of l0 r l1] l0 assms(2) by (auto simp: reads_def split: if_splits)
  then have "input l1 = input l" "pos l < pos l1" "pos l1 \<le> length (input l1)" using l0 by (auto simp: reads_def)
  moreover from this have "reads l1 l2 \<and> (r' \<noteq> 0 \<longrightarrow> width l2 = 1 \<and> pos l1 < pos l2)"
    using read_digits_reads [OF d] by simp
  moreover have "is_digit (input l1 ! pos l) \<or> hs"
    using n1 dg l0 \<open>input l1 = input l\<close> by (auto simp: unicode_IsDigit_def is_digit_def split: if_splits)
  ultimately show ?thesis using number_tail_reads [OF tail, of l1] by simp
qed

lemma next_rune_snd_reads: "pos l \<le> length (input l) \<Longrightarrow> reads l (snd (next_rune l))"
  using next_rune_reads [of l "fst (next_rune l)" "snd (next_rune l)"] by simp

text \<open>A token other than the end of the query takes at least one byte.\<close>

lemma NextToken_progress:
  assumes "NextToken l = Inr (t, l')" "pos l \<le> length (input l)"
  shows "input l' = input l \<and> pos l' \<le> length (input l) \<and> pos l \<le> pos l'
    \<and> (tok_type t \<noteq> TokenEOF \<longrightarrow> pos l < pos l')"
proof -
  define l1 where "l1 = skipWhitespace l"
  have l1: "reads l l1" using skipWhitespace_reads [OF assms(2)] by (simp add: l1_def)
  obtain r l2 where n: "next_rune l1 = (r, l2)" by fastforce
  have r2: "reads l1 l2" using next_rune_reads [OF n] l1 by (auto simp: reads_def)
  show ?thesis
  proof (cases "r = 0")
    case True
    with assms(1) n l1 r2 show ?thesis
      by (auto simp: NextToken_def Let_def l1_def [symmetric] simple_token_def reads_def)
  next
    case False
    then have p: "pos l1 < length (input l1)" "l2 = l1\<lparr>width := 1, pos := pos l1 + 1\<rparr>" "r = code (input l1 ! pos l1)"
      using next_rune_pos [OF n] by auto
    have nx: "reads l2 (snd (next_rune l2))" using r2 by (intro next_rune_snd_reads) (auto simp: reads_def)
    have bk: "input (backup l2) = input l1" "pos (backup l2) = pos l1" using next_rune_backup [OF n] by auto
    consider (simple) v where "l' = l2 \<or> l' = snd (next_rune l2)" "t = v"
      | (str) "readString r (pos l1) l2 = Inr (t, l')"
      | (num) "readNumberOrDuration (pos l1) (backup l2) = Inr (t, l')"
      | (ident) "isIdentStart r" "readIdent (pos l1) (backup l2) = Inr (t, l')"
      using assms(1) n False
      unfolding NextToken_def Let_def l1_def [symmetric] simple_token_def
      by (auto split: if_splits)
    then have "input l' = input l1 \<and> pos l' \<le> length (input l1) \<and> pos l1 < pos l'"
    proof cases
      case simple
      with p nx r2 show ?thesis by (auto simp: reads_def)
    next
      case str
      with read_string_reads [OF str] p r2 show ?thesis by (auto simp: reads_def)
    next
      case num
      with readNumberOrDuration_reads [of "backup l2" t l'] bk p show ?thesis by auto
    next
      case ident
      have "input l1 ! pos l1 \<noteq> NUL" "isIdentChar (code (input l1 ! pos l1))"
        using False p(3) ident(1) by (auto simp: isIdentStart_def isIdentChar_def)
      with readIdent_reads [OF ident(2)] bk p show ?thesis by (auto simp: reads_def)
    qed
    with l1 show ?thesis by (auto simp: reads_def)
  qed
qed

lemma NextToken_less:
  "NextToken l = Inr (t, l') \<Longrightarrow> pos l \<le> length (input l) \<Longrightarrow> tok_type t \<noteq> TokenEOF \<Longrightarrow>
   length (input l') - pos l' < length (input l) - pos l"
  using NextToken_progress [of l t l'] by auto

section \<open>All tokens\<close>

function tokenize :: "Token list \<Rightarrow> Lexer \<Rightarrow> lex_error + Token list" where
  "tokenize tokens l =
    (if pos l > length (input l) then Inr tokens
     else case NextToken l of
       Inl e \<Rightarrow> Inl e
     | Inr (tok, l') \<Rightarrow>
         if tok_type tok = TokenEOF then Inr (tokens @ [tok]) else tokenize (tokens @ [tok]) l')"
  by pat_completeness auto
termination
  by (relation "measure (\<lambda>(_, l). length (input l) - pos l)") (auto intro: NextToken_less simp: not_less)

declare tokenize.simps [simp del]

text \<open>
  \<open>Lexer.Tokenize\<close>. The first test of \<^const>\<open>tokenize\<close> is only there for states no lexer is in: a
  position past the end of the input.
\<close>

definition Tokenize :: "Lexer \<Rightarrow> lex_error + Token list" where
  "Tokenize l = tokenize [] l"

lemma read_string_pos: "read_string q sp sb l = Inr (t, l') \<Longrightarrow> tok_pos t = sp"
proof (induction q sp sb l rule: read_string.induct)
  case (1 q sp sb l)
  then show ?case
    by (subst (asm) (4) read_string.simps) (auto split: if_splits prod.splits)
qed

lemma readIdent_pos: "readIdent sp l = Inr (t, l') \<Longrightarrow> tok_pos t = sp"
  by (auto simp: readIdent_def split: prod.splits)

lemma number_tail_pos: "number_tail sp hs sb r l = Inr (t, l') \<Longrightarrow> tok_pos t = sp"
  by (auto simp: number_tail_def readIdent_pos split: if_splits option.splits)

lemma readNumberOrDuration_pos: "readNumberOrDuration sp l = Inr (t, l') \<Longrightarrow> tok_pos t = sp"
  by (auto simp: readNumberOrDuration_def Let_def number_tail_pos split: if_split_asm prod.splits)

lemma NextToken_pos: "NextToken l = Inr (t, l') \<Longrightarrow> tok_pos t = pos (skipWhitespace l)"
  unfolding NextToken_def Let_def simple_token_def
  by (auto simp: read_string_pos readIdent_pos readNumberOrDuration_pos split: if_split_asm prod.splits)

lemma skipWhitespace_idem:
  "skipWhitespace (skipWhitespace l) = skipWhitespace l"
proof (induction l rule: skipWhitespace.induct)
  case (1 l)
  obtain r l' where n: "next_rune l = (r, l')" by fastforce
  show ?case
  proof (cases "r = 0 \<or> \<not> unicode_IsSpace r")
    case True
    have "next_rune (backup l') = (r, l')"
      using n by (auto simp: next_rune_def backup_def split: if_splits)
    with True n show ?thesis by (simp add: skipWhitespace.simps [of l] skipWhitespace.simps [of "backup l'"])
  next
    case False
    with n "1.IH" [OF n [symmetric]] show ?thesis by (simp add: skipWhitespace.simps [of l])
  qed
qed

lemma skip_NextToken: "NextToken l = Inr (t, l') \<Longrightarrow> NextToken (skipWhitespace l) = Inr (t, l')"
  by (simp add: NextToken_def skipWhitespace_idem)

lemma NextToken_pos_between:
  assumes "NextToken l = Inr (t, l')" "pos l \<le> length (input l)"
  shows "pos l \<le> tok_pos t" "tok_pos t \<le> length (input l)" "tok_type t \<noteq> TokenEOF \<Longrightarrow> tok_pos t < pos l'"
proof -
  let ?l1 = "skipWhitespace l"
  have s: "reads l ?l1" using skipWhitespace_reads [OF assms(2)] .
  then show "pos l \<le> tok_pos t" "tok_pos t \<le> length (input l)"
    using NextToken_pos [OF assms(1)] by (auto simp: reads_def)
  show "tok_type t \<noteq> TokenEOF \<Longrightarrow> tok_pos t < pos l'"
    using NextToken_progress [OF skip_NextToken [OF assms(1)]] s NextToken_pos [OF assms(1)]
    by (auto simp: reads_def)
qed

definition ends_in_EOF :: "Token list \<Rightarrow> bool" where
  "ends_in_EOF ts = (ts \<noteq> [] \<and> tok_type (last ts) = TokenEOF \<and> list_all (\<lambda>t. tok_type t \<noteq> TokenEOF) (butlast ts))"

lemma tokenize_positions:
  "\<lbrakk>tokenize acc l = Inr ts; pos l \<le> length (input l);
    list_all (\<lambda>t. tok_type t \<noteq> TokenEOF \<and> tok_pos t < pos l) acc; sorted_wrt (<) (map tok_pos acc)\<rbrakk>
   \<Longrightarrow> ends_in_EOF ts \<and> sorted_wrt (<) (map tok_pos ts) \<and> list_all (\<lambda>t. tok_pos t \<le> length (input l)) ts"
proof (induction acc l rule: tokenize.induct)
  case (1 acc l)
  from "1.prems"(1,2) obtain t l' where nt: "NextToken l = Inr (t, l')"
    by (subst (asm) tokenize.simps) (auto split: sum.splits)
  note b = NextToken_pos_between [OF nt "1.prems"(2)]
  have acc: "sorted_wrt (<) (map tok_pos (acc @ [t]))"
    using "1.prems"(3,4) b(1) by (auto simp: sorted_wrt_append list_all_iff)
  show ?case
  proof (cases "tok_type t = TokenEOF")
    case True
    with "1.prems"(1,2) nt have "ts = acc @ [t]" by (subst (asm) tokenize.simps) simp
    with True "1.prems"(2,3) acc b(2) show ?thesis
      by (auto simp: ends_in_EOF_def list_all_iff)
  next
    case False
    with "1.prems"(1,2) nt have tk: "tokenize (acc @ [t]) l' = Inr ts" by (subst (asm) tokenize.simps) simp
    note p = NextToken_progress [OF nt "1.prems"(2)]
    have "ends_in_EOF ts \<and> sorted_wrt (<) (map tok_pos ts) \<and> list_all (\<lambda>t. tok_pos t \<le> length (input l')) ts"
      by (rule "1.IH" [OF _ nt refl False tk])
        (use "1.prems"(2,3) p acc False b(3) in \<open>auto simp: list_all_iff\<close>)
    with p show ?thesis by simp
  qed
qed

section \<open>Tokens of a concrete text\<close>

text \<open>A word, a number and a duration are read as far as the next byte that cannot continue them.\<close>

definition stops :: "string \<Rightarrow> bool" where
  "stops t = (case t of [] \<Rightarrow> True | c # _ \<Rightarrow> code c < 128 \<and> \<not> isIdentChar (code c))"

abbreviation stepped :: "Lexer \<Rightarrow> Lexer" where
  "stepped l \<equiv> l\<lparr>width := Suc 0, pos := Suc (pos l)\<rparr>"

lemma next_rune_Cons:
  assumes "rest l = c # t"
  shows "next_rune l = (code c, stepped l)" "rest (stepped l) = t"
    "backup (stepped l) = l\<lparr>width := Suc 0\<rparr>" "peek_rune l = code c"
proof -
  have "drop (pos l) (input l) = c # t" using assms by (simp add: rest_def)
  then have "pos l < length (input l)" "input l ! pos l = c" "drop (Suc (pos l)) (input l) = t"
    by (auto simp: nth_via_drop drop_Suc tl_drop [symmetric]) (metis drop_all list.discI not_le)
  then show "next_rune l = (code c, stepped l)" "rest (stepped l) = t"
    "backup (stepped l) = l\<lparr>width := Suc 0\<rparr>" "peek_rune l = code c"
    by (auto simp: next_rune_def rest_def backup_def peek_rune_def)
qed

lemma next_rune_Nil:
  assumes "rest l = []"
  shows "next_rune l = (0, l\<lparr>width := 0\<rparr>)" "rest (l\<lparr>width := 0\<rparr>) = []" "backup (l\<lparr>width := 0\<rparr>) = l\<lparr>width := 0\<rparr>"
    "peek_rune l = 0"
  using assms by (auto simp: next_rune_def rest_def backup_def peek_rune_def)

lemma rest_width [simp]: "rest (l\<lparr>width := w\<rparr>) = rest l"
  by (simp add: rest_def)

definition ident_byte :: "char \<Rightarrow> bool" where
  "ident_byte c = (code c < 128 \<and> isIdentChar (code c))"

lemma not_ident_0: "\<not> isIdentChar 0"
  by (simp add: isIdentChar_def unicode_IsLetter_def unicode_IsDigit_def)

lemma ident_byte_code: "ident_byte c \<Longrightarrow> code c \<noteq> 0 \<and> isIdentChar (code c) \<and> encode_rune (code c) = [c]"
  using not_ident_0 by (cases "code c = 0") (simp_all add: ident_byte_def encode_rune_def)

lemma read_ident_word:
  "\<lbrakk>rest l = w @ t; list_all ident_byte w; stops t\<rbrakk> \<Longrightarrow> \<exists>l'. read_ident sb l = (sb @ w, l') \<and> rest l' = t"
proof (induction w arbitrary: sb l)
  case Nil
  show ?case
  proof (cases t)
    case Nil
    with \<open>rest l = [] @ t\<close> show ?thesis by (simp add: read_ident.simps [of _ l] next_rune_Nil)
  next
    case (Cons c u)
    with Nil.prems have "rest l = c # u" "\<not> isIdentChar (code c)" by (auto simp: stops_def)
    then show ?thesis using Cons by (simp add: read_ident.simps [of _ l] next_rune_Cons)
  qed
next
  case (Cons c w)
  then have c: "rest l = c # (w @ t)" "ident_byte c" by auto
  let ?l1 = "stepped l"
  have "read_ident sb l = read_ident (sb @ [c]) ?l1"
    using ident_byte_code [OF c(2)] next_rune_Cons [OF c(1)] by (subst read_ident.simps) simp
  moreover obtain l' where "read_ident (sb @ [c]) ?l1 = ((sb @ [c]) @ w, l')" "rest l' = t"
    using Cons.IH [of ?l1 "sb @ [c]"] Cons.prems next_rune_Cons(2) [OF c(1)] by auto
  ultimately show ?case by simp
qed

lemma skipWhitespace_word:
  "rest l = c # t \<Longrightarrow> \<not> unicode_IsSpace (code c) \<Longrightarrow> skipWhitespace l = l\<lparr>width := Suc 0\<rparr>"
  by (simp add: skipWhitespace.simps [of l] next_rune_Cons)

lemma skipWhitespace_blank:
  "rest l = CHR '' '' # t \<Longrightarrow> skipWhitespace l = skipWhitespace (stepped l)"
  by (subst skipWhitespace.simps) (simp add: next_rune_Cons unicode_IsSpace_def)

lemma NextToken_blank:
  "rest l = CHR '' '' # t \<Longrightarrow> \<exists>l1. rest l1 = t \<and> NextToken l = NextToken l1"
  using skipWhitespace_blank [of l t] next_rune_Cons(2) [of l "CHR '' ''" t]
  by (intro exI [of _ "stepped l"]) (simp add: NextToken_def)

lemma NextToken_EOF: "rest l = [] \<Longrightarrow> \<exists>tok l'. NextToken l = Inr (tok, l') \<and> tok_type tok = TokenEOF \<and> rest l' = []"
  by (simp add: NextToken_def skipWhitespace.simps [of l] next_rune_Nil Let_def simple_token_def)

definition simple_tokens :: "(string \<times> TokenType) list" where
  "simple_tokens = [(''('', TokenLParen), ('')'', TokenRParen), (''='', TokenEquals), (''!='', TokenNotEquals),
     (''<'', TokenLess), (''<='', TokenLessEq), (''>'', TokenGreater), (''>='', TokenGreaterEq)]"

lemma code_eq_61: "code c = 61 \<Longrightarrow> c = CHR ''=''"
  using code_inject [of c "CHR ''=''"] by simp

lemma NextToken_simple:
  assumes "(v, ty) \<in> set simple_tokens" "rest l = v @ t" "\<not> has_prefix t ''=''"
  shows "\<exists>tok l'. NextToken l = Inr (tok, l') \<and> tok_type tok = ty \<and> tok_value tok = v \<and> rest l' = t"
proof -
  obtain c u where v: "v = c # u" using assms(1) by (cases v) (auto simp: simple_tokens_def)
  with assms(2) have r: "rest l = c # (u @ t)" by simp
  have "\<not> unicode_IsSpace (code c)" using assms(1) v by (auto simp: simple_tokens_def unicode_IsSpace_def)
  then have sk: "skipWhitespace l = l\<lparr>width := Suc 0\<rparr>" by (rule skipWhitespace_word [OF r])
  have r1: "rest (l\<lparr>width := Suc 0\<rparr>) = c # (u @ t)" using r by simp
  let ?l2 = "stepped l"
  have n: "next_rune (l\<lparr>width := Suc 0\<rparr>) = (code c, ?l2)" "rest ?l2 = u @ t"
    using next_rune_Cons [OF r1] by simp_all
  have pk: "peek_rune ?l2 \<noteq> 61" if "u = []"
    using n(2) that assms(3) by (cases t) (auto simp: next_rune_Nil(4) next_rune_Cons(4) dest: code_eq_61)
  have pe: "peek_rune ?l2 = 61 \<and> rest (snd (next_rune ?l2)) = t" if "u = ''=''"
    using n(2) that next_rune_Cons [of ?l2 "CHR ''=''" t] by simp
  have nt: "NextToken l = (let startPos = pos (l\<lparr>width := Suc 0\<rparr>); r = code c; l' = stepped l in
       if r = 40 then simple_token TokenLParen ''('' startPos l'
       else if r = 41 then simple_token TokenRParen '')'' startPos l'
       else if r = 61 then simple_token TokenEquals ''='' startPos l'
       else if peek_rune l' = 61
         then simple_token ty v startPos (snd (next_rune l'))
         else simple_token ty v startPos l')"
    using assms(1) unfolding v simple_tokens_def NextToken_def Let_def sk n(1)
    by (simp, elim disjE conjE) (use pe pk in \<open>simp_all\<close>)
  show ?thesis
  proof (cases "u = []")
    case True
    with assms(1) n(2) pk nt v show ?thesis by (auto simp: Let_def simple_token_def simple_tokens_def)
  next
    case False
    then have "u = ''=''" "code c \<noteq> 40" "code c \<noteq> 41" "code c \<noteq> 61"
      using assms(1) v by (auto simp: simple_tokens_def)
    with pe nt show ?thesis by (simp add: Let_def simple_token_def)
  qed
qed

text \<open>An unquoted word: ASCII identifier bytes that start with a letter or an underscore.\<close>

definition word :: "string \<Rightarrow> bool" where
  "word w = (w \<noteq> [] \<and> isIdentStart (code (hd w)) \<and> list_all ident_byte w)"

lemma ident_start_props:
  "isIdentStart r \<Longrightarrow> r \<noteq> 0 \<and> \<not> unicode_IsSpace r \<and> \<not> unicode_IsDigit r
     \<and> r \<notin> {40, 41, 44, 61, 33, 60, 62, 34, 39, 45, 43}"
  by (auto simp: isIdentStart_def unicode_IsLetter_def unicode_IsSpace_def unicode_IsDigit_def)

lemma NextToken_word:
  assumes "word w" "rest l = w @ t" "stops t"
  shows "\<exists>tok l'. NextToken l = Inr (tok, l') \<and> tok_type tok = keyword_type w \<and> tok_value tok = w \<and> rest l' = t"
proof -
  obtain c u where w: "w = c # u" using assms(1) by (cases w) (auto simp: word_def)
  have c: "isIdentStart (code c)" using assms(1) w by (simp add: word_def)
  note p = ident_start_props [OF c]
  have r: "rest l = c # (u @ t)" using assms(2) w by simp
  have sk: "skipWhitespace l = l\<lparr>width := Suc 0\<rparr>" by (rule skipWhitespace_word [OF r]) (use p in blast)
  have r1: "rest (l\<lparr>width := Suc 0\<rparr>) = c # (u @ t)" using r by simp
  have n: "next_rune (l\<lparr>width := Suc 0\<rparr>) = (code c, stepped l)" "backup (stepped l) = l\<lparr>width := Suc 0\<rparr>"
    using next_rune_Cons [OF r1] by simp_all
  obtain l' where l': "read_ident [] (l\<lparr>width := Suc 0\<rparr>) = (w, l')" "rest l' = t"
    using read_ident_word [of "l\<lparr>width := Suc 0\<rparr>" w t "[]"] assms by (auto simp: word_def)
  have "NextToken l = readIdent (pos (l\<lparr>width := Suc 0\<rparr>)) (l\<lparr>width := Suc 0\<rparr>)"
    unfolding NextToken_def Let_def sk n(1) prod.case n(2) using p c by simp
  then show ?thesis using l' by (simp add: readIdent_def)
qed

lemma digit_byte: "is_digit c \<Longrightarrow> unicode_IsDigit (code c) \<and> encode_rune (code c) = [c] \<and> code c \<noteq> 0"
  by (auto simp: is_digit_def unicode_IsDigit_def encode_rune_def)

text \<open>The digits of a number, up to a byte that is not a digit or to the end.\<close>

lemma read_digits_run:
  "\<lbrakk>rest l = ds @ c # t; list_all is_digit ds; \<not> is_digit c\<rbrakk>
   \<Longrightarrow> \<exists>l'. read_digits sb l = (sb @ ds, code c, stepped l') \<and> rest l' = c # t"
proof (induction ds arbitrary: sb l)
  case Nil
  then have "\<not> unicode_IsDigit (code c)" by (simp add: is_digit_def unicode_IsDigit_def)
  with Nil.prems(1) show ?case by (auto simp: read_digits.simps [of _ l] next_rune_Cons(1))
next
  case (Cons d ds)
  then have d: "rest l = d # (ds @ c # t)" "is_digit d" by auto
  have "read_digits sb l = read_digits (sb @ [d]) (stepped l)"
    using digit_byte [OF d(2)] next_rune_Cons(1) [OF d(1)] by (subst read_digits.simps) simp
  then show ?case
    using Cons.IH [of "stepped l" "sb @ [d]"] Cons.prems next_rune_Cons(2) [OF d(1)] by auto
qed

lemma read_digits_end:
  "\<lbrakk>rest l = ds; list_all is_digit ds\<rbrakk>
   \<Longrightarrow> \<exists>l'. read_digits sb l = (sb @ ds, 0, l') \<and> rest l' = []"
proof (induction ds arbitrary: sb l)
  case Nil
  then show ?case by (simp add: read_digits.simps [of _ l] next_rune_Nil unicode_IsDigit_def)
next
  case (Cons d ds)
  then have d: "rest l = d # ds" "is_digit d" by auto
  have "read_digits sb l = read_digits (sb @ [d]) (stepped l)"
    using digit_byte [OF d(2)] next_rune_Cons(1) [OF d(1)] by (subst read_digits.simps) simp
  then show ?case
    using Cons.IH [of "stepped l" "sb @ [d]"] Cons.prems next_rune_Cons(2) [OF d(1)] by auto
qed

definition sign_text :: "string \<Rightarrow> bool" where
  "sign_text sg = (sg \<in> set [[], ''+'', ''-''])"

text \<open>A number token starts here: the sign and the first digit are read, the other digits follow.\<close>

lemma NextToken_number_start:
  assumes "sign_text sg" "rest l = sg @ d # t" "is_digit d"
  shows "\<exists>l1. NextToken l = (case read_digits (sg @ [d]) l1 of (sb, r, l2) \<Rightarrow> number_tail (pos l) (sg \<noteq> []) sb r l2)
             \<and> rest l1 = t"
proof -
  have d: "unicode_IsDigit (code d)" "encode_rune (code d) = [d]" using digit_byte [OF assms(3)] by auto
  obtain c u where s: "sg @ d # t = c # u" by (cases "sg @ d # t") auto
  have r: "rest l = c # u" using assms(2) s by simp
  have cc: "unicode_IsDigit (code c) \<or> code c = 45 \<or> code c = 43"
    using assms(1) s d by (auto simp: sign_text_def)
  then have sk: "skipWhitespace l = l\<lparr>width := Suc 0\<rparr>"
    by (intro skipWhitespace_word [OF r]) (auto simp: unicode_IsDigit_def unicode_IsSpace_def)
  have r1: "rest (l\<lparr>width := Suc 0\<rparr>) = c # u" using r by simp
  have n: "next_rune (l\<lparr>width := Suc 0\<rparr>) = (code c, stepped l)" "backup (stepped l) = l\<lparr>width := Suc 0\<rparr>" "rest (stepped l) = u"
    using next_rune_Cons [OF r1] by simp_all
  have nt: "NextToken l = readNumberOrDuration (pos l) (l\<lparr>width := Suc 0\<rparr>)"
    unfolding NextToken_def Let_def sk n(1) prod.case n(2) using cc
    by (auto simp: unicode_IsDigit_def)
  show ?thesis
  proof (cases "sg = []")
    case True
    with s have "c = d" "u = t" by auto
    with d have "code c \<noteq> 45 \<and> code c \<noteq> 43" by (auto simp: unicode_IsDigit_def)
    with True nt n d \<open>c = d\<close> \<open>u = t\<close> show ?thesis
      by (intro exI [of _ "stepped l"]) (simp add: readNumberOrDuration_def)
  next
    case False
    with assms(1) s have c: "sg = [c]" "u = d # t" "code c = 45 \<or> code c = 43" "encode_rune (code c) = [c]"
      by (auto simp: sign_text_def encode_rune_def)
    have "rest (stepped l) = d # t" using n(3) c(2) by simp
    note n2 = next_rune_Cons [OF this]
    have "readNumberOrDuration (pos l) (l\<lparr>width := Suc 0\<rparr>) =
        (case read_digits ([c] @ [d]) (stepped (stepped l)) of (sb, r, l2) \<Rightarrow> number_tail (pos l) True sb r l2)"
      unfolding readNumberOrDuration_def n(1) prod.case Let_def
      using c(3,4) n2(1) d by auto
    with nt n2(2) c(1) show ?thesis by (intro exI [of _ "stepped (stepped l)"]) simp
  qed
qed

lemma digit_ident: "is_digit c \<Longrightarrow> isIdentChar (code c)"
  by (simp add: is_digit_def isIdentChar_def unicode_IsDigit_def)

lemma duration_suffix_ident: "isDurationSuffix r \<Longrightarrow> isIdentChar r"
  by (simp add: isDurationSuffix_def isIdentChar_def unicode_IsLetter_def, elim disjE) simp_all

lemma stops_facts:
  "stops (c # t) \<Longrightarrow> \<not> is_digit c \<and> \<not> isIdentChar (code c) \<and> \<not> isDurationSuffix (code c)"
  using duration_suffix_ident [of "code c"] by (auto simp: stops_def digit_ident)

lemma stepped_acceptDurationWord:
  assumes "rest l = c # t" "\<not> has_prefix (c # t) ''min''"
  shows "acceptDurationWord (stepped l) = None"
  using assms by (auto simp: acceptDurationWord_def durationWords_def rest_def Let_def)

text \<open>A number token: an optional sign and digits.\<close>

lemma NextToken_number:
  assumes "sign_text sg" "list_all is_digit ds" "ds \<noteq> []" "rest l = sg @ ds @ t" "stops t" "\<not> has_prefix t [NUL]"
  shows "\<exists>tok l'. NextToken l = Inr (tok, l') \<and> tok_type tok = TokenNumber \<and> tok_value tok = sg @ ds \<and> rest l' = t"
proof -
  obtain d ds' where ds: "ds = d # ds'" "is_digit d" "list_all is_digit ds'" using assms(2,3) by (cases ds) auto
  obtain l1 where l1: "NextToken l = (case read_digits (sg @ [d]) l1 of (sb, r, l2) \<Rightarrow> number_tail (pos l) (sg \<noteq> []) sb r l2)"
    "rest l1 = ds' @ t"
    using NextToken_number_start [OF assms(1) _ ds(2), of l "ds' @ t"] assms(4) ds(1) by auto
  show ?thesis
  proof (cases t)
    case Nil
    obtain l2 where "read_digits (sg @ [d]) l1 = ((sg @ [d]) @ ds', 0, l2)" "rest l2 = []"
      using read_digits_end [OF _ ds(3), of l1 "sg @ [d]"] l1(2) Nil by auto
    with l1(1) Nil ds(1) show ?thesis by (simp add: number_tail_def)
  next
    case (Cons c u)
    note st = stops_facts [OF assms(5) [unfolded Cons]]
    obtain l2 where l2: "read_digits (sg @ [d]) l1 = ((sg @ [d]) @ ds', code c, stepped l2)" "rest l2 = c # u"
      using read_digits_run [of l1 ds' c u "sg @ [d]"] l1(2) Cons ds(3) st by auto
    have c0: "code c \<noteq> 0" using assms(6) Cons code_inject [of c NUL] by auto
    have "\<not> has_prefix (c # u) ''min''"
    proof
      assume "has_prefix (c # u) ''min''"
      then have "c = CHR ''m''" by (auto simp: prefix_def)
      with st show False by (simp add: isDurationSuffix_def)
    qed
    from stepped_acceptDurationWord [OF l2(2) this] c0 st l1(1) l2 Cons ds(1) show ?thesis
      by (simp add: number_tail_def next_rune_Cons(3) [OF l2(2)])
  qed
qed

text \<open>A duration token: an optional sign, digits and a one-letter unit or the word \<open>min\<close>.\<close>

lemma NextToken_duration:
  assumes "sign_text sg" "list_all is_digit ds" "ds \<noteq> []" "isDurationSuffix (code c)"
    "rest l = sg @ ds @ c # t" "stops t"
  shows "\<exists>tok l'. NextToken l = Inr (tok, l') \<and> tok_type tok = TokenDuration
      \<and> tok_value tok = sg @ ds @ [c] \<and> rest l' = t"
proof -
  obtain d ds' where ds: "ds = d # ds'" "is_digit d" "list_all is_digit ds'" using assms(2,3) by (cases ds) auto
  obtain l1 where l1: "NextToken l = (case read_digits (sg @ [d]) l1 of (sb, r, l2) \<Rightarrow> number_tail (pos l) (sg \<noteq> []) sb r l2)"
    "rest l1 = ds' @ c # t"
    using NextToken_number_start [OF assms(1) _ ds(2), of l "ds' @ c # t"] assms(5) ds(1) by auto
  have c: "\<not> is_digit c" "code c \<noteq> 0" "encode_rune (code c) = [c]"
    using assms(4) by (auto simp: isDurationSuffix_def is_digit_def encode_rune_def)
  obtain l2 where l2: "read_digits (sg @ [d]) l1 = ((sg @ [d]) @ ds', code c, stepped l2)" "rest l2 = c # t"
    using read_digits_run [of l1 ds' c t "sg @ [d]"] l1(2) c(1) ds(3) by auto
  have r: "rest (stepped l2) = t" using next_rune_Cons(2) [OF l2(2)] by simp
  have "\<not> isIdentChar (peek_rune (stepped l2))"
    using r assms(6) stops_facts
    by (cases t) (auto simp: next_rune_Nil(4) next_rune_Cons(4) isIdentChar_def unicode_IsLetter_def unicode_IsDigit_def)
  with l1(1) l2 c assms(4) ds(1) r show ?thesis by (simp add: number_tail_def)
qed

section \<open>Properties\<close>

text \<open>
  C34: whatever the query, reading all its tokens ends; the tokens that come back end in one end-of-query
  token and no other is inside, and their positions are strictly increasing and lie in the query.
\<close>

theorem Tokenize_positions:
  assumes "Tokenize (NewLexer s) = Inr ts"
  shows "ends_in_EOF ts \<and> sorted_wrt (<) (map tok_pos ts) \<and> list_all (\<lambda>t. tok_pos t \<le> length s) ts"
  using tokenize_positions [of "[]" "NewLexer s" ts] assms
  by (simp add: Tokenize_def NewLexer_def)

theorem Tokenize_positions_witness:
  "\<exists>ts. Tokenize (NewLexer ''('') = Inr ts \<and> ends_in_EOF ts"
proof -
  have "Tokenize (NewLexer ''('') = Inr [\<lparr>tok_type = TokenLParen, tok_value = ''('', tok_pos = 0\<rparr>,
      \<lparr>tok_type = TokenEOF, tok_value = [], tok_pos = 1\<rparr>]"
    by (simp add: Tokenize_def NewLexer_def tokenize.simps NextToken_def skipWhitespace.simps next_rune_def
        backup_def unicode_IsSpace_def Let_def simple_token_def)
  with Tokenize_positions [OF this] show ?thesis by blast
qed

text \<open>
  A NUL byte ends a query silently where a token is expected, but is skipped right after a
  number: the rest of the query is dropped in one case and read in the other.
\<close>

theorem NUL_byte_after_number_is_skipped:
  "(case Tokenize (NewLexer ([NUL] @ ''('')) of Inr ts \<Rightarrow> map tok_type ts | Inl _ \<Rightarrow> []) = [TokenEOF]
   \<and> (case Tokenize (NewLexer (''1'' @ [NUL] @ ''('')) of Inr ts \<Rightarrow> map tok_type ts | Inl _ \<Rightarrow> [])
     = [TokenNumber, TokenLParen, TokenEOF]"
  by (simp add: Tokenize_def NewLexer_def tokenize.simps NextToken_def skipWhitespace.simps next_rune_def
      backup_def unicode_IsSpace_def Let_def simple_token_def unicode_IsDigit_def readNumberOrDuration_def
      read_digits.simps number_tail_def encode_rune_def isDurationSuffix_def)

end
