(* ===== verification/QueryParser.thy ===== *)
theory QueryParser
  imports QueryLexer
begin

text \<open>
  The recursive-descent parser of the query language, \<open>internal/query/parser.go\<close>, over the lexer
  state of \<^theory_text>\<open>QueryLexer\<close>.

  The mutually recursive functions take fuel, and \<open>OutOfFuel\<close> is an error of its own. The parser
  advances over a token in every round of recursion, so \<open>Parse\<close> with six units per byte of the
  query never runs out: \<open>Parse_terminates\<close> below.
\<close>

datatype ComparisonOp = OpEquals | OpNotEquals | OpLess | OpLessEq | OpGreater | OpGreaterEq

fun op_string :: "ComparisonOp \<Rightarrow> string" where
  "op_string OpEquals = ''=''"
| "op_string OpNotEquals = ''!=''"
| "op_string OpLess = ''<''"
| "op_string OpLessEq = ''<=''"
| "op_string OpGreater = ''>''"
| "op_string OpGreaterEq = ''>=''"

datatype Node =
    ComparisonNode (Field: string) (Op: ComparisonOp) (Value: string) (ValueType: TokenType)
  | AndNode Node Node
  | OrNode Node Node
  | NotNode Node

fun node_string :: "Node \<Rightarrow> string" where
  "node_string (ComparisonNode f op v ty) = f @ op_string op @ v"
| "node_string (AndNode l r) = ''('' @ node_string l @ '' AND '' @ node_string r @ '')''"
| "node_string (OrNode l r) = ''('' @ node_string l @ '' OR '' @ node_string r @ '')''"
| "node_string (NotNode n) = ''NOT '' @ node_string n"

record Parser =
  lexer :: Lexer
  current :: Token
  peeked :: "Token option"

datatype query_error =
    LexError lex_error
  | EmptyQuery
  | UnexpectedToken string nat
  | ExpectedRParen nat TokenType
  | ExpectedField nat TokenType
  | ExpectedOperator nat TokenType
  | ExpectedValue nat TokenType
  | OutOfFuel

definition Token_zero :: Token where
  "Token_zero = \<lparr>tok_type = TokenEOF, tok_value = [], tok_pos = 0\<rparr>"

definition NewParser :: "string \<Rightarrow> Parser" where
  "NewParser s = \<lparr>lexer = NewLexer s, current = Token_zero, peeked = None\<rparr>"

definition advance :: "Parser \<Rightarrow> query_error + Parser" where
  "advance p =
    (case peeked p of
       Some tok \<Rightarrow> Inr (p\<lparr>current := tok, peeked := None\<rparr>)
     | None \<Rightarrow>
         (case NextToken (lexer p) of
            Inl e \<Rightarrow> Inl (LexError e)
          | Inr (tok, l) \<Rightarrow> Inr (p\<lparr>current := tok, lexer := l\<rparr>)))"

text \<open>The one-token lookahead of the parser; no rule of the grammar needs it.\<close>

definition peek :: "Parser \<Rightarrow> query_error + Token \<times> Parser" where
  "peek p =
    (case peeked p of
       Some tok \<Rightarrow> Inr (tok, p)
     | None \<Rightarrow>
         (case NextToken (lexer p) of
            Inl e \<Rightarrow> Inl (LexError e)
          | Inr (tok, l) \<Rightarrow> Inr (tok, p\<lparr>peeked := Some tok, lexer := l\<rparr>)))"

lemma advance_after_peek:
  "peek p = Inr (tok, p') \<Longrightarrow> advance p' = advance p \<and> peek p' = Inr (tok, p')"
  by (auto simp: peek_def advance_def split: option.splits sum.splits)

text \<open>
  The field name of a comparison: lower case, except for the key of a \<open>metadata.\<close> field.
\<close>

definition normalize_field :: "string \<Rightarrow> string" where
  "normalize_field v =
    (let field = to_lower v in
     if has_prefix field ''metadata.'' \<and> length field > length ''metadata.''
     then ''metadata.'' @ drop (length ''metadata.'') v else field)"

definition comparison_op :: "TokenType \<Rightarrow> ComparisonOp option" where
  "comparison_op t =
    (case t of TokenEquals \<Rightarrow> Some OpEquals | TokenNotEquals \<Rightarrow> Some OpNotEquals | TokenLess \<Rightarrow> Some OpLess
     | TokenLessEq \<Rightarrow> Some OpLessEq | TokenGreater \<Rightarrow> Some OpGreater | TokenGreaterEq \<Rightarrow> Some OpGreaterEq
     | _ \<Rightarrow> None)"

definition parseComparison :: "Parser \<Rightarrow> query_error + Node \<times> Parser" where
  "parseComparison p =
    (if tok_type (current p) \<noteq> TokenIdent
     then Inl (ExpectedField (tok_pos (current p)) (tok_type (current p)))
     else
       let field = normalize_field (tok_value (current p)) in
       case advance p of Inl e \<Rightarrow> Inl e | Inr p1 \<Rightarrow>
       case comparison_op (tok_type (current p1)) of
         None \<Rightarrow> Inl (ExpectedOperator (tok_pos (current p1)) (tok_type (current p1)))
       | Some op \<Rightarrow>
       case advance p1 of Inl e \<Rightarrow> Inl e | Inr p2 \<Rightarrow>
       if tok_type (current p2) \<notin> {TokenIdent, TokenString, TokenNumber, TokenDuration}
       then Inl (ExpectedValue (tok_pos (current p2)) (tok_type (current p2)))
       else case advance p2 of Inl e \<Rightarrow> Inl e | Inr p3 \<Rightarrow>
       Inr (ComparisonNode field op (tok_value (current p2)) (tok_type (current p2)), p3))"

fun parseOr :: "nat \<Rightarrow> Parser \<Rightarrow> query_error + Node \<times> Parser"
  and parseOr_loop :: "nat \<Rightarrow> Node \<Rightarrow> Parser \<Rightarrow> query_error + Node \<times> Parser"
  and parseAnd :: "nat \<Rightarrow> Parser \<Rightarrow> query_error + Node \<times> Parser"
  and parseAnd_loop :: "nat \<Rightarrow> Node \<Rightarrow> Parser \<Rightarrow> query_error + Node \<times> Parser"
  and parseNot :: "nat \<Rightarrow> Parser \<Rightarrow> query_error + Node \<times> Parser"
  and parsePrimary :: "nat \<Rightarrow> Parser \<Rightarrow> query_error + Node \<times> Parser" where
  "parseOr 0 p = Inl OutOfFuel"
| "parseOr (Suc n) p =
    (case parseAnd n p of Inl e \<Rightarrow> Inl e | Inr (l, p1) \<Rightarrow> parseOr_loop n l p1)"
| "parseOr_loop 0 l p = Inl OutOfFuel"
| "parseOr_loop (Suc n) l p =
    (if tok_type (current p) = TokenOr then
       (case advance p of Inl e \<Rightarrow> Inl e | Inr p1 \<Rightarrow>
        case parseAnd n p1 of Inl e \<Rightarrow> Inl e | Inr (r, p2) \<Rightarrow> parseOr_loop n (OrNode l r) p2)
     else Inr (l, p))"
| "parseAnd 0 p = Inl OutOfFuel"
| "parseAnd (Suc n) p =
    (case parseNot n p of Inl e \<Rightarrow> Inl e | Inr (l, p1) \<Rightarrow> parseAnd_loop n l p1)"
| "parseAnd_loop 0 l p = Inl OutOfFuel"
| "parseAnd_loop (Suc n) l p =
    (if tok_type (current p) = TokenAnd then
       (case advance p of Inl e \<Rightarrow> Inl e | Inr p1 \<Rightarrow>
        case parseNot n p1 of Inl e \<Rightarrow> Inl e | Inr (r, p2) \<Rightarrow> parseAnd_loop n (AndNode l r) p2)
     else Inr (l, p))"
| "parseNot 0 p = Inl OutOfFuel"
| "parseNot (Suc n) p =
    (if tok_type (current p) = TokenNot then
       (case advance p of Inl e \<Rightarrow> Inl e | Inr p1 \<Rightarrow>
        case parseNot n p1 of Inl e \<Rightarrow> Inl e | Inr (x, p2) \<Rightarrow> Inr (NotNode x, p2))
     else parsePrimary n p)"
| "parsePrimary 0 p = Inl OutOfFuel"
| "parsePrimary (Suc n) p =
    (if tok_type (current p) = TokenLParen then
       (case advance p of Inl e \<Rightarrow> Inl e | Inr p1 \<Rightarrow>
        case parseOr n p1 of Inl e \<Rightarrow> Inl e | Inr (x, p2) \<Rightarrow>
        if tok_type (current p2) \<noteq> TokenRParen
        then Inl (ExpectedRParen (tok_pos (current p2)) (tok_type (current p2)))
        else case advance p2 of Inl e \<Rightarrow> Inl e | Inr p3 \<Rightarrow> Inr (x, p3))
     else parseComparison p)"

definition Parser_Parse :: "nat \<Rightarrow> Parser \<Rightarrow> query_error + Node" where
  "Parser_Parse n p =
    (case advance p of Inl e \<Rightarrow> Inl e | Inr p1 \<Rightarrow>
     if tok_type (current p1) = TokenEOF then Inl EmptyQuery
     else case parseOr n p1 of Inl e \<Rightarrow> Inl e | Inr (x, p2) \<Rightarrow>
     if tok_type (current p2) \<noteq> TokenEOF
     then Inl (UnexpectedToken (tok_value (current p2)) (tok_pos (current p2)))
     else Inr x)"

definition parse_fuel :: "string \<Rightarrow> nat" where
  "parse_fuel s = 6 * length s + 10"

definition Parse :: "string \<Rightarrow> query_error + Node" where
  "Parse s = Parser_Parse (parse_fuel s) (NewParser s)"

definition KnownFields :: "string list" where
  "KnownFields =
    [''id'', ''title'', ''description'', ''desc'', ''status'', ''priority'', ''type'', ''assignee'', ''owner'',
     ''created'', ''updated'', ''closed'', ''created_at'', ''updated_at'', ''closed_at'',
     ''label'', ''labels'', ''pinned'', ''ephemeral'', ''template'',
     ''spec'', ''spec_id'', ''parent'', ''mol_type'', ''notes'', ''has_metadata_key'']"

section \<open>The fuel is enough\<close>

text \<open>A parser state the program is in: nothing is peeked, and the lexer is inside its input.\<close>

definition ok_parser :: "Parser \<Rightarrow> bool" where
  "ok_parser p = (peeked p = None \<and> pos (lexer p) \<le> length (input (lexer p)))"

definition todo :: "Parser \<Rightarrow> nat" where
  "todo p = length (input (lexer p)) - pos (lexer p) + (if tok_type (current p) = TokenEOF then 0 else 1)"

text \<open>What a parsing step promises: it does not run out of fuel, and it does not go back.\<close>

definition steps :: "Parser \<Rightarrow> query_error + 'a \<times> Parser \<Rightarrow> bool" where
  "steps p r = (case r of Inl e \<Rightarrow> e \<noteq> OutOfFuel | Inr (_, p') \<Rightarrow> ok_parser p' \<and> todo p' \<le> todo p)"

lemma advance_ok:
  assumes "ok_parser p" "tok_type (current p) \<noteq> TokenEOF" "advance p = Inr p'"
  shows "ok_parser p' \<and> todo p' < todo p"
proof -
  obtain t l where n: "NextToken (lexer p) = Inr (t, l)" "p' = p\<lparr>current := t, lexer := l\<rparr>"
    using assms(1,3) by (auto simp: advance_def ok_parser_def split: sum.splits)
  have "pos (lexer p) \<le> length (input (lexer p))" using assms(1) by (simp add: ok_parser_def)
  from NextToken_progress [OF n(1) this] n(2) assms(1,2) show ?thesis
    by (cases "tok_type t = TokenEOF") (auto simp: ok_parser_def todo_def)
qed

lemma advance_no_fuel: "advance p = Inl e \<Longrightarrow> e \<noteq> OutOfFuel"
  by (auto simp: advance_def split: option.splits sum.splits)

lemma steps_advance:
  assumes "ok_parser p" "tok_type (current p) \<noteq> TokenEOF" "\<And>p1. ok_parser p1 \<Longrightarrow> todo p1 < todo p \<Longrightarrow> steps q (f p1)"
  shows "steps q (case advance p of Inl e \<Rightarrow> Inl e | Inr p1 \<Rightarrow> f p1)"
proof (cases "advance p")
  case (Inl e)
  then show ?thesis using advance_no_fuel by (simp add: steps_def)
next
  case (Inr p1)
  with advance_ok [OF assms(1,2) Inr] assms(3) show ?thesis by simp
qed

lemma steps_bind:
  assumes "steps p r" "\<And>x p1. ok_parser p1 \<Longrightarrow> todo p1 \<le> todo p \<Longrightarrow> steps q (f x p1)"
  shows "steps q (case r of Inl e \<Rightarrow> Inl e | Inr (x, p1) \<Rightarrow> f x p1)"
proof (cases r)
  case (Inl e)
  then show ?thesis using assms(1) by (simp add: steps_def)
next
  case (Inr y)
  with assms(1) assms(2) [of "snd y" "fst y"] show ?thesis by (cases y) (simp add: steps_def)
qed

lemma steps_return: "ok_parser p' \<Longrightarrow> todo p' \<le> todo p \<Longrightarrow> steps p (Inr (x, p'))"
  by (simp add: steps_def)

lemma steps_error: "e \<noteq> OutOfFuel \<Longrightarrow> steps p (Inl e)"
  by (simp add: steps_def)

lemma steps_mono: "steps p' r \<Longrightarrow> todo p' \<le> todo p \<Longrightarrow> steps p r"
  by (auto simp: steps_def split: sum.splits)

lemma comparison_op_EOF [simp]: "comparison_op TokenEOF = None"
  by (simp add: comparison_op_def)

lemma parseComparison_steps: "ok_parser p \<Longrightarrow> steps p (parseComparison p)"
  unfolding parseComparison_def Let_def
  by (cases "tok_type (current p) = TokenIdent")
    (auto intro!: steps_advance steps_return steps_error split: option.splits)

text \<open>By induction on the fuel, for all six functions at once.\<close>

lemma parse_steps_all:
  "(\<forall>p. ok_parser p \<and> 6 * todo p + 4 \<le> n \<longrightarrow> steps p (parseOr n p))
   \<and> (\<forall>p l. ok_parser p \<and> 6 * todo p + 1 \<le> n \<longrightarrow> steps p (parseOr_loop n l p))
   \<and> (\<forall>p. ok_parser p \<and> 6 * todo p + 3 \<le> n \<longrightarrow> steps p (parseAnd n p))
   \<and> (\<forall>p l. ok_parser p \<and> 6 * todo p + 1 \<le> n \<longrightarrow> steps p (parseAnd_loop n l p))
   \<and> (\<forall>p. ok_parser p \<and> 6 * todo p + 2 \<le> n \<longrightarrow> steps p (parseNot n p))
   \<and> (\<forall>p. ok_parser p \<and> 6 * todo p + 1 \<le> n \<longrightarrow> steps p (parsePrimary n p))"
proof (induction n)
  case (Suc n)
  have o: "steps q (parseOr n p)" if "ok_parser p" "6 * todo p + 4 \<le> n" "todo p \<le> todo q" for p q
    using Suc that by (blast intro: steps_mono)
  have ol: "steps q (parseOr_loop n l p)" if "ok_parser p" "6 * todo p + 1 \<le> n" "todo p \<le> todo q" for p q l
    using Suc that by (blast intro: steps_mono)
  have a: "steps q (parseAnd n p)" if "ok_parser p" "6 * todo p + 3 \<le> n" "todo p \<le> todo q" for p q
    using Suc that by (blast intro: steps_mono)
  have al: "steps q (parseAnd_loop n l p)" if "ok_parser p" "6 * todo p + 1 \<le> n" "todo p \<le> todo q" for p q l
    using Suc that by (blast intro: steps_mono)
  have nt: "steps q (parseNot n p)" if "ok_parser p" "6 * todo p + 2 \<le> n" "todo p \<le> todo q" for p q
    using Suc that by (blast intro: steps_mono)
  have pr: "steps q (parsePrimary n p)" if "ok_parser p" "6 * todo p + 1 \<le> n" "todo p \<le> todo q" for p q
    using Suc that by (blast intro: steps_mono)
  show ?case
  proof (intro conjI allI impI; elim conjE)
    fix p assume p: "ok_parser p" "6 * todo p + 4 \<le> Suc n"
    then show "steps p (parseOr (Suc n) p)"
      by (auto intro!: steps_bind [OF a [OF p(1) _ order_refl]] ol)
  next
    fix p l assume p: "ok_parser p" "6 * todo p + 1 \<le> Suc n"
    then show "steps p (parseOr_loop (Suc n) l p)"
      by (auto intro!: steps_advance [OF p(1)] steps_bind [OF a [OF _ _ order_refl]] ol steps_return)
  next
    fix p assume p: "ok_parser p" "6 * todo p + 3 \<le> Suc n"
    then show "steps p (parseAnd (Suc n) p)"
      by (auto intro!: steps_bind [OF nt [OF p(1) _ order_refl]] al)
  next
    fix p l assume p: "ok_parser p" "6 * todo p + 1 \<le> Suc n"
    then show "steps p (parseAnd_loop (Suc n) l p)"
      by (auto intro!: steps_advance [OF p(1)] steps_bind [OF nt [OF _ _ order_refl]] al steps_return)
  next
    fix p assume p: "ok_parser p" "6 * todo p + 2 \<le> Suc n"
    then show "steps p (parseNot (Suc n) p)"
      by (auto intro!: steps_advance [OF p(1)] steps_bind [OF nt [OF _ _ order_refl]] pr steps_return)
  next
    fix p assume p: "ok_parser p" "6 * todo p + 1 \<le> Suc n"
    then show "steps p (parsePrimary (Suc n) p)"
      by (auto intro!: steps_advance steps_bind [OF o [OF _ _ order_refl]] steps_return steps_error
          parseComparison_steps)
  qed
qed simp

lemma advance_first:
  assumes "advance (NewParser s) = Inr p"
  shows "ok_parser p \<and> todo p \<le> length s + 1"
proof -
  obtain t l where n: "NextToken (NewLexer s) = Inr (t, l)" "p = (NewParser s)\<lparr>current := t, lexer := l\<rparr>"
    using assms by (auto simp: advance_def NewParser_def split: sum.splits)
  have "pos (NewLexer s) \<le> length (input (NewLexer s))" by (simp add: NewLexer_def)
  from NextToken_progress [OF n(1) this] n(2) show ?thesis
    by (auto simp: ok_parser_def todo_def NewParser_def NewLexer_def)
qed


section \<open>Printing and parsing\<close>

text \<open>
  The printed form of a tree does not quote strings, so only trees whose field names and values are
  plain words, numbers and durations can be read back.
\<close>

definition unsigned_text :: "string \<Rightarrow> string" where
  "unsigned_text v = (if has_prefix v ''+'' \<or> has_prefix v ''-'' then tl v else v)"

definition number_text :: "string \<Rightarrow> bool" where
  "number_text v = (unsigned_text v \<noteq> [] \<and> list_all is_digit (unsigned_text v))"

definition duration_text :: "string \<Rightarrow> bool" where
  "duration_text v = (v \<noteq> [] \<and> number_text (butlast v) \<and> isDurationSuffix (code (last v)))"

definition plain_value :: "string \<Rightarrow> TokenType \<Rightarrow> bool" where
  "plain_value v ty =
    (case ty of TokenIdent \<Rightarrow> word v \<and> keyword_type v = TokenIdent | TokenNumber \<Rightarrow> number_text v
     | TokenDuration \<Rightarrow> duration_text v | _ \<Rightarrow> False)"

fun plain :: "Node \<Rightarrow> bool" where
  "plain (ComparisonNode f op v ty) =
    (word f \<and> keyword_type f = TokenIdent \<and> normalize_field f = f \<and> plain_value v ty)"
| "plain (AndNode l r) = (plain l \<and> plain r)"
| "plain (OrNode l r) = (plain l \<and> plain r)"
| "plain (NotNode x) = plain x"

text \<open>A text whose first token is \<open>v\<close> of type \<open>ty\<close>, followed by \<open>t\<close>.\<close>

definition first_token :: "string \<Rightarrow> TokenType \<Rightarrow> string \<Rightarrow> string \<Rightarrow> bool" where
  "first_token s ty v t =
    (\<forall>l. rest l = s \<longrightarrow>
      (\<exists>tok l'. NextToken l = Inr (tok, l') \<and> tok_type tok = ty \<and> tok_value tok = v \<and> rest l' = t))"

lemma sign_split:
  obtains sg where "v = sg @ unsigned_text v" "sign_text sg"
proof (cases "has_prefix v ''+'' \<or> has_prefix v ''-''")
  case True
  then have "v = [hd v] @ unsigned_text v" "sign_text [hd v]"
    by (cases v; auto simp: unsigned_text_def sign_text_def)+
  then show ?thesis by (rule that)
next
  case False
  then show ?thesis by (intro that [of "[]"]) (auto simp: unsigned_text_def sign_text_def)
qed

lemma first_word: "word w \<Longrightarrow> stops t \<Longrightarrow> first_token (w @ t) (keyword_type w) w t"
  unfolding first_token_def using NextToken_word by blast

lemma first_simple:
  "(v, ty) \<in> set simple_tokens \<Longrightarrow> \<not> has_prefix t ''='' \<Longrightarrow> first_token (v @ t) ty v t"
  unfolding first_token_def using NextToken_simple by blast

lemma first_number:
  assumes "number_text v" "stops t" "\<not> has_prefix t [NUL]"
  shows "first_token (v @ t) TokenNumber v t"
proof -
  obtain sg where sg: "v = sg @ unsigned_text v" "sign_text sg" by (rule sign_split)
  have "v @ t = sg @ unsigned_text v @ t" using sg(1) by (metis append.assoc)
  with sg NextToken_number [OF sg(2) _ _ _ assms(2,3), of "unsigned_text v"] assms(1) show ?thesis
    unfolding first_token_def number_text_def by metis
qed

lemma first_duration:
  assumes "duration_text v" "stops t"
  shows "first_token (v @ t) TokenDuration v t"
proof -
  let ?w = "butlast v"
  obtain sg where sg: "?w = sg @ unsigned_text ?w" "sign_text sg" by (rule sign_split)
  have v: "v = sg @ unsigned_text ?w @ [last v]"
    using sg(1) assms(1) append_butlast_last_id [of v] by (metis append.assoc duration_text_def)
  then have vt: "v @ t = sg @ unsigned_text ?w @ last v # t" by (metis append.assoc append_Cons append_Nil)
  have "list_all is_digit (unsigned_text ?w)" "unsigned_text ?w \<noteq> []" "isDurationSuffix (code (last v))"
    using assms(1) by (auto simp: duration_text_def number_text_def)
  from NextToken_duration [OF sg(2) this _ assms(2)] vt v show ?thesis
    unfolding first_token_def by metis
qed

text \<open>What follows a printed subtree.\<close>

definition follow :: "string \<Rightarrow> bool" where
  "follow t = (t = [] \<or> (has_prefix t '')'' \<and> \<not> has_prefix (tl t) ''='') \<or> has_prefix t '' AND '' \<or> has_prefix t '' OR '')"

lemma follow_stops: "follow t \<Longrightarrow> stops t \<and> \<not> has_prefix t [NUL] \<and> \<not> has_prefix t ''=''"
  by (cases t) (auto simp: follow_def stops_def isIdentChar_def unicode_IsLetter_def unicode_IsDigit_def)

text \<open>The parser stands before the text \<open>s\<close>: its current token is the first one of \<open>s\<close>.\<close>

definition at_text :: "Parser \<Rightarrow> string \<Rightarrow> bool" where
  "at_text p s = (peeked p = None \<and> (\<exists>l. rest l = s \<and> NextToken l = Inr (current p, lexer p)))"

definition lexable :: "string \<Rightarrow> bool" where
  "lexable s = (\<forall>l. rest l = s \<longrightarrow> (\<exists>r. NextToken l = Inr r))"

lemma at_first:
  assumes "at_text p s" "first_token s ty v t"
  shows "tok_type (current p) = ty" "tok_value (current p) = v" "rest (lexer p) = t" "peeked p = None"
  using assms by (auto simp: at_text_def first_token_def)

lemma first_lexable: "first_token s ty v t \<Longrightarrow> lexable s"
  by (fastforce simp: first_token_def lexable_def)

lemma blank_lexable: "lexable t \<Longrightarrow> lexable (CHR '' '' # t)"
  unfolding lexable_def using NextToken_blank by metis

lemma at_blank: "at_text p (CHR '' '' # t) \<Longrightarrow> at_text p t"
  unfolding at_text_def using NextToken_blank by metis

lemma advance_at:
  assumes "at_text p s" "first_token s ty v t" "lexable t"
  obtains p' where "advance p = Inr p'" "at_text p' t"
proof -
  obtain tok l where n: "NextToken (lexer p) = Inr (tok, l)"
    using assms(3) at_first(3) [OF assms(1,2)] by (auto simp: lexable_def)
  show ?thesis
    by (rule that [of "p\<lparr>current := tok, lexer := l\<rparr>"])
      (use n at_first [OF assms(1,2)] in \<open>auto simp: advance_def at_text_def\<close>)
qed

lemma at_EOF: "at_text p [] \<Longrightarrow> tok_type (current p) = TokenEOF"
  unfolding at_text_def using NextToken_EOF by fastforce

lemmas word_eval = keyword_type_def to_upper_def rune_chunks_ascii encode_rune_def rune_to_upper_def char_of_def bit_0
  word_def ident_byte_def isIdentStart_def isIdentChar_def unicode_IsLetter_def unicode_IsDigit_def

lemma keyword_words:
  "word ''AND'' \<and> keyword_type ''AND'' = TokenAnd" "word ''OR'' \<and> keyword_type ''OR'' = TokenOr"
  "word ''NOT'' \<and> keyword_type ''NOT'' = TokenNot"
  by (simp_all add: word_eval)

lemma stops_blank: "stops (CHR '' '' # u)"
  by (simp add: stops_def isIdentChar_def unicode_IsLetter_def unicode_IsDigit_def)

lemma first_keyword:
  "first_token (''AND '' @ u) TokenAnd ''AND'' ('' '' @ u)" "first_token (''OR '' @ u) TokenOr ''OR'' ('' '' @ u)"
  "first_token (''NOT '' @ u) TokenNot ''NOT'' ('' '' @ u)"
  using keyword_words stops_blank [of u] first_word [of "''AND''" "'' '' @ u"] first_word [of "''OR''" "'' '' @ u"]
    first_word [of "''NOT''" "'' '' @ u"] by simp_all

lemma follow_cases:
  assumes "follow t"
  obtains "t = []" | u where "t = '')'' @ u" "first_token t TokenRParen '')'' u"
  | u where "t = '' AND '' @ u" | u where "t = '' OR '' @ u"
proof -
  have "first_token ('')'' @ u) TokenRParen '')'' u" if "\<not> has_prefix u ''=''" for u
    using first_simple [OF _ that, of "'')''" TokenRParen] by (simp add: simple_tokens_def)
  then show ?thesis using assms that by (auto simp: follow_def prefix_def)
qed

lemma follow_lexable: "follow t \<Longrightarrow> lexable t"
proof (erule follow_cases)
  show "t = [] \<Longrightarrow> lexable t" using NextToken_EOF by (fastforce simp: lexable_def)
qed (use blank_lexable [OF first_lexable [OF first_keyword(1)]] blank_lexable [OF first_lexable [OF first_keyword(2)]]
     in \<open>auto dest: first_lexable\<close>)

lemma first_value:
  assumes "plain_value v ty" "follow t"
  shows "first_token (v @ t) ty v t"
proof -
  note f = follow_stops [OF assms(2)]
  show ?thesis
    using assms(1) f first_word [of v t] first_number [of v t] first_duration [of v t]
    by (cases ty) (auto simp: plain_value_def)
qed

definition op_token :: "ComparisonOp \<Rightarrow> TokenType" where
  "op_token op =
    (case op of OpEquals \<Rightarrow> TokenEquals | OpNotEquals \<Rightarrow> TokenNotEquals | OpLess \<Rightarrow> TokenLess
     | OpLessEq \<Rightarrow> TokenLessEq | OpGreater \<Rightarrow> TokenGreater | OpGreaterEq \<Rightarrow> TokenGreaterEq)"

lemma op_token_simple: "(op_string op, op_token op) \<in> set simple_tokens \<and> comparison_op (op_token op) = Some op"
  by (cases op) (simp_all add: op_token_def simple_tokens_def comparison_op_def)

lemma op_stops: "stops (op_string op @ t)"
  by (cases op) (simp_all add: stops_def isIdentChar_def unicode_IsLetter_def unicode_IsDigit_def)

lemma value_not_equals: "plain_value v ty \<Longrightarrow> \<not> has_prefix (v @ t) ''=''"
  by (cases v; cases ty) (auto simp: plain_value_def word_def ident_byte_def isIdentChar_def unicode_IsLetter_def
      unicode_IsDigit_def isIdentStart_def number_text_def duration_text_def unsigned_text_def is_digit_def split: if_splits)

lemma parseComparison_plain:
  assumes "plain (ComparisonNode f op v ty)" "at_text p (node_string (ComparisonNode f op v ty) @ t)" "follow t"
  shows "\<exists>p'. parseComparison p = Inr (ComparisonNode f op v ty, p') \<and> at_text p' t"
proof -
  have f: "word f" "keyword_type f = TokenIdent" "normalize_field f = f" and v: "plain_value v ty"
    using assms(1) by auto
  have t0: "first_token (f @ op_string op @ v @ t) TokenIdent f (op_string op @ v @ t)"
    using first_word [OF f(1) op_stops] f(2) by metis
  have t1: "first_token (op_string op @ v @ t) (op_token op) (op_string op) (v @ t)"
    using op_token_simple first_simple value_not_equals [OF v] by blast
  have t2: "first_token (v @ t) ty v t" by (rule first_value [OF v assms(3)])
  have p: "at_text p (f @ op_string op @ v @ t)" using assms(2) by simp
  obtain p1 where p1: "advance p = Inr p1" "at_text p1 (op_string op @ v @ t)"
    by (rule advance_at [OF p t0 first_lexable [OF t1]])
  obtain p2 where p2: "advance p1 = Inr p2" "at_text p2 (v @ t)"
    by (rule advance_at [OF p1(2) t1 first_lexable [OF t2]])
  obtain p3 where p3: "advance p2 = Inr p3" "at_text p3 t"
    by (rule advance_at [OF p2(2) t2 follow_lexable [OF assms(3)]])
  have "ty \<in> {TokenIdent, TokenString, TokenNumber, TokenDuration}" using v by (cases ty) (auto simp: plain_value_def)
  then show ?thesis
    using at_first [OF p t0] at_first [OF p1(2) t1] at_first [OF p2(2) t2] p1(1) p2(1) p3 f(3) op_token_simple
    by (simp add: parseComparison_def)
qed

lemma word_not_equals: "word f \<Longrightarrow> \<not> has_prefix (f @ u) ''=''"
  by (cases f) (auto simp: word_def isIdentStart_def unicode_IsLetter_def)

lemma node_not_equals: "plain x \<Longrightarrow> \<not> has_prefix (node_string x @ t) ''=''"
  using word_not_equals by (cases x) auto

lemma first_paren: "\<not> has_prefix u ''='' \<Longrightarrow> first_token (''('' @ u) TokenLParen ''('' u"
  using first_simple [of "''(''" TokenLParen u] by (simp add: simple_tokens_def)

lemma node_lexable: "plain x \<Longrightarrow> lexable (node_string x @ t)"
proof (cases x)
  case (ComparisonNode f op v ty)
  assume "plain x"
  then have "first_token (f @ op_string op @ v @ t) (keyword_type f) f (op_string op @ v @ t)"
    using ComparisonNode by (intro first_word op_stops) simp
  then show ?thesis using ComparisonNode first_lexable by fastforce
qed (use node_not_equals first_lexable [OF first_paren] first_lexable [OF first_keyword(3)] in force)+

lemma follow_parts: "follow ('' AND '' @ u)" "follow ('' OR '' @ u)" "\<not> has_prefix u ''='' \<Longrightarrow> follow ('')'' @ u)"
  by (auto simp: follow_def)

text \<open>The loops stop at a closing parenthesis, and take exactly one more operand before one.\<close>

lemma at_close:
  assumes "at_text p ('')'' @ t)" "follow t"
  obtains p' where "tok_type (current p) = TokenRParen" "advance p = Inr p'" "at_text p' t"
proof -
  have f: "first_token ('')'' @ t) TokenRParen '')'' t"
    using first_simple [of "'')''" TokenRParen t] follow_stops [OF assms(2)] by (simp add: simple_tokens_def)
  show ?thesis
    by (rule advance_at [OF assms(1) f follow_lexable [OF assms(2)]]) (use at_first(1) [OF assms(1) f] that in blast)
qed

lemma at_keyword:
  assumes "at_text p (CHR '' '' # s)" "first_token s ty v (CHR '' '' # u)" "lexable u"
  obtains p' where "tok_type (current p) = ty" "advance p = Inr p'" "at_text p' u"
proof -
  note p = at_blank [OF assms(1)]
  show ?thesis
    by (rule advance_at [OF p assms(2) blank_lexable [OF assms(3)]]) (use at_first(1) [OF p assms(2)] that at_blank in blast)
qed

definition reads_back :: "Node \<Rightarrow> bool" where
  "reads_back x =
    (\<forall>p t n. at_text p (node_string x @ t) \<longrightarrow> follow t \<longrightarrow> 6 * length (node_string x) \<le> n \<longrightarrow>
      (\<exists>p'. parseNot n p = Inr (x, p') \<and> at_text p' t))"

lemma reads_backE:
  assumes "reads_back x" "at_text p (node_string x @ t)" "follow t" "6 * length (node_string x) \<le> n"
  obtains p' where "parseNot n p = Inr (x, p')" "at_text p' t"
  using assms unfolding reads_back_def by blast

lemma read_back_comparison:
  assumes "plain (ComparisonNode f op v ty)"
  shows "reads_back (ComparisonNode f op v ty)"
  unfolding reads_back_def
proof (intro allI impI)
  fix p t n
  let ?x = "ComparisonNode f op v ty"
  assume a: "at_text p (node_string ?x @ t)" "follow t" "6 * length (node_string ?x) \<le> n"
  have "1 \<le> length f" using assms by (cases f) (simp_all add: word_def)
  then have "6 \<le> 6 * length (node_string ?x)" by simp
  with a(3) have "2 \<le> n" by simp
  then obtain m where n: "n = Suc (Suc m)" by (metis add_2_eq_Suc le_Suc_ex)
  have "tok_type (current p) = keyword_type f"
    using at_first(1) [OF _ first_word [OF _ op_stops]] a(1) assms by simp
  then have "tok_type (current p) = TokenIdent" using assms by simp
  with parseComparison_plain [OF assms a(1,2)] n
  show "\<exists>p'. parseNot n p = Inr (?x, p') \<and> at_text p' t" by simp
qed

lemma read_back_not:
  assumes "plain x" "reads_back x"
  shows "reads_back (NotNode x)"
  unfolding reads_back_def
proof (intro allI impI)
  fix p t n
  assume a: "at_text p (node_string (NotNode x) @ t)" "follow t" "6 * length (node_string (NotNode x)) \<le> n"
  have f: "first_token (''NOT '' @ node_string x @ t) TokenNot ''NOT'' ('' '' @ node_string x @ t)"
    by (rule first_keyword)
  have a1: "at_text p (''NOT '' @ node_string x @ t)" using a(1) by simp
  have "lexable ('' '' @ node_string x @ t)" using blank_lexable [OF node_lexable [OF assms(1), of t]] by simp
  then obtain p1 where p1: "advance p = Inr p1" "at_text p1 ('' '' @ node_string x @ t)"
    by (rule advance_at [OF a1 f])
  from p1(2) have b: "at_text p1 (node_string x @ t)" using at_blank by simp
  from a(3) obtain m where n: "n = Suc m" "6 * length (node_string x) \<le> m" by (cases n) auto
  obtain p2 where "parseNot m p1 = Inr (x, p2)" "at_text p2 t" by (rule reads_backE [OF assms(2) b a(2) n(2)])
  then show "\<exists>p'. parseNot n p = Inr (NotNode x, p') \<and> at_text p' t"
    using n p1(1) at_first(1) [OF a1 f] by simp
qed

text \<open>
  A parenthesised pair: what \<open>parseOr\<close> makes of \<open>l AND r\<close> and of \<open>l OR r\<close> before the closing
  parenthesis.
\<close>

lemma parseOr_and:
  assumes l: "reads_back l" and r: "reads_back r" "plain r" and t: "\<not> has_prefix t ''=''"
    and p: "at_text p (node_string l @ '' AND '' @ node_string r @ '')'' @ t)"
    and n: "6 * length (node_string l) + 6 * length (node_string r) + 5 \<le> n"
  shows "\<exists>p'. parseOr n p = Inr (AndNode l r, p') \<and> at_text p' ('')'' @ t)"
proof -
  obtain m where m: "n = Suc (Suc (Suc (Suc m)))" "6 * length (node_string l) \<le> m" "6 * length (node_string r) \<le> m"
    using n by (intro that [of "n - 4"]) auto
  have c: "follow ('')'' @ t)" by (rule follow_parts(3) [OF t])
  obtain p1 where p1: "parseNot (Suc (Suc m)) p = Inr (l, p1)" "at_text p1 ('' AND '' @ node_string r @ '')'' @ t)"
    by (rule reads_backE [OF l p follow_parts(1), of "Suc (Suc m)"]) (use m in simp_all)
  have k: "at_text p1 (CHR '' '' # (''AND '' @ node_string r @ '')'' @ t))" using p1(2) by simp
  have f: "first_token (''AND '' @ node_string r @ '')'' @ t) TokenAnd ''AND'' (CHR '' '' # (node_string r @ '')'' @ t))"
    using first_keyword(1) [of "node_string r @ '')'' @ t"] by simp
  obtain p2 where p2: "tok_type (current p1) = TokenAnd" "advance p1 = Inr p2" "at_text p2 (node_string r @ '')'' @ t)"
    by (rule at_keyword [OF k f node_lexable [OF r(2)]])
  obtain p3 where p3: "parseNot (Suc m) p2 = Inr (r, p3)" "at_text p3 ('')'' @ t)"
    by (rule reads_backE [OF r(1) p2(3) c, of "Suc m"]) (use m in simp_all)
  have "tok_type (current p3) = TokenRParen"
    using at_first(1) [OF p3(2)] first_simple [of "'')''" TokenRParen t] t by (simp add: simple_tokens_def)
  then show ?thesis using m(1) p1(1) p2(1,2) p3 by simp
qed

lemma parseOr_or:
  assumes l: "reads_back l" and r: "reads_back r" "plain r" and t: "\<not> has_prefix t ''=''"
    and p: "at_text p (node_string l @ '' OR '' @ node_string r @ '')'' @ t)"
    and n: "6 * length (node_string l) + 6 * length (node_string r) + 5 \<le> n"
  shows "\<exists>p'. parseOr n p = Inr (OrNode l r, p') \<and> at_text p' ('')'' @ t)"
proof -
  obtain m where m: "n = Suc (Suc (Suc (Suc m)))" "6 * length (node_string l) \<le> m" "6 * length (node_string r) \<le> m"
    using n by (intro that [of "n - 4"]) auto
  have c: "follow ('')'' @ t)" by (rule follow_parts(3) [OF t])
  obtain p1 where p1: "parseNot (Suc (Suc m)) p = Inr (l, p1)" "at_text p1 ('' OR '' @ node_string r @ '')'' @ t)"
    by (rule reads_backE [OF l p follow_parts(2), of "Suc (Suc m)"]) (use m in simp_all)
  have k: "at_text p1 (CHR '' '' # (''OR '' @ node_string r @ '')'' @ t))" using p1(2) by simp
  have f: "first_token (''OR '' @ node_string r @ '')'' @ t) TokenOr ''OR'' (CHR '' '' # (node_string r @ '')'' @ t))"
    using first_keyword(2) [of "node_string r @ '')'' @ t"] by simp
  obtain p2 where p2: "tok_type (current p1) = TokenOr" "advance p1 = Inr p2" "at_text p2 (node_string r @ '')'' @ t)"
    by (rule at_keyword [OF k f node_lexable [OF r(2)]])
  obtain p3 where p3: "parseNot (Suc m) p2 = Inr (r, p3)" "at_text p3 ('')'' @ t)"
    by (rule reads_backE [OF r(1) p2(3) c, of "Suc m"]) (use m in simp_all)
  have "tok_type (current p3) = TokenRParen"
    using at_first(1) [OF p3(2)] first_simple [of "'')''" TokenRParen t] t by (simp add: simple_tokens_def)
  then show ?thesis using m(1) p1(1) p2(1,2) p3 by simp
qed

text \<open>A parenthesised text is read through \<open>parsePrimary\<close>.\<close>

lemma parseNot_paren:
  assumes p: "at_text p (''('' @ u @ '')'' @ t)" and u: "\<not> has_prefix (u @ '')'' @ t) ''=''" "lexable (u @ '')'' @ t)"
    and t: "follow t"
    and r: "\<And>p1. at_text p1 (u @ '')'' @ t) \<Longrightarrow> \<exists>p'. parseOr n p1 = Inr (x, p') \<and> at_text p' ('')'' @ t)"
  shows "\<exists>p'. parseNot (Suc (Suc n)) p = Inr (x, p') \<and> at_text p' t"
proof -
  note f = first_paren [OF u(1)]
  obtain p1 where p1: "advance p = Inr p1" "at_text p1 (u @ '')'' @ t)" by (rule advance_at [OF p f u(2)])
  obtain p2 where p2: "parseOr n p1 = Inr (x, p2)" "at_text p2 ('')'' @ t)" using r [OF p1(2)] by blast
  obtain p3 where "tok_type (current p2) = TokenRParen" "advance p2 = Inr p3" "at_text p3 t"
    by (rule at_close [OF p2(2) t])
  then show ?thesis using p1(1) p2(1) at_first(1) [OF p f] by simp
qed

lemma read_back: "plain x \<Longrightarrow> reads_back x"
proof (induction x)
  case (AndNode l r)
  show ?case unfolding reads_back_def
  proof (intro allI impI)
    fix p t n
    assume a: "at_text p (node_string (AndNode l r) @ t)" "follow t" "6 * length (node_string (AndNode l r)) \<le> n"
    let ?u = "node_string l @ '' AND '' @ node_string r"
    obtain m where m: "n = Suc (Suc m)" "6 * length (node_string l) + 6 * length (node_string r) + 5 \<le> m"
      using a(3) by (intro that [of "n - 2"]) auto
    show "\<exists>p'. parseNot n p = Inr (AndNode l r, p') \<and> at_text p' t"
      unfolding m(1)
      by (rule parseNot_paren [where u = ?u])
        (use AndNode a m parseOr_and [of l r t _ m] node_not_equals [of l] node_lexable [of l] follow_stops [OF a(2)] in auto)
  qed
next
  case (OrNode l r)
  show ?case unfolding reads_back_def
  proof (intro allI impI)
    fix p t n
    assume a: "at_text p (node_string (OrNode l r) @ t)" "follow t" "6 * length (node_string (OrNode l r)) \<le> n"
    let ?u = "node_string l @ '' OR '' @ node_string r"
    obtain m where m: "n = Suc (Suc m)" "6 * length (node_string l) + 6 * length (node_string r) + 5 \<le> m"
      using a(3) by (intro that [of "n - 2"]) auto
    show "\<exists>p'. parseNot n p = Inr (OrNode l r, p') \<and> at_text p' t"
      unfolding m(1)
      by (rule parseNot_paren [where u = ?u])
        (use OrNode a m parseOr_or [of l r t _ m] node_not_equals [of l] node_lexable [of l] follow_stops [OF a(2)] in auto)
  qed
qed (auto simp del: plain.simps(1) intro: read_back_comparison read_back_not)

lemma parseNot_not_EOF: "parseNot n p = Inr r \<Longrightarrow> tok_type (current p) \<noteq> TokenEOF"
  by (cases n; cases "n - 1") (auto simp: parseComparison_def)

text \<open>
  C6: a query tree of plain words, numbers and durations is read back from its printed form: \<open>Parse\<close>
  applied to the text that \<open>String()\<close> makes of the tree gives the same tree, whatever the nesting of AND, OR
  and NOT.
\<close>

theorem Parse_String_roundtrip: "plain x \<Longrightarrow> Parse (node_string x) = Inr x"
proof -
  assume x: "plain x"
  let ?s = "node_string x" and ?m = "6 * length (node_string x) + 8"
  have l: "lexable ?s" using node_lexable [OF x, of "[]"] by simp
  have "rest (NewLexer ?s) = ?s" by (simp add: rest_def NewLexer_def)
  then obtain tok l1 where n: "NextToken (NewLexer ?s) = Inr (tok, l1)" using l by (auto simp: lexable_def)
  define p where "p = (NewParser ?s)\<lparr>current := tok, lexer := l1\<rparr>"
  have p: "advance (NewParser ?s) = Inr p" using n by (simp add: p_def advance_def NewParser_def)
  have a: "at_text p (?s @ [])"
    using n by (auto simp: at_text_def p_def NewParser_def rest_def NewLexer_def intro!: exI [of _ "NewLexer ?s"])
  obtain p' where p': "parseNot ?m p = Inr (x, p')" "at_text p' []"
    by (rule reads_backE [OF read_back [OF x] a, of ?m]) (simp_all add: follow_def)
  have e: "tok_type (current p') = TokenEOF" by (rule at_EOF [OF p'(2)])
  have "parseOr (Suc (Suc ?m)) p = Inr (x, p')" using p'(1) e by (simp add: numeral_eq_Suc)
  then have "parseOr (parse_fuel ?s) p = Inr (x, p')" by (simp add: parse_fuel_def add.commute)
  moreover have "tok_type (current p) \<noteq> TokenEOF" by (rule parseNot_not_EOF [OF p'(1)])
  ultimately show ?thesis using p e by (simp add: Parse_def Parser_Parse_def)
qed

theorem Parse_String_roundtrip_witness:
  "Parse (node_string
     (OrNode (AndNode (ComparisonNode ''status'' OpEquals ''open'' TokenIdent)
                      (NotNode (ComparisonNode ''priority'' OpGreaterEq ''2'' TokenNumber)))
             (ComparisonNode ''updated'' OpLess ''-7d'' TokenDuration)))
   = Inr (OrNode (AndNode (ComparisonNode ''status'' OpEquals ''open'' TokenIdent)
                      (NotNode (ComparisonNode ''priority'' OpGreaterEq ''2'' TokenNumber)))
             (ComparisonNode ''updated'' OpLess ''-7d'' TokenDuration))"
  by (rule Parse_String_roundtrip)
    (simp add: word_eval normalize_field_def to_lower_ascii byte_lower_def plain_value_def number_text_def
      duration_text_def unsigned_text_def is_digit_def isDurationSuffix_def)

end
