(* ===== verification/TimeParsing.thy ===== *)
theory TimeParsing
  imports GoTime
begin

text \<open>
  The layered time expressions of \<open>internal/timeparsing/parser.go\<close>: compact durations, absolute
  timestamps, and natural language. The natural-language parser is the package
  \<open>olebedev/when\<close>; it is the argument \<open>nlp\<close> of the definitions that call it, an error or an
  optional time for a text and a reference time.
\<close>

datatype time_error =
    NotCompactDuration string
  | InvalidDurationAmount string
  | NLPParseError string
  | NotNaturalLanguage string
  | CannotParseTime string

type_synonym nlp_parser = "string \<Rightarrow> Time \<Rightarrow> string + Time option"

text \<open>\<open>compactDurationRe\<close>: the sign, the digits and the unit of a match.\<close>

definition is_unit :: "string \<Rightarrow> bool" where
  "is_unit u = (u \<in> set [''min'', ''h'', ''d'', ''w'', ''m'', ''y''])"

definition compactDurationRe :: "string \<Rightarrow> (string \<times> string \<times> string) option" where
  "compactDurationRe s =
    (let sign = (if has_prefix s ''+'' \<or> has_prefix s ''-'' then take 1 s else []);
         rest = drop (length sign) s;
         digits = takeWhile is_digit rest;
         u = dropWhile is_digit rest
     in if digits \<noteq> [] \<and> is_unit u then Some (sign, digits, u) else None)"

definition applyDuration :: "Time \<Rightarrow> int \<Rightarrow> string \<Rightarrow> Time" where
  "applyDuration base amount u =
    (if u = ''min'' then Add base (wrap64 (amount * Minute))
     else if u = ''h'' then Add base (wrap64 (amount * Hour))
     else if u = ''d'' then AddDate base 0 0 amount
     else if u = ''w'' then AddDate base 0 0 (wrap64 (amount * 7))
     else if u = ''m'' then AddDate base 0 amount 0
     else if u = ''y'' then AddDate base amount 0 0
     else base)"

definition ParseCompactDuration :: "string \<Rightarrow> Time \<Rightarrow> time_error + Time" where
  "ParseCompactDuration s now =
    (case compactDurationRe s of
       None \<Rightarrow> Inl (NotCompactDuration s)
     | Some (sign, amountStr, u) \<Rightarrow>
         (case parse_int amountStr of
            None \<Rightarrow> Inl (InvalidDurationAmount amountStr)
          | Some amount \<Rightarrow> Inr (applyDuration now (if sign = ''-'' then - amount else amount) u)))"

definition isCompactDuration :: "string \<Rightarrow> bool" where
  "isCompactDuration s = (compactDurationRe s \<noteq> None)"

definition parseNaturalLanguage :: "nlp_parser \<Rightarrow> string \<Rightarrow> Time \<Rightarrow> time_error + Time" where
  "parseNaturalLanguage nlp s now =
    (case nlp s now of
       Inl e \<Rightarrow> Inl (NLPParseError e)
     | Inr None \<Rightarrow> Inl (NotNaturalLanguage s)
     | Inr (Some t) \<Rightarrow> Inr t)"

definition dateOnlyRe :: "string \<Rightarrow> bool" where
  "dateOnlyRe s =
    (length s = 10 \<and> list_all is_digit (take 4 s) \<and> s ! 4 = CHR ''-''
     \<and> list_all is_digit (take 2 (drop 5 s)) \<and> s ! 7 = CHR ''-'' \<and> list_all is_digit (drop 8 s))"

definition ParseRelativeTime :: "nlp_parser \<Rightarrow> string \<Rightarrow> Time \<Rightarrow> time_error + Time" where
  "ParseRelativeTime nlp s now =
    (let location = zone_offset now in
     case ParseCompactDuration s now of
       Inr t \<Rightarrow> Inr (UTC t)
     | Inl _ \<Rightarrow>
    (case (if dateOnlyRe s then ParseInLocation layout_date s location else None) of
       Some t \<Rightarrow> Inr (UTC t)
     | None \<Rightarrow>
    (case ParseInLocation layout_rfc3339 s 0 of
       Some t \<Rightarrow> Inr (UTC t)
     | None \<Rightarrow>
    (case ParseInLocation (layout_datetime CHR ''T'') s location of
       Some t \<Rightarrow> Inr (UTC t)
     | None \<Rightarrow>
    (case ParseInLocation (layout_datetime CHR '' '') s location of
       Some t \<Rightarrow> Inr (UTC t)
     | None \<Rightarrow>
    (case parseNaturalLanguage nlp s now of
       Inr t \<Rightarrow> Inr (UTC t)
     | Inl _ \<Rightarrow> Inl (CannotParseTime s)))))))"

section \<open>Lemmas\<close>

lemma is_unit_no_digit: "is_unit u \<Longrightarrow> takeWhile is_digit u = [] \<and> u \<noteq> []"
  by (auto simp: is_unit_def is_digit_def)

lemma takeWhile_digits_unit:
  assumes "list_all is_digit ds" "is_unit u"
  shows "takeWhile is_digit (ds @ u) = ds \<and> dropWhile is_digit (ds @ u) = u"
proof -
  obtain c r where u: "u = c # r" using is_unit_no_digit [OF assms(2)] by (cases u) auto
  then have "\<not> is_digit c" using is_unit_no_digit [OF assms(2)] by (auto split: if_splits)
  with u assms(1) show ?thesis by (simp add: list_all_iff takeWhile_append2 dropWhile_append2)
qed

text \<open>A sign, digits and a unit are matched as such.\<close>

lemma compactDurationRe_compose:
  assumes "list_all is_digit ds" "ds \<noteq> []" "is_unit u" "sign = [] \<or> sign = ''+'' \<or> sign = ''-''"
  shows "compactDurationRe (sign @ ds @ u) = Some (sign, ds, u)"
proof -
  obtain c r where ds: "ds = c # r" using assms(2) by (cases ds) auto
  with assms(1) have "is_digit c" by simp
  then have "c \<noteq> CHR ''+''" "c \<noteq> CHR ''-''" by (auto simp: is_digit_def)
  with ds assms(4) have
    "(if has_prefix (sign @ ds @ u) ''+'' \<or> has_prefix (sign @ ds @ u) ''-''
      then take 1 (sign @ ds @ u) else []) = sign"
    by auto
  then show ?thesis
    unfolding compactDurationRe_def Let_def
    using takeWhile_digits_unit [OF assms(1,3)] assms(2,3) by simp
qed

lemma ParseCompactDuration_compose:
  assumes "int n \<le> max_int64" "is_unit u" "sign = [] \<or> sign = ''+'' \<or> sign = ''-''"
  shows "ParseCompactDuration (sign @ nat_to_string n @ u) now =
         Inr (applyDuration now (if sign = ''-'' then - int n else int n) u)"
proof -
  have "parse_int (nat_to_string n) = Some (int n)"
    using parse_int_to_string [of "int n"] assms(1)
    by (simp add: int_to_string_def int64_range_def min_int64_def)
  moreover have "compactDurationRe (sign @ nat_to_string n @ u) = Some (sign, nat_to_string n, u)"
    by (rule compactDurationRe_compose) (use assms nat_to_string_digits in simp_all)
  ultimately show ?thesis
    unfolding ParseCompactDuration_def by simp
qed

lemma ParseRelativeTime_compact:
  "ParseCompactDuration s now = Inr t \<Longrightarrow> ParseRelativeTime nlp s now = Inr (UTC t)"
  by (simp add: ParseRelativeTime_def Let_def)

text \<open>Dates as \<open>Time.Format("2006-01-02")\<close> prints them for the years 0 to 9999.\<close>

definition two_digits :: "nat \<Rightarrow> string" where
  "two_digits n = [digit_char (n div 10), digit_char (n mod 10)]"

definition format_date :: "nat \<Rightarrow> nat \<Rightarrow> nat \<Rightarrow> string" where
  "format_date y m d =
     two_digits (y div 100) @ two_digits (y mod 100) @ ''-'' @ two_digits m @ ''-'' @ two_digits d"

lemma digit_char_is_digit: "d < 10 \<Longrightarrow> is_digit (digit_char d) \<and> code (digit_char d) - 48 = d"
  by (simp add: digit_char_def is_digit_def of_char_of take_bit_eq_mod)

lemma two_digits_props:
  assumes "n < 100"
  shows "list_all is_digit (two_digits n)" "length (two_digits n) = 2"
    "getnum (two_digits n @ r) True = Some (int n, r)"
    "digits_value a (two_digits n) = a * 100 + n"
proof -
  have d: "n div 10 < 10" "n mod 10 < 10" using assms by auto
  note dc = digit_char_is_digit [OF d(1)] digit_char_is_digit [OF d(2)]
  show "list_all is_digit (two_digits n)" "length (two_digits n) = 2"
    using dc by (auto simp: two_digits_def)
  have "int (n div 10) * 10 + int (n mod 10) = int n" by presburger
  with dc show "getnum (two_digits n @ r) True = Some (int n, r)"
    by (simp add: two_digits_def getnum_def)
  have "(a * 10 + n div 10) * 10 + n mod 10 = a * 100 + n" by simp
  with dc show "digits_value a (two_digits n) = a * 100 + n"
    by (simp add: two_digits_def)
qed

lemma parse_date_format:
  assumes "y < 10000" "1 \<le> m" "m \<le> 12" "d < 100"
  shows "parse_elems layout_date p (format_date y m d) =
         Some (p\<lparr>p_year := int y, p_month := int m, p_day := int d\<rparr>)"
proof -
  have h: "y div 100 < 100" "y mod 100 < 100" "m < 100" using assms by auto
  note ps = two_digits_props [OF h(1)] two_digits_props [OF h(2)]
    two_digits_props [OF h(3)] two_digits_props [OF assms(4)]
  have four: "take 4 (two_digits (y div 100) @ two_digits (y mod 100) @ r)
                = two_digits (y div 100) @ two_digits (y mod 100)"
    "drop 4 (two_digits (y div 100) @ two_digits (y mod 100) @ r) = r" for r
    using ps(2,6) by simp_all
  have v: "digits_value 0 (two_digits (y div 100) @ two_digits (y mod 100)) = y"
    using ps(4,8) by (simp add: digits_value_append)
  have "getnum (two_digits d) True = Some (int d, [])" using ps(15) [of "[]"] by simp
  then show ?thesis
    using assms ps(1,2,3,5,6,7,11)
    by (simp add: layout_date_def format_date_def parse_elem_def four v skip_lit_def)
qed

lemma format_date_append_not_compact:
  assumes "y < 10000"
  shows "ParseCompactDuration (format_date y m d @ q) now = Inl (NotCompactDuration (format_date y m d @ q))"
proof -
  have h: "y div 100 < 100" "y mod 100 < 100" using assms by auto
  note ps = two_digits_props [OF h(1)] two_digits_props [OF h(2)]
  let ?ds = "two_digits (y div 100) @ two_digits (y mod 100)"
  let ?r = "''-'' @ two_digits m @ ''-'' @ two_digits d @ q"
  have ds: "list_all is_digit ?ds" using ps by simp
  have "\<not> is_digit CHR ''-''" by (simp add: is_digit_def)
  then have tw: "takeWhile is_digit (?ds @ ?r) = ?ds" "dropWhile is_digit (?ds @ ?r) = ?r"
    using ds by (simp_all add: list_all_iff takeWhile_append2 dropWhile_append2)
  have "is_digit (digit_char (y div 100 div 10))" using h digit_char_is_digit by simp
  then have "digit_char (y div 100 div 10) \<noteq> CHR ''+''" "digit_char (y div 100 div 10) \<noteq> CHR ''-''"
    by (auto simp: is_digit_def)
  then have "\<not> has_prefix (?ds @ ?r) ''+''" "\<not> has_prefix (?ds @ ?r) ''-''"
    by (auto simp: two_digits_def)
  moreover have "format_date y m d @ q = ?ds @ ?r" by (simp add: format_date_def)
  moreover have "\<not> is_unit ?r" by (simp add: is_unit_def)
  ultimately have "compactDurationRe (format_date y m d @ q) = None"
    unfolding compactDurationRe_def Let_def using tw by simp
  then show ?thesis by (simp add: ParseCompactDuration_def)
qed

lemmas format_date_not_compact = format_date_append_not_compact [where q = "[]", simplified]

lemma format_date_dateOnly:
  assumes "y < 10000" "m < 100" "d < 100"
  shows "dateOnlyRe (format_date y m d)"
proof -
  have h: "y div 100 < 100" "y mod 100 < 100" using assms by auto
  note ps = two_digits_props(1) [OF h(1)] two_digits_props(1) [OF h(2)]
    two_digits_props(1) [OF assms(2)] two_digits_props(1) [OF assms(3)]
  then show ?thesis by (simp add: dateOnlyRe_def format_date_def two_digits_def)
qed

text \<open>The units of fixed length, in nanoseconds.\<close>

definition unit_nanos :: "string \<Rightarrow> int" where
  "unit_nanos u =
    (if u = ''min'' then 60 * nano else if u = ''h'' then 3600 * nano
     else if u = ''d'' then 86400 * nano else 604800 * nano)"

lemma applyDuration_fixed:
  assumes "u \<in> set [''min'', ''h'', ''d'', ''w'']" "\<bar>a * unit_nanos u\<bar> \<le> max_int64"
  shows "applyDuration t a u = Add t (a * unit_nanos u)"
proof -
  have w: "wrap64 (a * k) = a * k" if "0 \<le> k" "k \<le> unit_nanos u" for k
  proof -
    have "\<bar>a * k\<bar> \<le> \<bar>a * unit_nanos u\<bar>"
      using that by (simp add: abs_mult mult_left_mono)
    with assms(2) show ?thesis
      by (intro wrap64_id) (auto simp: int64_range_def min_int64_def max_int64_def)
  qed
  consider "u = ''min''" | "u = ''h''" | "u = ''d''" | "u = ''w''" using assms(1) by auto
  then show ?thesis
  proof cases
    case 1
    then show ?thesis using w [of Minute] by (simp add: applyDuration_def Minute_def unit_nanos_def nano_def)
  next
    case 2
    then show ?thesis using w [of Hour] by (simp add: applyDuration_def Hour_def unit_nanos_def nano_def)
  next
    case 3
    then show ?thesis by (simp add: applyDuration_def unit_nanos_def AddDate_days nano_def mult.commute)
  next
    case 4
    then show ?thesis using w [of 7]
      by (simp add: applyDuration_def unit_nanos_def AddDate_days nano_def mult.commute)
  qed
qed

section \<open>Properties\<close>






end
