(* ===== verification/SqlPred.thy ===== *)
theory SqlPred
  imports GoTime
begin

text \<open>
  The fragment of SQL that the query builders of \<open>internal/storage/sqlbuild\<close> write: predicates of a
  WHERE clause, as syntax trees. A tree has three readings. \<open>pred_text\<close> is the text that the code
  sends, with a question mark for every bound argument; \<open>pred_args\<close> is the argument list that goes
  with it, in the order of the marks; \<open>pred_val\<close> is the SQL meaning on a row, in three-valued
  logic with \<^const>\<open>None\<close> for UNKNOWN.

  Strings compare by bytes, the binary collation the sources rely on. What depends on the engine
  and is not in the repository (LOWER beyond ASCII, REGEXP, the JSON functions and the reading of a
  time literal) is the argument \<open>engine\<close>.
\<close>

datatype sql_val = VNull | VStr string | VInt int | VTime int

datatype sx =
    Col string
  | Arg sql_val
  | Const string sql_val
  | FnLower sx
  | FnConcat sx sx
  | FnCoalesce "sx list"
  | FnJsonExtract sx sx
  | FnJsonUnquote sx

datatype pred =
    Cmp sx string sx
  | LikeP sx sx
  | LikeEscP sx sx
  | RegexpP sx sx
  | NullP bool sx
  | InList bool sx string "sx list"
  | InSel bool sx string string pred
  | InAll bool sx string string
  | OrP "pred list"
  | AndP "pred list"
  | ConjP "pred list"
  | ParenP pred
  | Never

section \<open>The text and the arguments\<close>

fun sx_text :: "sx \<Rightarrow> string" where
  "sx_text (Col c) = c"
| "sx_text (Arg v) = ''?''"
| "sx_text (Const t v) = t"
| "sx_text (FnLower x) = ''LOWER('' @ sx_text x @ '')''"
| "sx_text (FnConcat x y) = ''CONCAT('' @ sx_text x @ '', '' @ sx_text y @ '')''"
| "sx_text (FnCoalesce xs) = ''COALESCE('' @ join (map sx_text xs) '', '' @ '')''"
| "sx_text (FnJsonExtract x y) = ''JSON_EXTRACT('' @ sx_text x @ '', '' @ sx_text y @ '')''"
| "sx_text (FnJsonUnquote x) = ''JSON_UNQUOTE('' @ sx_text x @ '')''"

fun sx_args :: "sx \<Rightarrow> sql_val list" where
  "sx_args (Col c) = []"
| "sx_args (Arg v) = [v]"
| "sx_args (Const t v) = []"
| "sx_args (FnLower x) = sx_args x"
| "sx_args (FnConcat x y) = sx_args x @ sx_args y"
| "sx_args (FnCoalesce xs) = concat (map sx_args xs)"
| "sx_args (FnJsonExtract x y) = sx_args x @ sx_args y"
| "sx_args (FnJsonUnquote x) = sx_args x"

definition in_word :: "bool \<Rightarrow> string" where
  "in_word neg = (if neg then '' NOT IN ('' else '' IN ('')"

fun pred_text :: "pred \<Rightarrow> string" where
  "pred_text (Cmp x op y) = sx_text x @ '' '' @ op @ '' '' @ sx_text y"
| "pred_text (LikeP x y) = sx_text x @ '' LIKE '' @ sx_text y"
| "pred_text (LikeEscP x y) = sx_text x @ '' LIKE '' @ sx_text y @ '' ESCAPE '' @ [CHR 39] @ ''|'' @ [CHR 39]"
| "pred_text (RegexpP x y) = sx_text x @ '' REGEXP '' @ sx_text y"
| "pred_text (NullP neg x) = sx_text x @ (if neg then '' IS NOT NULL'' else '' IS NULL'')"
| "pred_text (InList neg x sep ys) = sx_text x @ in_word neg @ join (map sx_text ys) sep @ '')''"
| "pred_text (InSel neg x col tab p) =
    sx_text x @ in_word neg @ ''SELECT '' @ col @ '' FROM '' @ tab @ '' WHERE '' @ pred_text p @ '')''"
| "pred_text (InAll neg x col tab) = sx_text x @ in_word neg @ ''SELECT '' @ col @ '' FROM '' @ tab @ '')''"
| "pred_text (OrP ps) = ''('' @ join (map pred_text ps) '' OR '' @ '')''"
| "pred_text (AndP ps) = ''('' @ join (map pred_text ps) '' AND '' @ '')''"
| "pred_text (ConjP ps) = join (map pred_text ps) '' AND ''"
| "pred_text (ParenP p) = ''('' @ pred_text p @ '')''"
| "pred_text Never = ''1=0''"

fun pred_args :: "pred \<Rightarrow> sql_val list" where
  "pred_args (Cmp x op y) = sx_args x @ sx_args y"
| "pred_args (LikeP x y) = sx_args x @ sx_args y"
| "pred_args (LikeEscP x y) = sx_args x @ sx_args y"
| "pred_args (RegexpP x y) = sx_args x @ sx_args y"
| "pred_args (NullP neg x) = sx_args x"
| "pred_args (InList neg x sep ys) = sx_args x @ concat (map sx_args ys)"
| "pred_args (InSel neg x col tab p) = sx_args x @ pred_args p"
| "pred_args (InAll neg x col tab) = sx_args x"
| "pred_args (OrP ps) = concat (map pred_args ps)"
| "pred_args (AndP ps) = concat (map pred_args ps)"
| "pred_args (ConjP ps) = concat (map pred_args ps)"
| "pred_args (ParenP p) = pred_args p"
| "pred_args Never = []"

text \<open>
  A predicate is well bound when its text has one question mark for every argument. That is so as
  soon as the fixed parts (columns, literals, operators, separators, table names) have none.
\<close>

definition marks :: "string \<Rightarrow> nat" where
  "marks s = count_list s (CHR ''?'')"

fun clean_sx :: "sx \<Rightarrow> bool" where
  "clean_sx (Col c) = (marks c = 0)"
| "clean_sx (Arg v) = True"
| "clean_sx (Const t v) = (marks t = 0)"
| "clean_sx (FnLower x) = clean_sx x"
| "clean_sx (FnConcat x y) = (clean_sx x \<and> clean_sx y)"
| "clean_sx (FnCoalesce xs) = list_all clean_sx xs"
| "clean_sx (FnJsonExtract x y) = (clean_sx x \<and> clean_sx y)"
| "clean_sx (FnJsonUnquote x) = clean_sx x"

fun clean :: "pred \<Rightarrow> bool" where
  "clean (Cmp x op y) = (clean_sx x \<and> marks op = 0 \<and> clean_sx y)"
| "clean (LikeP x y) = (clean_sx x \<and> clean_sx y)"
| "clean (LikeEscP x y) = (clean_sx x \<and> clean_sx y)"
| "clean (RegexpP x y) = (clean_sx x \<and> clean_sx y)"
| "clean (NullP neg x) = clean_sx x"
| "clean (InList neg x sep ys) = (clean_sx x \<and> marks sep = 0 \<and> list_all clean_sx ys)"
| "clean (InSel neg x col tab p) = (clean_sx x \<and> marks col = 0 \<and> marks tab = 0 \<and> clean p)"
| "clean (InAll neg x col tab) = (clean_sx x \<and> marks col = 0 \<and> marks tab = 0)"
| "clean (OrP ps) = list_all clean ps"
| "clean (AndP ps) = list_all clean ps"
| "clean (ConjP ps) = list_all clean ps"
| "clean (ParenP p) = clean p"
| "clean Never = True"

lemma marks_simps [simp]:
  "marks [] = 0" "marks (c # s) = (if c = CHR ''?'' then Suc (marks s) else marks s)" "marks (s @ t) = marks s + marks t"
  by (simp_all add: marks_def)

lemma marks_join: "marks sep = 0 \<Longrightarrow> marks (join xs sep) = sum_list (map marks xs)"
  by (induction xs sep rule: join.induct) auto

lemma sx_bound: "clean_sx x \<Longrightarrow> marks (sx_text x) = length (sx_args x)"
  by (induction x) (auto simp: marks_join length_concat list_all_iff comp_def cong: map_cong)

lemma pred_bound: "clean p \<Longrightarrow> marks (pred_text p) = length (pred_args p)"
  by (induction p) (auto simp: marks_join length_concat list_all_iff comp_def sx_bound in_word_def cong: map_cong)

section \<open>The meaning\<close>

record engine =
  e_lower :: "string \<Rightarrow> string"
  e_regexp :: "string \<Rightarrow> string \<Rightarrow> bool"
  e_time :: "string \<Rightarrow> int option"
  e_json_extract :: "sql_val \<Rightarrow> sql_val \<Rightarrow> sql_val"
  e_json_unquote :: "sql_val \<Rightarrow> sql_val"

text \<open>An engine to evaluate examples on: LOWER as in Go, and no regular expressions, times or JSON.\<close>

definition example_engine :: engine where
  "example_engine =
    \<lparr>e_lower = to_lower, e_regexp = (\<lambda>_ _. False), e_time = (\<lambda>_. None), e_json_extract = (\<lambda>_ _. VNull),
     e_json_unquote = (\<lambda>v. v)\<rparr>"

type_synonym row = "string \<Rightarrow> sql_val"
type_synonym db = "string \<Rightarrow> row list"

definition first_non_null :: "sql_val list \<Rightarrow> sql_val" where
  "first_non_null vs = (case find (\<lambda>v. v \<noteq> VNull) vs of Some v \<Rightarrow> v | None \<Rightarrow> VNull)"

fun sx_val :: "engine \<Rightarrow> row \<Rightarrow> sx \<Rightarrow> sql_val" where
  "sx_val e r (Col c) = r c"
| "sx_val e r (Arg v) = v"
| "sx_val e r (Const t v) = v"
| "sx_val e r (FnLower x) = (case sx_val e r x of VStr s \<Rightarrow> VStr (e_lower e s) | v \<Rightarrow> v)"
| "sx_val e r (FnConcat x y) =
    (case (sx_val e r x, sx_val e r y) of (VStr s, VStr t) \<Rightarrow> VStr (s @ t) | _ \<Rightarrow> VNull)"
| "sx_val e r (FnCoalesce xs) = first_non_null (map (sx_val e r) xs)"
| "sx_val e r (FnJsonExtract x y) = e_json_extract e (sx_val e r x) (sx_val e r y)"
| "sx_val e r (FnJsonUnquote x) = e_json_unquote e (sx_val e r x)"

text \<open>The comparison operators on a linear order.\<close>

definition ord_op :: "string \<Rightarrow> 'a::linorder \<Rightarrow> 'a \<Rightarrow> bool" where
  "ord_op op x y =
    (if op = ''='' then x = y else if op = ''<'' then x < y else if op = ''<='' then x \<le> y
     else if op = ''>'' then x > y else if op = ''>='' then x \<ge> y else x \<noteq> y)"

fun vcmp :: "engine \<Rightarrow> string \<Rightarrow> sql_val \<Rightarrow> sql_val \<Rightarrow> bool option" where
  "vcmp e op (VStr x) (VStr y) = Some (ord_op op x y)"
| "vcmp e op (VInt x) (VInt y) = Some (ord_op op x y)"
| "vcmp e op (VTime x) (VTime y) = Some (ord_op op x y)"
| "vcmp e op (VTime x) (VStr s) = map_option (ord_op op x) (e_time e s)"
| "vcmp e op _ _ = None"

text \<open>
  LIKE on characters: per cent matches any run, underscore one character, and the escape character
  takes the next one literally. Without an ESCAPE clause the escape character is the backslash.
\<close>

function like :: "nat \<Rightarrow> nat list \<Rightarrow> nat list \<Rightarrow> bool" where
  "like esc [] s = (s = [])"
| "like esc (p # ps) s =
    (if p = esc then (case (ps, s) of (q # qs, c # cs) \<Rightarrow> c = q \<and> like esc qs cs | _ \<Rightarrow> False)
     else if p = 37 then like esc ps s \<or> (case s of c # cs \<Rightarrow> like esc (p # ps) cs | [] \<Rightarrow> False)
     else if p = 95 then (case s of c # cs \<Rightarrow> like esc ps cs | [] \<Rightarrow> False)
     else (case s of c # cs \<Rightarrow> c = p \<and> like esc ps cs | [] \<Rightarrow> False))"
  by pat_completeness auto
termination by (relation "measure (\<lambda>(esc, ps, s). length ps + length s)") auto

definition vlike :: "nat \<Rightarrow> sql_val \<Rightarrow> sql_val \<Rightarrow> bool option" where
  "vlike esc v w =
    (case (v, w) of (VStr s, VStr p) \<Rightarrow> Some (like esc (map fst (rune_chunks p)) (map fst (rune_chunks s))) | _ \<Rightarrow> None)"

definition or3 :: "bool option list \<Rightarrow> bool option" where
  "or3 vs = (if Some True \<in> set vs then Some True else if None \<in> set vs then None else Some False)"

definition and3 :: "bool option list \<Rightarrow> bool option" where
  "and3 vs = (if Some False \<in> set vs then Some False else if None \<in> set vs then None else Some True)"

definition not_if :: "bool \<Rightarrow> bool option \<Rightarrow> bool option" where
  "not_if neg v = (if neg then map_option Not v else v)"

fun pred_val :: "engine \<Rightarrow> db \<Rightarrow> row \<Rightarrow> pred \<Rightarrow> bool option" where
  "pred_val e d r (Cmp x op y) = vcmp e op (sx_val e r x) (sx_val e r y)"
| "pred_val e d r (LikeP x y) = vlike 92 (sx_val e r x) (sx_val e r y)"
| "pred_val e d r (LikeEscP x y) = vlike 124 (sx_val e r x) (sx_val e r y)"
| "pred_val e d r (RegexpP x y) =
    (case (sx_val e r x, sx_val e r y) of (VStr s, VStr p) \<Rightarrow> Some (e_regexp e p s) | _ \<Rightarrow> None)"
| "pred_val e d r (NullP neg x) = Some ((sx_val e r x = VNull) \<noteq> neg)"
| "pred_val e d r (InList neg x sep ys) = not_if neg (or3 (map (\<lambda>y. vcmp e ''='' (sx_val e r x) (sx_val e r y)) ys))"
| "pred_val e d r (InSel neg x col tab p) =
    not_if neg (or3 (map (\<lambda>r'. vcmp e ''='' (sx_val e r x) (r' col))
      (filter (\<lambda>r'. pred_val e d r' p = Some True) (d tab))))"
| "pred_val e d r (InAll neg x col tab) =
    not_if neg (or3 (map (\<lambda>r'. vcmp e ''='' (sx_val e r x) (r' (trim_prefix col ''DISTINCT ''))) (d tab)))"
| "pred_val e d r (OrP ps) = or3 (map (pred_val e d r) ps)"
| "pred_val e d r (AndP ps) = and3 (map (pred_val e d r) ps)"
| "pred_val e d r (ConjP ps) = and3 (map (pred_val e d r) ps)"
| "pred_val e d r (ParenP p) = pred_val e d r p"
| "pred_val e d r Never = Some False"

text \<open>A WHERE clause keeps a row when the conjunction of its predicates is TRUE.\<close>

definition selects :: "engine \<Rightarrow> db \<Rightarrow> pred list \<Rightarrow> row \<Rightarrow> bool" where
  "selects e d ps r = list_all (\<lambda>p. pred_val e d r p = Some True) ps"

lemma or3_True: "or3 vs = Some True \<longleftrightarrow> Some True \<in> set vs"
  by (simp add: or3_def)

lemma and3_True: "and3 vs = Some True \<longleftrightarrow> set vs \<subseteq> {Some True}"
proof -
  have "v = Some True \<or> v = Some False \<or> v = None" for v :: "bool option"
    by (cases v) auto
  then show ?thesis by (auto simp: and3_def subset_iff)
qed

lemma pred_val_Or: "pred_val e d r (OrP ps) = Some True \<longleftrightarrow> (\<exists>p\<in>set ps. pred_val e d r p = Some True)"
  by (force simp: or3_True)

lemma pred_val_And: "pred_val e d r (AndP ps) = Some True \<longleftrightarrow> list_all (\<lambda>p. pred_val e d r p = Some True) ps"
  by (auto simp: and3_True list_all_iff)

lemma selects_append [simp]: "selects e d (ps @ qs) r \<longleftrightarrow> selects e d ps r \<and> selects e d qs r"
  by (simp add: selects_def)

lemma selects_Nil [simp]: "selects e d [] r"
  by (simp add: selects_def)

lemma selects_Cons [simp]: "selects e d (p # ps) r \<longleftrightarrow> pred_val e d r p = Some True \<and> selects e d ps r"
  by (simp add: selects_def)

end
