(* ===== verification/SqlFilter.thy ===== *)
theory SqlFilter
  imports SqlPred IssueTypes
begin

text \<open>
  The WHERE clauses of an issue search, \<open>internal/storage/sqlbuild/filter.go\<close>, \<open>labels.go\<close> and
  \<open>sqlbuild.go\<close>: the filter of \<open>internal/types/types.go\<close>, the metadata keys of
  \<open>internal/storage/metadata.go\<close>, and the clause builders. A builder returns predicates of
  \<^theory_text>\<open>SqlPred\<close>; the text and the arguments that the code returns are their two readings.

  A Go map from strings to strings is an association list. The instant that \<open>time.Now\<close> gives is
  the argument \<open>now\<close>.
\<close>

record IssueFilter =
  fStatus :: "Status option"
  fStatuses :: "Status list"
  fPriority :: "int option"
  fIssueType :: "IssueType option"
  fAssignee :: "string option"
  fLabels :: "string list"
  fLabelsAny :: "string list"
  fExcludeLabels :: "string list"
  fLabelPattern :: string
  fLabelRegex :: string
  fTitleSearch :: string
  fIDs :: "string list"
  fIDPrefix :: string
  fSpecIDPrefix :: string
  fLimit :: int
  fTitleContains :: string
  fDescriptionContains :: string
  fNotesContains :: string
  fExternalRefContains :: string
  fExternalRef :: "string option"
  fCreatedAfter :: "Time option"
  fCreatedBefore :: "Time option"
  fUpdatedAfter :: "Time option"
  fUpdatedBefore :: "Time option"
  fClosedAfter :: "Time option"
  fClosedBefore :: "Time option"
  fStartedAfter :: "Time option"
  fStartedBefore :: "Time option"
  fAfterCreatedAt :: "Time option"
  fAfterID :: string
  fAfterPriority :: "int option"
  fEmptyDescription :: bool
  fNoAssignee :: bool
  fNoLabels :: bool
  fPriorityMin :: "int option"
  fPriorityMax :: "int option"
  fSourceRepo :: "string option"
  fEphemeral :: "bool option"
  fEphemeralTier :: "bool option"
  fPinned :: "bool option"
  fIsBlocked :: "bool option"
  fIsTemplate :: "bool option"
  fParentID :: "string option"
  fNoParent :: bool
  fMolType :: "MolType option"
  fWispType :: "WispType option"
  fExcludeStatus :: "Status list"
  fExcludeTypes :: "IssueType list"
  fDeferred :: bool
  fDeferAfter :: "Time option"
  fDeferBefore :: "Time option"
  fDueAfter :: "Time option"
  fDueBefore :: "Time option"
  fOverdue :: bool
  fMetadataFields :: "(string \<times> string) list"
  fHasMetadataKey :: string
  fIncludeDependencies :: bool
  fSkipLabels :: bool
  fSkipCounts :: bool
  fSkipWisps :: bool
  fNoIDShrink :: bool
  fOffset :: int
  fSortBy :: string
  fSortDesc :: bool
  fMaxRows :: int
  fMaxRowsSource :: string
  fLite :: bool

definition IssueFilter_zero :: IssueFilter where
  "IssueFilter_zero = \<lparr>fStatus = None, fStatuses = [], fPriority = None, fIssueType = None, fAssignee = None,
     fLabels = [], fLabelsAny = [], fExcludeLabels = [], fLabelPattern = [], fLabelRegex = [],
     fTitleSearch = [], fIDs = [], fIDPrefix = [], fSpecIDPrefix = [], fLimit = 0,
     fTitleContains = [], fDescriptionContains = [], fNotesContains = [],
     fExternalRefContains = [], fExternalRef = None, fCreatedAfter = None,
     fCreatedBefore = None, fUpdatedAfter = None, fUpdatedBefore = None, fClosedAfter = None,
     fClosedBefore = None, fStartedAfter = None, fStartedBefore = None,
     fAfterCreatedAt = None, fAfterID = [], fAfterPriority = None, fEmptyDescription = False,
     fNoAssignee = False, fNoLabels = False, fPriorityMin = None, fPriorityMax = None,
     fSourceRepo = None, fEphemeral = None, fEphemeralTier = None, fPinned = None,
     fIsBlocked = None, fIsTemplate = None, fParentID = None, fNoParent = False,
     fMolType = None, fWispType = None, fExcludeStatus = [], fExcludeTypes = [],
     fDeferred = False, fDeferAfter = None, fDeferBefore = None, fDueAfter = None,
     fDueBefore = None, fOverdue = False, fMetadataFields = [], fHasMetadataKey = [],
     fIncludeDependencies = False, fSkipLabels = False, fSkipCounts = False,
     fSkipWisps = False, fNoIDShrink = False, fOffset = 0, fSortBy = [], fSortDesc = False,
     fMaxRows = 0, fMaxRowsSource = [], fLite = False\<rparr>"

record FilterTables =
  Main :: string
  LabelsTab :: string
  DependenciesTab :: string
  CommentsTab :: string

definition IssuesFilterTables :: FilterTables where
  "IssuesFilterTables =
    \<lparr>Main = ''issues'', LabelsTab = ''labels'', DependenciesTab = ''dependencies'', CommentsTab = ''comments''\<rparr>"

definition WispsFilterTables :: FilterTables where
  "WispsFilterTables =
    \<lparr>Main = ''wisps'', LabelsTab = ''wisp_labels'', DependenciesTab = ''wisp_dependencies'', CommentsTab = ''wisp_comments''\<rparr>"

definition OptionalWispTable :: "string \<Rightarrow> bool" where
  "OptionalWispTable name = (equal_fold name ''wisps'' \<or> equal_fold name ''wisp_dependencies'')"

section \<open>Metadata keys\<close>

datatype sql_error = InvalidMetadataKey string

definition ascii_letter :: "char \<Rightarrow> bool" where
  "ascii_letter c = ((65 \<le> code c \<and> code c \<le> 90) \<or> (97 \<le> code c \<and> code c \<le> 122))"

definition validMetadataKeyRe :: "string \<Rightarrow> bool" where
  "validMetadataKeyRe s =
    (case s of [] \<Rightarrow> False
     | c # cs \<Rightarrow> (ascii_letter c \<or> c = CHR ''_'')
         \<and> list_all (\<lambda>c. ascii_letter c \<or> is_digit c \<or> c \<in> set ''_./'') cs)"

definition ValidateMetadataKey :: "string \<Rightarrow> sql_error option" where
  "ValidateMetadataKey key = (if validMetadataKeyRe key then None else Some (InvalidMetadataKey key))"

definition jsonPathEscaper :: "string \<Rightarrow> string" where
  "jsonPathEscaper s = concat (map (\<lambda>c. if c = CHR 92 \<or> c = CHR 34 then [CHR 92, c] else [c]) s)"

definition JSONMetadataPath :: "string \<Rightarrow> string" where
  "JSONMetadataPath key = ''$.'' @ [CHR 34] @ jsonPathEscaper key @ [CHR 34]"

section \<open>Pieces of clauses\<close>

definition lit_str :: "string \<Rightarrow> sx" where
  "lit_str s = Const ([CHR 39] @ s @ [CHR 39]) (VStr s)"

definition lit_int :: "nat \<Rightarrow> sx" where
  "lit_int n = Const (nat_to_string n) (VInt (int n))"

abbreviation arg_str :: "string \<Rightarrow> sx" where
  "arg_str s \<equiv> Arg (VStr s)"

definition InPlaceholders :: "string list \<Rightarrow> string \<times> sql_val list" where
  "InPlaceholders values = (join (map (\<lambda>_. ''?'') values) '','', map VStr values)"

definition CompactNonEmptyStrings :: "string list \<Rightarrow> string list" where
  "CompactNonEmptyStrings values = filter (\<lambda>v. v \<noteq> []) values"

definition in_args :: "bool \<Rightarrow> string \<Rightarrow> string \<Rightarrow> string list \<Rightarrow> pred" where
  "in_args neg col sep vs = InList neg (Col col) sep (map arg_str vs)"

definition DepTargetExpr :: sx where
  "DepTargetExpr = FnCoalesce [Col ''depends_on_issue_id'', Col ''depends_on_wisp_id'', Col ''depends_on_external'']"

definition parent_child :: pred where
  "parent_child = Cmp (Col ''type'') ''='' (lit_str ''parent-child'')"

text \<open>Children by a parent-child dependency, or by a dotted id when the issue has no parent edge.\<close>

definition dotted_orphan :: "FilterTables \<Rightarrow> string \<Rightarrow> pred" where
  "dotted_orphan tables parent =
    AndP [LikeP (Col ''id'') (FnConcat (arg_str parent) (lit_str ''.%'')),
          InSel True (Col ''id'') ''issue_id'' (DependenciesTab tables) parent_child]"

definition child_of :: "FilterTables \<Rightarrow> string \<Rightarrow> pred" where
  "child_of tables parent =
    OrP [InSel False (Col ''id'') ''issue_id'' (DependenciesTab tables)
           (ConjP [parent_child, Cmp DepTargetExpr ''='' (arg_str parent)]),
         dotted_orphan tables parent]"

text \<open>Carries this label, or one of these.\<close>

definition has_label :: "string \<Rightarrow> FilterTables \<Rightarrow> string \<Rightarrow> pred" where
  "has_label idExpr tables label =
    InSel False (Col idExpr) ''issue_id'' (LabelsTab tables) (Cmp (Col ''label'') ''='' (arg_str label))"

definition has_label_in :: "bool \<Rightarrow> string \<Rightarrow> string \<Rightarrow> FilterTables \<Rightarrow> string list \<Rightarrow> pred" where
  "has_label_in neg idExpr sep tables labels =
    InSel neg (Col idExpr) ''issue_id'' (LabelsTab tables) (in_args False ''label'' sep labels)"

definition LabelSetClauses :: "string \<Rightarrow> FilterTables \<Rightarrow> string list \<Rightarrow> string list \<Rightarrow> string list \<Rightarrow> pred list" where
  "LabelSetClauses idExpr tables labels labelsAny exclude =
    map (has_label idExpr tables) labels
    @ (if labelsAny \<noteq> [] then [has_label_in False idExpr '', '' tables labelsAny] else [])
    @ (if exclude \<noteq> [] then [has_label_in True idExpr '', '' tables exclude] else [])"

definition globToLikePattern :: "string \<Rightarrow> string" where
  "globToLikePattern pattern =
    concat (map (\<lambda>(c, _).
      if c \<in> {37, 95, 124} then CHR ''|'' # encode_rune c
      else if c = 42 then ''%'' else if c = 63 then ''_'' else encode_rune c) (rune_chunks pattern))"

definition LooksLikeIssueID :: "string \<Rightarrow> bool" where
  "LooksLikeIssueID query =
    (case index_byte query (CHR ''-'') of
       None \<Rightarrow> False
     | Some idx \<Rightarrow>
         0 < idx \<and> idx + 1 < length query \<and> \<not> contains query '' ''
         \<and> list_all (\<lambda>(c, _). (48 \<le> c \<and> c \<le> 57) \<or> (97 \<le> c \<and> c \<le> 122) \<or> (65 \<le> c \<and> c \<le> 90) \<or> c = 45 \<or> c = 46)
             (rune_chunks query))"

section \<open>Keyset positions\<close>

definition KeysetCreatedAtIDPredicate :: "int \<Rightarrow> string \<Rightarrow> pred" where
  "KeysetCreatedAtIDPredicate ac aid =
    AndP [Cmp (Col ''created_at'') ''<='' (Arg (VTime ac)),
          OrP [ParenP (Cmp (Col ''created_at'') ''<'' (Arg (VTime ac))), ParenP (Cmp (Col ''id'') ''>'' (arg_str aid))]]"

definition KeysetPriorityCreatedAtIDPredicate :: "int \<Rightarrow> int \<Rightarrow> string \<Rightarrow> pred" where
  "KeysetPriorityCreatedAtIDPredicate ap ac aid =
    AndP [Cmp (Col ''priority'') ''>='' (Arg (VInt ap)),
          OrP [ParenP (Cmp (Col ''priority'') ''>'' (Arg (VInt ap))), KeysetCreatedAtIDPredicate ac aid]]"

section \<open>The clauses of a search\<close>

definition only :: "bool \<Rightarrow> 'a list \<Rightarrow> 'a list" where
  "only b xs = (if b then xs else [])"

definition opt :: "('a \<Rightarrow> pred) \<Rightarrow> 'a option \<Rightarrow> pred list" where
  "opt f x = (case x of None \<Rightarrow> [] | Some v \<Rightarrow> [f v])"

definition eq_str :: "string \<Rightarrow> string \<Rightarrow> pred" where
  "eq_str col v = Cmp (Col col) ''='' (arg_str v)"

definition lower_contains :: "string \<Rightarrow> string \<Rightarrow> pred" where
  "lower_contains col v = LikeP (FnLower (Col col)) (arg_str (''%'' @ to_lower v @ ''%''))"

definition flag_pred :: "string \<Rightarrow> bool \<Rightarrow> pred" where
  "flag_pred col b =
    (if b then Cmp (Col col) ''='' (lit_int 1) else OrP [Cmp (Col col) ''='' (lit_int 0), NullP False (Col col)])"

definition query_pred :: "string \<Rightarrow> pred" where
  "query_pred query =
    (let l = to_lower query; pattern = ''%'' @ l @ ''%'' in
     if LooksLikeIssueID query
     then OrP [Cmp (Col ''id'') ''='' (arg_str l), LikeP (Col ''id'') (arg_str (l @ ''%'')),
               LikeP (FnLower (Col ''title'')) (arg_str pattern), LikeP (FnLower (Col ''external_ref'')) (arg_str pattern)]
     else OrP [LikeP (FnLower (Col ''title'')) (arg_str pattern), LikeP (Col ''id'') (arg_str pattern)])"

definition empty_pred :: "string \<Rightarrow> pred" where
  "empty_pred col = OrP [NullP False (Col col), Cmp (Col col) ''='' (lit_str [])]"

definition tier_pred :: "bool \<Rightarrow> pred" where
  "tier_pred b =
    (if b then OrP [Cmp (Col ''ephemeral'') ''='' (lit_int 1),
                    AndP [NullP True (Col ''wisp_type''), Cmp (Col ''wisp_type'') ''<>'' (lit_str [])]]
     else AndP [flag_pred ''ephemeral'' False,
                OrP [Cmp (Col ''wisp_type'') ''='' (lit_str []), NullP False (Col ''wisp_type'')]])"

definition time_pred :: "string \<times> string \<times> Time option \<Rightarrow> pred list" where
  "time_pred tc = (case tc of (col, op, v) \<Rightarrow> opt (\<lambda>t. Cmp (Col col) op (arg_str (format_rfc3339_utc t))) v)"

definition AppendMetadataClauses :: "pred list \<Rightarrow> string \<Rightarrow> (string \<times> string) list \<Rightarrow> sql_error + pred list" where
  "AppendMetadataClauses base hasKey kvs =
    (if hasKey \<noteq> [] \<and> \<not> validMetadataKeyRe hasKey then Inl (InvalidMetadataKey hasKey)
     else
       let keys = sort (remdups (map fst kvs)) in
       case find (\<lambda>k. \<not> validMetadataKeyRe k) keys of
         Some k \<Rightarrow> Inl (InvalidMetadataKey k)
       | None \<Rightarrow>
           Inr (base
             @ only (hasKey \<noteq> []) [NullP True (FnJsonExtract (Col ''metadata'') (arg_str (JSONMetadataPath hasKey)))]
             @ map (\<lambda>k. Cmp (FnJsonUnquote (FnJsonExtract (Col ''metadata'') (arg_str (JSONMetadataPath k)))) ''=''
                          (arg_str (the (map_of kvs k)))) keys))"

definition text_preds :: "string \<Rightarrow> IssueFilter \<Rightarrow> pred list" where
  "text_preds query f =
    only (query \<noteq> []) [query_pred query]
    @ only (fTitleSearch f \<noteq> []) [lower_contains ''title'' (fTitleSearch f)]
    @ only (fTitleContains f \<noteq> []) [lower_contains ''title'' (fTitleContains f)]
    @ only (fDescriptionContains f \<noteq> []) [lower_contains ''description'' (fDescriptionContains f)]
    @ only (fNotesContains f \<noteq> []) [lower_contains ''notes'' (fNotesContains f)]
    @ only (fExternalRefContains f \<noteq> []) [lower_contains ''external_ref'' (fExternalRefContains f)]
    @ opt (eq_str ''external_ref'') (fExternalRef f)"

definition field_preds :: "IssueFilter \<Rightarrow> pred list" where
  "field_preds f =
    opt (eq_str ''status'') (fStatus f)
    @ only (fStatuses f \<noteq> []) [in_args False ''status'' '','' (fStatuses f)]
    @ only (fExcludeStatus f \<noteq> []) [in_args True ''status'' '','' (fExcludeStatus f)]
    @ opt (eq_str ''issue_type'') (fIssueType f)
    @ only (fExcludeTypes f \<noteq> []) [in_args True ''issue_type'' '','' (fExcludeTypes f)]
    @ opt (eq_str ''assignee'') (fAssignee f)
    @ opt (\<lambda>p. Cmp (Col ''priority'') ''='' (Arg (VInt p))) (fPriority f)
    @ opt (\<lambda>p. Cmp (Col ''priority'') ''>='' (Arg (VInt p))) (fPriorityMin f)
    @ opt (\<lambda>p. Cmp (Col ''priority'') ''<='' (Arg (VInt p))) (fPriorityMax f)
    @ only (fIDs f \<noteq> []) [in_args False ''id'' '', '' (fIDs f)]
    @ only (fIDPrefix f \<noteq> []) [LikeP (Col ''id'') (arg_str (fIDPrefix f @ ''%''))]
    @ only (fSpecIDPrefix f \<noteq> []) [LikeP (Col ''spec_id'') (arg_str (fSpecIDPrefix f @ ''%''))]"

definition relation_preds :: "IssueFilter \<Rightarrow> FilterTables \<Rightarrow> pred list" where
  "relation_preds f tables =
    opt (child_of tables) (fParentID f)
    @ only (fNoParent f) [InSel True (Col ''id'') ''issue_id'' (DependenciesTab tables) parent_child]
    @ opt (eq_str ''mol_type'') (fMolType f)
    @ opt (eq_str ''wisp_type'') (fWispType f)
    @ LabelSetClauses ''id'' tables (fLabels f) (fLabelsAny f) (fExcludeLabels f)
    @ only (fNoLabels f) [InAll True (Col ''id'') ''DISTINCT issue_id'' (LabelsTab tables)]
    @ only (fLabelPattern f \<noteq> [])
        [InSel False (Col ''id'') ''issue_id'' (LabelsTab tables)
           (LikeEscP (Col ''label'') (arg_str (globToLikePattern (fLabelPattern f))))]
    @ only (fLabelRegex f \<noteq> [])
        [InSel False (Col ''id'') ''issue_id'' (LabelsTab tables) (RegexpP (Col ''label'') (arg_str (fLabelRegex f)))]"

definition flag_preds :: "IssueFilter \<Rightarrow> pred list" where
  "flag_preds f =
    opt (flag_pred ''pinned'') (fPinned f)
    @ opt (eq_str ''source_repo'') (fSourceRepo f)
    @ opt (flag_pred ''ephemeral'') (fEphemeral f)
    @ opt tier_pred (fEphemeralTier f)
    @ opt (flag_pred ''is_template'') (fIsTemplate f)
    @ opt (\<lambda>b. Cmp (Col ''is_blocked'') ''='' (Arg (VInt (of_bool b)))) (fIsBlocked f)
    @ only (fEmptyDescription f) [empty_pred ''description'']
    @ only (fNoAssignee f) [empty_pred ''assignee'']"

definition time_preds :: "Time \<Rightarrow> IssueFilter \<Rightarrow> pred list" where
  "time_preds now f =
    concat (map time_pred
      [(''created_at'', ''>'', fCreatedAfter f), (''created_at'', ''<'', fCreatedBefore f),
       (''updated_at'', ''>'', fUpdatedAfter f), (''updated_at'', ''<'', fUpdatedBefore f),
       (''closed_at'', ''>'', fClosedAfter f), (''closed_at'', ''<'', fClosedBefore f),
       (''started_at'', ''>'', fStartedAfter f), (''started_at'', ''<'', fStartedBefore f),
       (''defer_until'', ''>'', fDeferAfter f), (''defer_until'', ''<'', fDeferBefore f),
       (''due_at'', ''>'', fDueAfter f), (''due_at'', ''<'', fDueBefore f)])
    @ opt (\<lambda>ac. case fAfterPriority f of
              Some ap \<Rightarrow> KeysetPriorityCreatedAtIDPredicate ap (unix_nano ac) (fAfterID f)
            | None \<Rightarrow> KeysetCreatedAtIDPredicate (unix_nano ac) (fAfterID f)) (fAfterCreatedAt f)
    @ only (fDeferred f) [OrP [NullP True (Col ''defer_until''), eq_str ''status'' StatusDeferred]]
    @ only (fOverdue f)
        [ConjP [NullP True (Col ''due_at''), Cmp (Col ''due_at'') ''<'' (arg_str (format_rfc3339_utc now)),
                Cmp (Col ''status'') ''!='' (arg_str StatusClosed)]]"

definition issue_filter_preds :: "Time \<Rightarrow> string \<Rightarrow> IssueFilter \<Rightarrow> FilterTables \<Rightarrow> sql_error + pred list" where
  "issue_filter_preds now query f tables =
    AppendMetadataClauses
      (text_preds query f @ field_preds f @ relation_preds f tables @ flag_preds f @ time_preds now f)
      (fHasMetadataKey f) (fMetadataFields f)"

definition BuildIssueFilterClauses ::
    "Time \<Rightarrow> string \<Rightarrow> IssueFilter \<Rightarrow> FilterTables \<Rightarrow> sql_error + string list \<times> sql_val list" where
  "BuildIssueFilterClauses now query f tables =
    (case issue_filter_preds now query f tables of
       Inl e \<Rightarrow> Inl e
     | Inr ps \<Rightarrow> Inr (map pred_text ps, concat (map pred_args ps)))"

text \<open>A row is found when the clauses were built and select it.\<close>

definition selected :: "engine \<Rightarrow> db \<Rightarrow> sql_error + pred list \<Rightarrow> row \<Rightarrow> bool" where
  "selected e d c r = (case c of Inl _ \<Rightarrow> False | Inr ps \<Rightarrow> selects e d ps r)"

section \<open>One mark for every argument\<close>

definition clean_tables :: "FilterTables \<Rightarrow> bool" where
  "clean_tables t = (marks (Main t) = 0 \<and> marks (LabelsTab t) = 0 \<and> marks (DependenciesTab t) = 0 \<and> marks (CommentsTab t) = 0)"

lemma clean_only [simp]: "list_all clean (only b ps) \<longleftrightarrow> (b \<longrightarrow> list_all clean ps)"
  by (simp add: only_def)

lemma clean_args [simp]: "list_all clean_sx (map arg_str vs)"
  by (simp add: list_all_iff)

lemma clean_opt [intro]: "(\<And>v. clean (f v)) \<Longrightarrow> list_all clean (opt f x)"
  by (simp add: opt_def split: option.splits)

lemma marks_nat_to_string [simp]: "marks (nat_to_string n) = 0"
proof -
  have "CHR ''?'' \<notin> set (nat_to_string n)"
    using nat_to_string_digits [of n] by (auto simp: list_all_iff is_digit_def)
  then show ?thesis by (simp add: marks_def)
qed

lemmas piece_defs = lit_str_def lit_int_def in_args_def DepTargetExpr_def parent_child_def dotted_orphan_def
  child_of_def has_label_def has_label_in_def KeysetCreatedAtIDPredicate_def KeysetPriorityCreatedAtIDPredicate_def
  eq_str_def lower_contains_def flag_pred_def query_pred_def empty_pred_def tier_pred_def

lemma clean_LabelSetClauses:
  "clean_tables t \<Longrightarrow> marks i = 0 \<Longrightarrow> list_all clean (LabelSetClauses i t ls as es)"
  by (auto simp: LabelSetClauses_def piece_defs clean_tables_def list_all_iff)

lemma clean_text: "list_all clean (text_preds q f)"
  by (auto simp: text_preds_def piece_defs Let_def)

lemma clean_field: "list_all clean (field_preds f)"
  by (auto simp: field_preds_def piece_defs)

lemma clean_relation: "clean_tables t \<Longrightarrow> list_all clean (relation_preds f t)"
  using clean_LabelSetClauses [of t "''id''"]
  by (auto simp: relation_preds_def piece_defs clean_tables_def)

lemma clean_flag: "list_all clean (flag_preds f)"
  by (auto simp: flag_preds_def piece_defs)

lemma clean_time: "list_all clean (time_preds now f)"
  by (auto simp: time_preds_def time_pred_def piece_defs split: option.splits)

lemma clean_metadata:
  "AppendMetadataClauses ps k fs = Inr qs \<Longrightarrow> list_all clean ps \<Longrightarrow> list_all clean qs"
  by (auto simp: AppendMetadataClauses_def Let_def list_all_iff only_def split: if_splits option.splits)

lemma clean_issue_filter:
  "issue_filter_preds now q f t = Inr ps \<Longrightarrow> clean_tables t \<Longrightarrow> list_all clean ps"
  unfolding issue_filter_preds_def
  by (erule clean_metadata) (simp add: clean_text clean_field clean_relation clean_flag clean_time)

lemma bound_list: "list_all clean ps \<Longrightarrow> sum_list (map (marks \<circ> pred_text) ps) = length (concat (map pred_args ps))"
  by (induction ps) (simp_all add: pred_bound)


definition example_filter :: IssueFilter where
  "example_filter = IssueFilter_zero\<lparr>fStatus := Some ''open'', fLabels := [''a?b''], fExcludeTypes := [''gate'', ''rig'']\<rparr>"


section \<open>Label globs\<close>

text \<open>A shell glob on characters: a star matches any run, a question mark one character.\<close>

function glob :: "nat list \<Rightarrow> nat list \<Rightarrow> bool" where
  "glob [] s = (s = [])"
| "glob (p # ps) s =
    (if p = 42 then glob ps s \<or> (case s of c # cs \<Rightarrow> glob (p # ps) cs | [] \<Rightarrow> False)
     else (case s of c # cs \<Rightarrow> (p = 63 \<or> c = p) \<and> glob ps cs | [] \<Rightarrow> False))"
  by pat_completeness auto
termination by (relation "measure (\<lambda>(ps, s). length ps + length s)") auto

definition glob_rune :: "nat \<Rightarrow> nat list" where
  "glob_rune c = (if c \<in> {37, 95, 124} then [124, c] else if c = 42 then [37] else if c = 63 then [95] else [c])"

lemma like_glob: "like 124 (concat (map glob_rune ps)) s = glob ps s"
  by (induction ps s rule: glob.induct) (auto simp: glob_rune_def split: list.splits)

lemma glob_bytes:
  "concat (map (\<lambda>(c, _). if c \<in> {37, 95, 124} then CHR ''|'' # encode_rune c
      else if c = 42 then ''%'' else if c = 63 then ''_'' else encode_rune c) xs)
   = concat (map encode_rune (concat (map glob_rune (map fst xs))))"
  by (induction xs)
    (auto simp: glob_rune_def encode_rune_def [of 124] encode_rune_def [of 37] encode_rune_def [of 95] char_of_def bit_0)

lemma globToLikePattern_runes:
  "map fst (rune_chunks (globToLikePattern p)) = concat (map glob_rune (map fst (rune_chunks p)))"
proof -
  let ?rs = "concat (map glob_rune (map fst (rune_chunks p)))"
  have "globToLikePattern p = concat (map encode_rune ?rs)"
    unfolding globToLikePattern_def by (rule glob_bytes)
  moreover have "list_all valid_rune ?rs"
    using rune_chunks_valid [of _ _ p] by (auto simp: list_all_iff glob_rune_def valid_rune_def split: if_splits)
  ultimately show ?thesis using runes_encode by metis
qed

text \<open>
  C37: a label pattern means the shell glob. The LIKE pattern that \<open>globToLikePattern\<close> writes, read
  with the escape character of the clause, matches a label exactly when the glob does: star and
  question mark are the wildcards, and per cent, underscore and bar in the glob are literal.
\<close>

theorem globToLikePattern_matches:
  "vlike 124 (VStr label) (VStr (globToLikePattern p))
   = Some (glob (map fst (rune_chunks p)) (map fst (rune_chunks label)))"
  unfolding vlike_def sql_val.case prod.case globToLikePattern_runes like_glob ..

section \<open>Label predicates as joins\<close>

record LabelSearchPlan =
  FromSQL :: string
  Where :: "pred list"
  Distinct :: bool
  Filter :: IssueFilter

definition MergeInto :: "LabelSearchPlan \<Rightarrow> pred list \<Rightarrow> pred list" where
  "MergeInto p ps = (if Where p = [] then ps else Where p @ ps)"

definition label_alias :: "nat \<Rightarrow> string" where
  "label_alias i = ''label_filter_'' @ nat_to_string i"

definition label_aliases :: "string list \<Rightarrow> string list \<Rightarrow> string list" where
  "label_aliases labels labelsAny =
    map label_alias [0..<length labels] @ (if labelsAny \<noteq> [] then [''label_filter_any''] else [])"

definition label_join :: "FilterTables \<Rightarrow> string \<Rightarrow> string" where
  "label_join tables alias =
    ''JOIN '' @ LabelsTab tables @ '' '' @ alias @ '' ON '' @ alias @ ''.issue_id = '' @ Main tables @ ''.id''"

definition label_where :: "string list \<Rightarrow> string list \<Rightarrow> pred list" where
  "label_where labels labelsAny =
    map (\<lambda>(i, label). Cmp (Col (label_alias i @ ''.label'')) ''='' (arg_str label)) (enumerate 0 labels)
    @ (if labelsAny \<noteq> [] then [in_args False ''label_filter_any.label'' '', '' labelsAny] else [])"

definition BuildLabelDrivenSearch :: "IssueFilter \<Rightarrow> FilterTables \<Rightarrow> LabelSearchPlan" where
  "BuildLabelDrivenSearch f tables =
    (let labels = CompactNonEmptyStrings (fLabels f); labelsAny = CompactNonEmptyStrings (fLabelsAny f) in
     if labels = [] \<and> labelsAny = []
     then \<lparr>FromSQL = Main tables, Where = [], Distinct = False, Filter = f\<rparr>
     else \<lparr>FromSQL = Main tables @ '' '' @ join (map (label_join tables) (label_aliases labels labelsAny)) '' '',
           Where = label_where labels labelsAny, Distinct = True,
           Filter = f\<lparr>fLabels := [], fLabelsAny := []\<rparr>\<rparr>)"

text \<open>
  A row joined with one label row per alias: the columns \<open>alias.label\<close> are the labels of those
  rows. The plan keeps a row when some choice of label rows of that issue satisfies its clauses;
  DISTINCT then reports the row once.
\<close>

definition joined :: "row \<Rightarrow> (string \<times> row) list \<Rightarrow> row" where
  "joined r as = (\<lambda>c. case find (\<lambda>(a, lr). c = a @ ''.label'') as of Some (a, lr) \<Rightarrow> lr ''label'' | None \<Rightarrow> r c)"

definition labels_of :: "engine \<Rightarrow> db \<Rightarrow> FilterTables \<Rightarrow> row \<Rightarrow> row list" where
  "labels_of e d tables r = filter (\<lambda>lr. vcmp e ''='' (r ''id'') (lr ''issue_id'') = Some True) (d (LabelsTab tables))"

definition join_selects :: "engine \<Rightarrow> db \<Rightarrow> FilterTables \<Rightarrow> string list \<Rightarrow> pred list \<Rightarrow> row \<Rightarrow> bool" where
  "join_selects e d tables aliases ps r =
    (\<exists>lrs. length lrs = length aliases \<and> set lrs \<subseteq> set (labels_of e d tables r)
        \<and> selects e d ps (joined r (zip aliases lrs)))"

lemma has_label_iff:
  "pred_val e d r (has_label ''id'' tables l) = Some True
   \<longleftrightarrow> (\<exists>lr\<in>set (labels_of e d tables r). vcmp e ''='' (lr ''label'') (VStr l) = Some True)"
  by (force simp: has_label_def not_if_def or3_True labels_of_def)

lemma has_label_in_iff:
  "pred_val e d r (has_label_in False ''id'' sep tables ls) = Some True
   \<longleftrightarrow> (\<exists>lr\<in>set (labels_of e d tables r). \<exists>l\<in>set ls. vcmp e ''='' (lr ''label'') (VStr l) = Some True)"
  by (force simp: has_label_in_def in_args_def not_if_def or3_True labels_of_def)

lemma label_aliases_distinct: "distinct (label_aliases ls as)"
proof -
  have "inj label_alias"
    using digits_value_nat_to_string by (metis label_alias_def injI same_append_eq)
  moreover have "label_alias i \<noteq> ''label_filter_any''" for i
    using nat_to_string_digits [of i] by (auto simp: label_alias_def is_digit_def)
  ultimately show ?thesis
    by (auto simp: label_aliases_def distinct_map dest!: sym [where t = "label_alias _"] intro: inj_on_subset)
qed

lemma find_zip_nth:
  "distinct xs \<Longrightarrow> i < length xs \<Longrightarrow> length ys = length xs \<Longrightarrow>
   find (\<lambda>(a, y). xs ! i @ t = a @ t) (zip xs ys) = Some (xs ! i, ys ! i)"
proof (induction xs arbitrary: ys i)
  case (Cons x xs)
  then show ?case by (cases ys; cases i) auto
qed simp

lemma joined_nth:
  assumes "distinct as" "i < length as" "length lrs = length as"
  shows "joined r (zip as lrs) (as ! i @ ''.label'') = (lrs ! i) ''label''"
  using find_zip_nth [OF assms, of "''.label''"] by (simp add: joined_def)

lemma selects_map: "selects e d (map f xs) r \<longleftrightarrow> (\<forall>x\<in>set xs. pred_val e d r (f x) = Some True)"
  by (simp add: selects_def list_all_iff)

lemma ball_enumerate: "(\<forall>x\<in>set (enumerate 0 xs). P x) \<longleftrightarrow> (\<forall>i<length xs. P (i, xs ! i))"
  by (simp add: all_set_conv_all_nth nth_enumerate_eq)

lemma joined_any:
  assumes "length lrs = length ls + 1" "as \<noteq> []"
  shows "joined r (zip (label_aliases ls as) lrs) ''label_filter_any.label'' = (lrs ! length ls) ''label''"
proof -
  have "label_aliases ls as ! length ls = ''label_filter_any''" "length ls < length (label_aliases ls as)"
    "length lrs = length (label_aliases ls as)"
    using assms by (simp_all add: label_aliases_def nth_append)
  with joined_nth [OF label_aliases_distinct this(2,3), of r] show ?thesis by simp
qed

lemma joined_label:
  assumes "length lrs = length (label_aliases ls as)" "i < length ls"
  shows "joined r (zip (label_aliases ls as) lrs) (label_alias i @ ''.label'') = (lrs ! i) ''label''"
proof -
  have "label_aliases ls as ! i = label_alias i" "i < length (label_aliases ls as)"
    using assms(2) by (simp_all add: label_aliases_def nth_append)
  with joined_nth [OF label_aliases_distinct this(2) assms(1), of r] show ?thesis by simp
qed

lemma selects_label_where:
  assumes "length lrs = length (label_aliases ls as)"
  shows "selects e d (label_where ls as) (joined r (zip (label_aliases ls as) lrs))
    \<longleftrightarrow> (\<forall>i<length ls. vcmp e ''='' ((lrs ! i) ''label'') (VStr (ls ! i)) = Some True)
       \<and> (as \<noteq> [] \<longrightarrow> (\<exists>l\<in>set as. vcmp e ''='' ((lrs ! length ls) ''label'') (VStr l) = Some True))"
proof -
  let ?r = "joined r (zip (label_aliases ls as) lrs)"
  have "selects e d (map (\<lambda>(i, label). Cmp (Col (label_alias i @ ''.label'')) ''='' (arg_str label)) (enumerate 0 ls)) ?r
    \<longleftrightarrow> (\<forall>i<length ls. vcmp e ''='' ((lrs ! i) ''label'') (VStr (ls ! i)) = Some True)"
    unfolding selects_map ball_enumerate using joined_label [OF assms] by simp
  moreover have "selects e d [in_args False ''label_filter_any.label'' '', '' as] ?r
    \<longleftrightarrow> (\<exists>l\<in>set as. vcmp e ''='' ((lrs ! length ls) ''label'') (VStr l) = Some True)" if "as \<noteq> []"
    using joined_any [of lrs ls as r] that assms
    by (simp add: in_args_def not_if_def or3_True label_aliases_def comp_def) (metis (no_types, lifting) image_iff)
  ultimately show ?thesis by (simp add: label_where_def)
qed

lemma join_selects_iff:
  "join_selects e d tables (label_aliases ls as) (label_where ls as) r
   \<longleftrightarrow> selects e d (LabelSetClauses ''id'' tables ls as []) r"
proof -
  let ?L = "labels_of e d tables r"
  let ?is = "\<lambda>lr l. vcmp e ''='' (lr ''label'') (VStr l) = Some True"
  have s: "selects e d (LabelSetClauses ''id'' tables ls as []) r
     \<longleftrightarrow> (\<forall>l\<in>set ls. \<exists>lr\<in>set ?L. ?is lr l) \<and> (as \<noteq> [] \<longrightarrow> (\<exists>lr\<in>set ?L. \<exists>l\<in>set as. ?is lr l))"
    using has_label_iff [of e d r tables] has_label_in_iff [of e d r "'', ''" tables as]
    by (simp add: LabelSetClauses_def selects_map)
  show ?thesis
  proof
    assume "join_selects e d tables (label_aliases ls as) (label_where ls as) r"
    then obtain lrs where l: "length lrs = length (label_aliases ls as)" "set lrs \<subseteq> set ?L"
      "selects e d (label_where ls as) (joined r (zip (label_aliases ls as) lrs))"
      by (auto simp: join_selects_def)
    have n: "i < length lrs \<Longrightarrow> lrs ! i \<in> set ?L" for i using l(2) nth_mem by blast
    note w = l(3) [unfolded selects_label_where [OF l(1)]]
    have "\<exists>lr\<in>set ?L. ?is lr x" if x: "x \<in> set ls" for x
    proof -
      obtain i where i: "i < length ls" "x = ls ! i" using x by (auto simp: in_set_conv_nth)
      have "i < length lrs" using i(1) l(1) by (simp add: label_aliases_def)
      with n [of i] w i show ?thesis by (intro bexI [of _ "lrs ! i"]) simp_all
    qed
    moreover have "\<exists>lr\<in>set ?L. \<exists>x\<in>set as. ?is lr x" if a: "as \<noteq> []"
    proof -
      have "length ls < length lrs" using a l(1) by (simp add: label_aliases_def)
      with n [of "length ls"] w a show ?thesis by (intro bexI [of _ "lrs ! length ls"]) simp_all
    qed
    ultimately show "selects e d (LabelSetClauses ''id'' tables ls as []) r" unfolding s by blast
  next
    assume "selects e d (LabelSetClauses ''id'' tables ls as []) r"
    then have a: "\<forall>l\<in>set ls. \<exists>lr. lr \<in> set ?L \<and> ?is lr l"
      and b: "\<exists>h. as \<noteq> [] \<longrightarrow> h \<in> set ?L \<and> (\<exists>l\<in>set as. ?is h l)"
      unfolding s by auto
    obtain g where g: "\<forall>l\<in>set ls. g l \<in> set ?L \<and> ?is (g l) l" using bchoice [OF a] by auto
    obtain h where h: "as \<noteq> [] \<longrightarrow> h \<in> set ?L \<and> (\<exists>l\<in>set as. ?is h l)" using b by auto
    define lrs where "lrs = map g ls @ (if as \<noteq> [] then [h] else [])"
    have "length lrs = length (label_aliases ls as)" "set lrs \<subseteq> set ?L"
      using g h by (auto simp: lrs_def label_aliases_def)
    moreover have "\<forall>i<length ls. ?is (lrs ! i) (ls ! i)" "as \<noteq> [] \<longrightarrow> (\<exists>l\<in>set as. ?is (lrs ! length ls) l)"
      using g h by (auto simp: lrs_def nth_append)
    ultimately show "join_selects e d tables (label_aliases ls as) (label_where ls as) r"
      unfolding join_selects_def using selects_label_where [of lrs ls as e d r] by (intro exI [of _ lrs]) simp
  qed
qed

lemma LabelSetClauses_split:
  "LabelSetClauses i t ls as es = LabelSetClauses i t ls as [] @ LabelSetClauses i t [] [] es"
  by (simp add: LabelSetClauses_def)


end
