(* ===== verification/Persistence.thy ===== *)
theory Persistence
  imports IssueTypes
begin

text \<open>
  Storage planes and wire tokens of \<open>internal/types/types.go\<close>: molecule, wisp and work types,
  storage classes, the change of an issue's persistence mode, and the decimal spelling of the
  optimistic-concurrency token.
\<close>

section \<open>Molecule, wisp and work types\<close>

definition validMolTypes :: "MolType list" where
  "validMolTypes = [''swarm'', ''patrol'', ''work'']"

definition MolType_IsValid :: "MolType \<Rightarrow> bool" where
  "MolType_IsValid m = (m = [] \<or> m \<in> set validMolTypes)"

definition validWispTypes :: "WispType list" where
  "validWispTypes = [''heartbeat'', ''ping'', ''patrol'', ''gc_report'', ''recovery'', ''error'', ''escalation'']"

definition WispType_IsValid :: "WispType \<Rightarrow> bool" where
  "WispType_IsValid w = (w = [] \<or> w \<in> set validWispTypes)"

definition WorkType_IsValid :: "WorkType \<Rightarrow> bool" where
  "WorkType_IsValid w = (w \<in> {''mutex'', ''open_competition'', ''''})"

text \<open>\<open>a, b, or c\<close>, for error messages.\<close>

definition joinNamesWithOr :: "string list \<Rightarrow> string" where
  "joinNamesWithOr names =
    (if length names = 1 then hd names
     else join (butlast names) '', '' @ '', or '' @ last names)"

definition ValidMolTypeNames :: string where
  "ValidMolTypeNames = joinNamesWithOr validMolTypes"

definition ValidWispTypeNames :: string where
  "ValidWispTypeNames = joinNamesWithOr validWispTypes"

section \<open>Storage classes and persistence modes\<close>

type_synonym PersistenceMode = string

abbreviation "PersistenceModePersistent \<equiv> ''persistent''"
abbreviation "PersistenceModeEphemeral \<equiv> ''ephemeral''"
abbreviation "PersistenceModeNoHistory \<equiv> ''no_history''"

definition validPersistenceModes :: "PersistenceMode list" where
  "validPersistenceModes = [PersistenceModePersistent, PersistenceModeEphemeral, PersistenceModeNoHistory]"

definition PersistenceMode_IsValid :: "PersistenceMode \<Rightarrow> bool" where
  "PersistenceMode_IsValid m = (m \<in> set validPersistenceModes)"

definition ValidStorageClassNames :: string where
  "ValidStorageClassNames = joinNamesWithOr validStorageClasses"

datatype persistence_error =
    InvalidPersistenceMode string
  | MutuallyExclusive
  | InvalidClass string
  | ClassConflictsWithWisp string
  | EphemeralNeedsWisp
  | ErrUnversionedWispMove string
  | CannotParseStorageClass string

definition ParseStorageClass :: "string \<Rightarrow> persistence_error + StorageClass" where
  "ParseStorageClass v =
    (if v = [] \<or> \<not> StorageClass_IsValid v then Inl (CannotParseStorageClass v) else Inr v)"

definition StorageClass_Normalize :: "StorageClass \<Rightarrow> StorageClass" where
  "StorageClass_Normalize s = (if s = StorageClassVersioned then [] else s)"

definition EffectiveStorageClass :: "Issue \<Rightarrow> StorageClass" where
  "EffectiveStorageClass i =
    (if StorageClass i \<noteq> [] then StorageClass i
     else if Ephemeral i \<or> NoHistory i then StorageClassEphemeral
     else StorageClassVersioned)"

definition persistenceMode :: "Issue \<Rightarrow> PersistenceMode" where
  "persistenceMode i =
    (if NoHistory i then PersistenceModeNoHistory
     else if Ephemeral i then PersistenceModeEphemeral
     else PersistenceModePersistent)"

definition NormalizePersistenceMode ::
  "Issue \<Rightarrow> PersistenceMode \<Rightarrow> persistence_error + bool \<times> bool \<times> StorageClass" where
  "NormalizePersistenceMode current mode =
    (let sc = StorageClass current; wispPlane = (Ephemeral current \<or> NoHistory current) in
     if \<not> PersistenceMode_IsValid mode then Inl (InvalidPersistenceMode mode)
     else if Ephemeral current \<and> NoHistory current then Inl MutuallyExclusive
     else if \<not> StorageClass_IsValid sc then Inl (InvalidClass sc)
     else if wispPlane \<and> sc \<noteq> [] \<and> sc \<noteq> StorageClassEphemeral then Inl (ClassConflictsWithWisp sc)
     else if \<not> wispPlane \<and> sc = StorageClassEphemeral then Inl EphemeralNeedsWisp
     else if sc = StorageClassUnversioned \<and> mode \<noteq> PersistenceModePersistent
       then Inl (ErrUnversionedWispMove mode)
     else if persistenceMode current = mode then Inr (Ephemeral current, NoHistory current, sc)
     else if mode = PersistenceModePersistent then
       Inr (False, False, if sc = StorageClassEphemeral then [] else sc)
     else if mode = PersistenceModeEphemeral then
       Inr (True, False, if sc = StorageClassVersioned then [] else sc)
     else if mode = PersistenceModeNoHistory then
       Inr (False, True, if sc = StorageClassVersioned then [] else sc)
     else Inl (InvalidPersistenceMode mode))"

section \<open>Revision tokens\<close>

datatype token_error = LeadingPlus string | NegativeZero string | LeadingZero string | NotInt64 string

definition RevisionToken :: "int \<Rightarrow> string" where
  "RevisionToken v = int_to_string v"

definition ParseRevisionToken :: "string \<Rightarrow> token_error + int" where
  "ParseRevisionToken s =
    (if has_prefix s ''+'' then Inl (LeadingPlus s)
     else
       let negative = has_prefix s ''-'';
           digits = (if negative then tl s else s)
       in if negative \<and> digits = ''0'' then Inl (NegativeZero s)
          else if length digits > 1 \<and> digits ! 0 = CHR ''0'' then Inl (LeadingZero s)
          else case parse_int s of None \<Rightarrow> Inl (NotInt64 s) | Some v \<Rightarrow> Inr v)"

record IssueDetails =
  details_issue :: Issue
  Revision :: string

definition NewIssueDetails :: "Issue \<Rightarrow> IssueDetails" where
  "NewIssueDetails issue = \<lparr>details_issue = issue, Revision = RevisionToken (RowVersion issue)\<rparr>"

section \<open>Lemmas\<close>

text \<open>The plane of an issue and its declared class agree.\<close>

definition coherent :: "bool \<Rightarrow> bool \<Rightarrow> StorageClass \<Rightarrow> bool" where
  "coherent eph noh sc =
    (\<not> (eph \<and> noh)
     \<and> (if eph \<or> noh then sc \<in> {[], StorageClassEphemeral}
        else sc \<in> {[], StorageClassVersioned, StorageClassUnversioned}))"

lemma coherent_iff_checks:
  "coherent (Ephemeral i) (NoHistory i) (StorageClass i)
   \<longleftrightarrow> \<not> (Ephemeral i \<and> NoHistory i) \<and> StorageClass_IsValid (StorageClass i) \<and> checkStorageClass i = None"
  by (auto simp: coherent_def StorageClass_IsValid_def validStorageClasses_def checkStorageClass_def Let_def)

lemma int_to_string_parse:
  assumes "parse_int s = Some v" "\<not> has_prefix s ''+''"
    "\<not> (has_prefix s ''-'' \<and> tl s = ''0'')"
    "length (if has_prefix s ''-'' then tl s else s) \<le> 1 \<or> (if has_prefix s ''-'' then tl s else s) ! 0 \<noteq> CHR ''0''"
  shows "int_to_string v = s"
proof -
  define ds where "ds = (if has_prefix s ''-'' then tl s else s)"
  have body: "(if prefix ''-'' s \<or> prefix ''+'' s then tl s else s) = ds"
    using assms(2) by (simp add: ds_def)
  have d: "ds \<noteq> []" "list_all is_digit ds"
    and v: "v = (if has_prefix s ''-'' then - int (digits_value 0 ds) else int (digits_value 0 ds))"
    using assms(1) unfolding parse_int_def Let_def body by (auto split: if_splits)
  have "length ds \<le> 1 \<or> hd ds \<noteq> CHR ''0''" using assms(4) d(1) by (simp add: ds_def [symmetric] hd_conv_nth)
  with d have ns: "nat_to_string (digits_value 0 ds) = ds" by (simp add: nat_to_string_digits_value)
  show ?thesis
  proof (cases "has_prefix s ''-''")
    case False
    with v ns show ?thesis by (simp add: int_to_string_def ds_def)
  next
    case True
    then have s: "s = CHR ''-'' # ds" by (auto simp: ds_def prefix_def)
    have "0 < digits_value 0 ds"
    proof (rule ccontr)
      assume "\<not> 0 < digits_value 0 ds"
      then have "nat_to_string 0 = ds" using ns by simp
      then have "ds = ''0''" by (simp add: nat_to_string.simps digit_char_def char_of_def bit_0)
      with True assms(3) s show False by simp
    qed
    with True v ns s show ?thesis by (simp add: int_to_string_def)
  qed
qed

lemma nat_to_string_lead:
  "n \<noteq> 0 \<Longrightarrow> nat_to_string n ! 0 \<noteq> CHR ''0'' \<and> nat_to_string n \<noteq> ''0''"
proof (induction n rule: nat_to_string.induct)
  case (1 n)
  show ?case
  proof (cases "n < 10")
    case True
    have "digit_char n \<noteq> CHR ''0''"
      using True "1.prems" code_inject [of "digit_char n" "CHR ''0''"] by auto
    with True show ?thesis by (simp add: nat_to_string.simps [of n])
  next
    case False
    then have "nat_to_string (n div 10) ! 0 \<noteq> CHR ''0''" using "1.IH" by simp
    with False show ?thesis by (simp add: nat_to_string.simps [of n] nth_append)
  qed
qed

lemma token_shape:
  "\<not> has_prefix (int_to_string v) ''+''"
  "\<not> (has_prefix (int_to_string v) ''-'' \<and> tl (int_to_string v) = ''0'')"
  "\<not> (1 < length (if has_prefix (int_to_string v) ''-'' then tl (int_to_string v) else int_to_string v)
      \<and> (if has_prefix (int_to_string v) ''-'' then tl (int_to_string v) else int_to_string v) ! 0 = CHR ''0'')"
proof -
  have z: "nat_to_string 0 = [digit_char 0]" by (simp add: nat_to_string.simps)
  have "\<not> (1 < length (nat_to_string (nat v)) \<and> nat_to_string (nat v) ! 0 = CHR ''0'')"
    using nat_to_string_lead [of "nat v"] z by (cases "nat v = 0") auto
  then show "\<not> has_prefix (int_to_string v) ''+''"
    "\<not> (has_prefix (int_to_string v) ''-'' \<and> tl (int_to_string v) = ''0'')"
    "\<not> (1 < length (if has_prefix (int_to_string v) ''-'' then tl (int_to_string v) else int_to_string v)
      \<and> (if has_prefix (int_to_string v) ''-'' then tl (int_to_string v) else int_to_string v) ! 0 = CHR ''0'')"
    using nat_to_string_lead [of "nat (- v)"] by (cases "v < 0"; simp add: int_to_string_def)+
qed

lemma modes: "PersistenceMode_IsValid mode \<Longrightarrow>
    mode = PersistenceModePersistent \<or> mode = PersistenceModeEphemeral \<or> mode = PersistenceModeNoHistory"
  by (auto simp: PersistenceMode_IsValid_def validPersistenceModes_def)

text \<open>The seven coherent combinations of plane and class.\<close>

lemma coherent_cases:
  "coherent e n c \<Longrightarrow>
    (\<not> e \<and> \<not> n \<and> c = []) \<or> (\<not> e \<and> \<not> n \<and> c = StorageClassVersioned)
    \<or> (\<not> e \<and> \<not> n \<and> c = StorageClassUnversioned)
    \<or> (e \<and> \<not> n \<and> c = []) \<or> (e \<and> \<not> n \<and> c = StorageClassEphemeral)
    \<or> (\<not> e \<and> n \<and> c = []) \<or> (\<not> e \<and> n \<and> c = StorageClassEphemeral)"
  by (cases e; cases n) (auto simp: coherent_def)

text \<open>The function on a coherent issue: keep the row, or move it and drop a class that belongs to the old plane.\<close>

definition move_plane :: "PersistenceMode \<Rightarrow> bool \<times> bool \<times> StorageClass \<Rightarrow> bool \<times> bool \<times> StorageClass" where
  "move_plane mode row =
    (case row of (e, n, c) \<Rightarrow>
       let old = (if n then PersistenceModeNoHistory else if e then PersistenceModeEphemeral else PersistenceModePersistent)
       in if old = mode then row
          else (mode = PersistenceModeEphemeral, mode = PersistenceModeNoHistory,
                if (mode = PersistenceModePersistent \<and> c = StorageClassEphemeral)
                   \<or> (mode \<noteq> PersistenceModePersistent \<and> c = StorageClassVersioned) then [] else c))"

lemma NormalizePersistenceMode_guards:
  assumes "NormalizePersistenceMode i mode = Inr r"
  shows "PersistenceMode_IsValid mode" "coherent (Ephemeral i) (NoHistory i) (StorageClass i)"
    "\<not> (StorageClass i = StorageClassUnversioned \<and> mode \<noteq> PersistenceModePersistent)"
proof -
  let ?sc = "StorageClass i"
  have g: "PersistenceMode_IsValid mode" "\<not> (Ephemeral i \<and> NoHistory i)" "StorageClass_IsValid ?sc"
    "\<not> ((Ephemeral i \<or> NoHistory i) \<and> ?sc \<noteq> [] \<and> ?sc \<noteq> StorageClassEphemeral)"
    "\<not> (\<not> (Ephemeral i \<or> NoHistory i) \<and> ?sc = StorageClassEphemeral)"
    "\<not> (?sc = StorageClassUnversioned \<and> mode \<noteq> PersistenceModePersistent)"
    using assms unfolding NormalizePersistenceMode_def Let_def
    by - (rule ccontr, simp split: if_split_asm)+
  then show "PersistenceMode_IsValid mode" "\<not> (?sc = StorageClassUnversioned \<and> mode \<noteq> PersistenceModePersistent)"
    by simp_all
  have "?sc = [] \<or> ?sc = StorageClassVersioned \<or> ?sc = StorageClassUnversioned \<or> ?sc = StorageClassEphemeral"
    using g(3) by (simp add: StorageClass_IsValid_def validStorageClasses_def)
  then show "coherent (Ephemeral i) (NoHistory i) ?sc"
    using g(2,4,5) by (elim disjE) (simp_all add: coherent_def)
qed

lemma NormalizePersistenceMode_ok:
  assumes "PersistenceMode_IsValid mode" "coherent (Ephemeral i) (NoHistory i) (StorageClass i)"
    "\<not> (StorageClass i = StorageClassUnversioned \<and> mode \<noteq> PersistenceModePersistent)"
  shows "NormalizePersistenceMode i mode = Inr (move_plane mode (Ephemeral i, NoHistory i, StorageClass i))"
  using modes [OF assms(1)] coherent_cases [OF assms(2)] assms(3)
  by (elim disjE)
    (simp_all add: NormalizePersistenceMode_def move_plane_def StorageClass_IsValid_def
      validStorageClasses_def PersistenceMode_IsValid_def validPersistenceModes_def persistenceMode_def)

lemma move_plane_result:
  assumes "PersistenceMode_IsValid mode" "coherent e n c"
    "\<not> (c = StorageClassUnversioned \<and> mode \<noteq> PersistenceModePersistent)" "move_plane mode (e, n, c) = (e', n', c')"
  shows "coherent e' n' c' \<and> (c = StorageClassUnversioned) = (c' = StorageClassUnversioned)
    \<and> move_plane mode (e', n', c') = (e', n', c')
    \<and> (if n' then PersistenceModeNoHistory else if e' then PersistenceModeEphemeral else PersistenceModePersistent) = mode"
  using modes [OF assms(1)] coherent_cases [OF assms(2)] assms(3,4)
  by (elim disjE) (auto simp: move_plane_def coherent_def)

section \<open>Properties\<close>

text \<open>
  C17: a request for a persistence mode succeeds exactly when the mode is known, the issue's plane
  and class agree, and it does not ask an unversioned record to leave the persistent plane.
\<close>

theorem NormalizePersistenceMode_accepts:
  "(\<exists>r. NormalizePersistenceMode i mode = Inr r) =
   (PersistenceMode_IsValid mode \<and> coherent (Ephemeral i) (NoHistory i) (StorageClass i)
    \<and> \<not> (StorageClass i = StorageClassUnversioned \<and> mode \<noteq> PersistenceModePersistent))"
  using NormalizePersistenceMode_guards [of i mode] NormalizePersistenceMode_ok [of mode i] by blast

text \<open>
  C11: when it succeeds, the issue with the three returned fields is in the requested mode, its plane
  and class still agree, an unversioned record is still unversioned, and asking again returns the
  same three fields.
\<close>

theorem NormalizePersistenceMode_result:
  assumes "NormalizePersistenceMode i mode = Inr (eph, noh, sc)"
    and "j = i\<lparr>Ephemeral := eph, NoHistory := noh, StorageClass := sc\<rparr>"
  shows "persistenceMode j = mode \<and> coherent eph noh sc
    \<and> (StorageClass i = StorageClassUnversioned) = (sc = StorageClassUnversioned)
    \<and> NormalizePersistenceMode j mode = Inr (eph, noh, sc)"
proof -
  note ok = NormalizePersistenceMode_guards [OF assms(1)]
  then have mv: "move_plane mode (Ephemeral i, NoHistory i, StorageClass i) = (eph, noh, sc)"
    using NormalizePersistenceMode_ok [of mode i] assms(1) by simp
  note r = move_plane_result [OF ok mv]
  have "NormalizePersistenceMode j mode = Inr (move_plane mode (Ephemeral j, NoHistory j, StorageClass j))"
    by (rule NormalizePersistenceMode_ok) (use ok r in \<open>simp_all add: assms(2)\<close>)
  with r show ?thesis unfolding assms(2) persistenceMode_def by (simp split: if_splits)
qed

theorem NormalizePersistenceMode_result_witness:
  "NormalizePersistenceMode (Issue_zero\<lparr>Ephemeral := True, StorageClass := ''ephemeral''\<rparr>) ''persistent''
     = Inr (False, False, [])
   \<and> persistenceMode (Issue_zero\<lparr>Ephemeral := False, NoHistory := False, StorageClass := []\<rparr>) = ''persistent''"
proof -
  let ?i = "Issue_zero\<lparr>Ephemeral := True, StorageClass := ''ephemeral''\<rparr>"
  have n: "NormalizePersistenceMode ?i ''persistent'' = Inr (False, False, [])"
    by (simp add: NormalizePersistenceMode_def PersistenceMode_IsValid_def validPersistenceModes_def
        StorageClass_IsValid_def validStorageClasses_def persistenceMode_def Issue_zero_def)
  from NormalizePersistenceMode_result [OF n refl] n show ?thesis by simp
qed

text \<open>
  C16: the revision token is an exact code of the 64-bit integers: a text parses to a number exactly
  when it is the token of that number.
\<close>

theorem RevisionToken_exact:
  "(ParseRevisionToken s = Inr v) = (int64_range v \<and> s = RevisionToken v)"
proof
  assume p: "ParseRevisionToken s = Inr v"
  then have pi: "parse_int s = Some v" "\<not> has_prefix s ''+''" "\<not> (has_prefix s ''-'' \<and> tl s = ''0'')"
    "length (if has_prefix s ''-'' then tl s else s) \<le> 1 \<or> (if has_prefix s ''-'' then tl s else s) ! 0 \<noteq> CHR ''0''"
    unfolding ParseRevisionToken_def Let_def
    by (auto simp del: One_nat_def split: if_splits option.splits)
  from int_to_string_parse [OF this] parse_int_range [OF pi(1)]
  show "int64_range v \<and> s = RevisionToken v" by (simp add: RevisionToken_def)
next
  assume "int64_range v \<and> s = RevisionToken v"
  then have v: "int64_range v" and s: "s = int_to_string v" by (simp_all add: RevisionToken_def)
  then have "parse_int s = Some v" by (simp add: parse_int_to_string)
  moreover have "\<not> (has_prefix s ''-'' \<and> (if has_prefix s ''-'' then tl s else s) = ''0'')"
    using token_shape(2) [of v] s by (simp cong: conj_cong)
  ultimately show "ParseRevisionToken s = Inr v"
    using token_shape(1,3) [of v] unfolding ParseRevisionToken_def Let_def s
    by (simp only: if_False option.case)
qed

end
