(* ===== verification/IssueRow.thy ===== *)
theory IssueRow
  imports SqlFilter GoJson Persistence
begin

text \<open>
  An issue as a row of the tables \<open>issues\<close> and \<open>wisps\<close>, \<open>internal/storage/issueops/helpers.go\<close>: the
  routing between the two, the INSERT statement with its columns and arguments, the assignments of
  its ON DUPLICATE KEY UPDATE clause, and the splitting of a long insert into statements. The value
  of \<open>freshRowLock\<close>, a random number, is an argument.
\<close>

section \<open>Routing\<close>

definition IsWisp :: "Issue \<Rightarrow> bool" where
  "IsWisp i = (case WispPlaneOverride i of Some b \<Rightarrow> b | None \<Rightarrow> Ephemeral i \<or> NoHistory i)"

definition TableRouting :: "Issue \<Rightarrow> string \<times> string" where
  "TableRouting i = (if IsWisp i then (''wisps'', ''wisp_events'') else (''issues'', ''events''))"

section \<open>Nullable values\<close>

definition NullString :: "string \<Rightarrow> sql_val" where
  "NullString s = (if s = [] then VNull else VStr s)"

definition NullStringPtr :: "string option \<Rightarrow> sql_val" where
  "NullStringPtr s = (case s of None \<Rightarrow> VNull | Some v \<Rightarrow> VStr v)"

definition NullInt :: "int option \<Rightarrow> sql_val" where
  "NullInt i = (case i of None \<Rightarrow> VNull | Some v \<Rightarrow> VInt v)"

definition NullIntVal :: "int \<Rightarrow> sql_val" where
  "NullIntVal i = (if i = 0 then VNull else VInt i)"

definition JSONMetadata :: "string \<Rightarrow> string" where
  "JSONMetadata m = (if m = [] then ''{}'' else if \<not> json_Valid m then ''{}'' else m)"

definition FormatJSONStringArray :: "string list \<Rightarrow> string" where
  "FormatJSONStringArray arr = (if arr = [] then [] else ''['' @ join (map json_quote arr) '','' @ '']'')"

definition time_val :: "Time \<Rightarrow> sql_val" where
  "time_val t = VTime (unix_nano t)"

definition time_ptr :: "Time option \<Rightarrow> sql_val" where
  "time_ptr t = (case t of None \<Rightarrow> VNull | Some v \<Rightarrow> time_val v)"

definition bool_val :: "bool \<Rightarrow> sql_val" where
  "bool_val b = VInt (of_bool b)"

section \<open>The INSERT statement\<close>

definition insert_column_lines :: "string list list" where
  "insert_column_lines =
    [[''id'', ''content_hash'', ''title'', ''description'', ''design'', ''acceptance_criteria'', ''notes''],
     [''status'', ''priority'', ''issue_type'', ''assignee'', ''estimated_minutes''],
     [''created_at'', ''created_by'', ''owner'', ''updated_at'', ''started_at'', ''closed_at'', ''external_ref'', ''spec_id''],
     [''compaction_level'', ''compacted_at'', ''compacted_at_commit'', ''original_size''],
     [''sender'', ''ephemeral'', ''no_history'', ''wisp_type'', ''pinned'', ''is_template''],
     [''mol_type'', ''work_type'', ''source_system'', ''source_repo'', ''close_reason'', ''closed_by_session''],
     [''event_kind'', ''actor'', ''target'', ''payload''],
     [''await_type'', ''await_id'', ''timeout_ns'', ''waiters''],
     [''due_at'', ''defer_until'', ''metadata''],
     [''row_lock'', ''storage_class'']]"

definition tabs :: "nat \<Rightarrow> string" where
  "tabs n = CHR 10 # replicate n (CHR 9)"

definition issueInsertRow :: string where
  "issueInsertRow =
    ''('' @ tabs 3 @ join (map (\<lambda>n. join (replicate n ''?'') '', '') [7, 6, 8, 4, 6, 5, 4, 4, 3, 2]) ('','' @ tabs 3) @ tabs 2 @ '')''"

definition issueInsertSQL :: "string \<Rightarrow> nat \<Rightarrow> string \<Rightarrow> string" where
  "issueInsertSQL table rows onDuplicate =
    tabs 2 @ ''INSERT INTO '' @ table @ '' ('' @ tabs 3
    @ join (map (\<lambda>cs. join cs '', '') insert_column_lines) ('','' @ tabs 3)
    @ tabs 2 @ '') VALUES '' @ join (replicate rows issueInsertRow) '', '' @ tabs 2 @ onDuplicate @ tabs 1"

definition issueInsertArgs :: "int \<Rightarrow> Issue \<Rightarrow> sql_val list" where
  "issueInsertArgs freshRowLock i =
    [VStr (Issue.ID i), VStr (ContentHash i), VStr (Title i), VStr (Description i), VStr (Design i),
     VStr (AcceptanceCriteria i), VStr (Notes i),
     VStr (Status i), VInt (Priority i), VStr (IssueType i), NullString (Assignee i), NullInt (EstimatedMinutes i),
     time_val (CreatedAt i), VStr (CreatedBy i), VStr (Owner i), time_val (UpdatedAt i), time_ptr (StartedAt i),
     time_ptr (ClosedAt i), NullStringPtr (ExternalRef i), VStr (SpecID i),
     VInt (CompactionLevel i), time_ptr (CompactedAt i), NullStringPtr (CompactedAtCommit i), NullIntVal (OriginalSize i),
     VStr (Sender i), bool_val (Ephemeral i), bool_val (NoHistory i), VStr (WispType i), bool_val (Pinned i),
     bool_val (IsTemplate i),
     VStr (MolType i), VStr (WorkType i), VStr (SourceSystem i), VStr (SourceRepo i), VStr (CloseReason i),
     VStr (ClosedBySession i),
     VStr (EventKind i), VStr (Actor i), VStr (Target i), VStr (Payload i),
     VStr (AwaitType i), VStr (AwaitID i), VInt (Timeout i), VStr (FormatJSONStringArray (Waiters i)),
     time_ptr (DueAt i), time_ptr (DeferUntil i), VStr (JSONMetadata (Metadata i)),
     VInt freshRowLock, NullString (StorageClass_Normalize (StorageClass i))]"

text \<open>The row that the statement writes, and \<open>is_blocked\<close>, which is kept by other statements.\<close>

definition issue_row :: "int \<Rightarrow> Issue \<Rightarrow> row" where
  "issue_row freshRowLock i c =
    (if c = ''is_blocked'' then bool_val (IsBlocked i)
     else case map_of (zip (concat insert_column_lines) (issueInsertArgs freshRowLock i)) c of
       Some v \<Rightarrow> v | None \<Rightarrow> VNull)"

section \<open>Updating an existing row\<close>

definition issueUpsertColumns :: "string list" where
  "issueUpsertColumns =
    [''content_hash'', ''title'', ''description'', ''design'', ''acceptance_criteria'',
     ''notes'', ''status'', ''priority'', ''issue_type'', ''assignee'',
     ''estimated_minutes'', ''started_at'', ''closed_at'', ''external_ref'',
     ''source_repo'', ''close_reason'', ''closed_by_session'', ''metadata'',
     ''row_lock'', ''updated_at'']"

definition issueUpsertAssignments :: "string \<Rightarrow> bool \<Rightarrow> string" where
  "issueUpsertAssignments table rejectStaleUpdate =
    join (map (\<lambda>col.
      if rejectStaleUpdate
      then col @ '' = IF(VALUES(updated_at) > '' @ table @ ''.updated_at, VALUES('' @ col @ ''), '' @ table @ ''.'' @ col @ '')''
      else col @ '' = VALUES('' @ col @ '')'') issueUpsertColumns) ('','' @ tabs 3)"

text \<open>
  The meaning of the clause: the assignments are evaluated from left to right on the stored row, and
  each one sees the columns that the ones before it have written.
\<close>

definition upsert_assign :: "engine \<Rightarrow> bool \<Rightarrow> row \<Rightarrow> string \<Rightarrow> row \<Rightarrow> row" where
  "upsert_assign e reject new col old =
    old(col := if \<not> reject \<or> vcmp e ''>'' (new ''updated_at'') (old ''updated_at'') = Some True then new col else old col)"

definition upsert :: "engine \<Rightarrow> bool \<Rightarrow> row \<Rightarrow> row \<Rightarrow> row" where
  "upsert e reject new old = fold (upsert_assign e reject new) issueUpsertColumns old"

section \<open>Splitting a long insert\<close>

definition issueInsertRowsPerStatement :: nat where
  "issueInsertRowsPerStatement = 100"

definition issueInsertBytesPerStatement :: nat where
  "issueInsertBytesPerStatement = 16 * 2 ^ 20"

definition issueInsertRowBytes :: "Issue \<Rightarrow> nat" where
  "issueInsertRowBytes i =
    1024 + length (Title i) + length (Description i) + length (Design i) + length (AcceptanceCriteria i)
    + length (Notes i) + length (Metadata i) + length (Payload i) + length (CloseReason i) + length (Target i)
    + sum_list (map (\<lambda>w. length w + 3) (Waiters i))"

text \<open>The loop carries the chunk that is open, its byte count, and the issues still to come.\<close>

fun insert_chunks :: "Issue list \<Rightarrow> nat \<Rightarrow> Issue list \<Rightarrow> Issue list list" where
  "insert_chunks chunk bytes [] = (if chunk \<noteq> [] then [chunk] else [])"
| "insert_chunks chunk bytes (i # is) =
    (let rowBytes = issueInsertRowBytes i in
     if chunk \<noteq> [] \<and> (issueInsertRowsPerStatement \<le> length chunk \<or> issueInsertBytesPerStatement < bytes + rowBytes)
     then chunk # insert_chunks [i] rowBytes is
     else insert_chunks (chunk @ [i]) (bytes + rowBytes) is)"

definition issueInsertChunks :: "Issue list \<Rightarrow> Issue list list" where
  "issueInsertChunks issues = insert_chunks [] 0 issues"

section \<open>The statement and its arguments\<close>

lemma marks_replicate: "marks (concat (replicate n s)) = n * marks s"
  by (induction n) auto

lemma marks_tabs [simp]: "marks (tabs n) = 0"
  by (induction n) (auto simp: tabs_def)

lemma sum_list_replicate_marks: "sum_list (replicate n (k :: nat)) = n * k"
  by (induction n) auto

lemma marks_row: "marks issueInsertRow = 49"
  by (simp add: issueInsertRow_def marks_join sum_list_replicate_marks)


lemma length_args: "length (issueInsertArgs l i) = 49"
  by (simp add: issueInsertArgs_def)

lemma length_columns: "length (concat insert_column_lines) = 49" "distinct (concat insert_column_lines)"
  by (simp_all add: insert_column_lines_def)

lemma marks_insert:
  "marks table = 0 \<Longrightarrow> marks sfx = 0 \<Longrightarrow> marks (issueInsertSQL table n sfx) = n * 49"
  by (simp add: issueInsertSQL_def marks_join marks_row insert_column_lines_def sum_list_replicate_marks)

lemma marks_upsert: "marks table = 0 \<Longrightarrow> marks (issueUpsertAssignments table b) = 0"
proof -
  assume t: "marks table = 0"
  have "list_all (\<lambda>c. marks c = 0) issueUpsertColumns" by (simp add: issueUpsertColumns_def)
  then show ?thesis using t by (auto simp: issueUpsertAssignments_def marks_join list_all_iff)
qed

text \<open>
  The insert of a batch binds every column of every issue. The statement for \<open>n\<close> rows has as many
  question marks as the argument lists of \<open>n\<close> issues have entries together, with the plain
  statement and with either form of the ON DUPLICATE KEY UPDATE clause, and there is one argument for
  every column of the column list.
\<close>

theorem issueInsertSQL_bound:
  assumes "table \<in> {''issues'', ''wisps''}" "sfx \<in> {[], ''ON DUPLICATE KEY UPDATE'' @ tabs 3 @ issueUpsertAssignments table reject}"
  shows "marks (issueInsertSQL table (length issues) sfx) = length (concat (map (issueInsertArgs l) issues))
    \<and> length (issueInsertArgs l i) = length (concat insert_column_lines)"
proof -
  have "marks table = 0" using assms(1) by auto
  then have "marks sfx = 0" using assms(2) marks_upsert [of table reject] by auto
  with \<open>marks table = 0\<close> have "marks (issueInsertSQL table (length issues) sfx) = length issues * 49"
    by (rule marks_insert)
  moreover have "length (concat (map (issueInsertArgs l) issues)) = length issues * 49"
    by (simp add: length_concat comp_def length_args sum_list_triv mult.commute)
  ultimately show ?thesis by (simp only: length_args length_columns)
qed

theorem issueInsertSQL_bound_witness:
  "marks (issueInsertSQL ''wisps'' (length [Issue_zero, Issue_zero]) []) = length (concat (map (issueInsertArgs 7) [Issue_zero, Issue_zero]))
   \<and> length (issueInsertArgs 7 Issue_zero) = length (concat insert_column_lines)"
  by (rule issueInsertSQL_bound) simp_all

section \<open>The stale guard\<close>

lemma upsert_keeps:
  "vcmp e ''>'' (new ''updated_at'') (old ''updated_at'') \<noteq> Some True \<Longrightarrow> fold (upsert_assign e True new) cs old = old"
  by (induction cs arbitrary: old) (auto simp: upsert_assign_def)

lemma upsert_takes:
  assumes "reject \<longrightarrow> vcmp e ''>'' (new ''updated_at'') (old ''updated_at'') = Some True" "''updated_at'' \<notin> set cs"
  shows "fold (upsert_assign e reject new) cs old c = (if c \<in> set cs then new c else old c)
       \<and> fold (upsert_assign e reject new) cs old ''updated_at'' = old ''updated_at''"
  using assms by (induction cs arbitrary: old rule: list.induct) (auto simp: upsert_assign_def)


section \<open>The chunks\<close>

definition chunk_bytes :: "Issue list \<Rightarrow> nat" where
  "chunk_bytes is = sum_list (map issueInsertRowBytes is)"

definition chunk_ok :: "Issue list \<Rightarrow> bool" where
  "chunk_ok c = (c \<noteq> [] \<and> length c \<le> issueInsertRowsPerStatement
      \<and> (chunk_bytes c \<le> issueInsertBytesPerStatement \<or> length c = 1))"

lemma insert_chunks_props:
  assumes "chunk \<noteq> [] \<longrightarrow> chunk_ok chunk" "bytes = chunk_bytes chunk"
  shows "concat (insert_chunks chunk bytes is) = chunk @ is \<and> list_all chunk_ok (insert_chunks chunk bytes is)"
  using assms
proof (induction chunk bytes "is" rule: insert_chunks.induct)
  case (2 chunk bytes i "is")
  show ?case
  proof (cases "chunk \<noteq> [] \<and> (issueInsertRowsPerStatement \<le> length chunk \<or> issueInsertBytesPerStatement < bytes + issueInsertRowBytes i)")
    case True
    have "chunk_ok [i]" by (simp add: chunk_ok_def issueInsertRowsPerStatement_def)
    with 2 True show ?thesis by (auto simp: Let_def chunk_bytes_def)
  next
    case False
    have "chunk_ok (chunk @ [i])" using False 2(3,4)
      by (auto simp: chunk_ok_def chunk_bytes_def issueInsertRowsPerStatement_def)
    with 2 False show ?thesis by (auto simp: Let_def chunk_bytes_def)
  qed
qed simp

text \<open>
  C38: splitting a batch keeps it. The chunks of a batch are its issues in order, none is empty, none
  has more than a hundred rows, and none exceeds the byte budget unless it is a single row.
\<close>

theorem issueInsertChunks_splits:
  "concat (issueInsertChunks issues) = issues \<and> list_all chunk_ok (issueInsertChunks issues)"
  using insert_chunks_props [of "[]" 0 issues] by (simp_all add: issueInsertChunks_def chunk_bytes_def)

end
