(* ===== verification/SqlReady.thy ===== *)
theory SqlReady
  imports IssueRow
begin

text \<open>
  Ready work and lease reclaim as SQL, \<open>internal/storage/sqlbuild/ready.go\<close>, \<open>reclaim.go\<close> and
  \<open>descendants.go\<close>. \<open>UTC_TIMESTAMP()\<close> in a clause has the value of the argument \<open>now\<close>.
\<close>

section \<open>The ready-work clauses\<close>

record WorkFilter =
  wStatus :: Status
  wStatuses :: "Status list"
  wType :: string
  wPriority :: "int option"
  wAssignee :: "string option"
  wUnassigned :: bool
  wLabels :: "string list"
  wLabelsAny :: "string list"
  wExcludeLabels :: "string list"
  wLabelPattern :: string
  wLabelRegex :: string
  wLimit :: int
  wSortPolicy :: string
  wParentID :: "string option"
  wMoleculeID :: string
  wMolType :: "MolType option"
  wWispType :: "WispType option"
  wIncludeDeferred :: bool
  wIncludeEphemeral :: bool
  wExcludeTypes :: "IssueType list"
  wExcludeIDs :: "string list"
  wMetadataFields :: "(string \<times> string) list"
  wHasMetadataKey :: string
  wOffset :: int
  wMaxRows :: int
  wMaxRowsSource :: string
  wLite :: bool

definition WorkFilter_zero :: WorkFilter where
  "WorkFilter_zero = \<lparr>wStatus = [], wStatuses = [], wType = [], wPriority = None, wAssignee = None,
     wUnassigned = False, wLabels = [], wLabelsAny = [], wExcludeLabels = [],
     wLabelPattern = [], wLabelRegex = [], wLimit = 0, wSortPolicy = [], wParentID = None,
     wMoleculeID = [], wMolType = None, wWispType = None, wIncludeDeferred = False,
     wIncludeEphemeral = False, wExcludeTypes = [], wExcludeIDs = [], wMetadataFields = [],
     wHasMetadataKey = [], wOffset = 0, wMaxRows = 0, wMaxRowsSource = [],
     wLite = False\<rparr>"

definition DefaultInfraTypes :: "string list" where
  "DefaultInfraTypes = [''agent'', ''role'', ''message'']"

text \<open>The extra types that are neither empty nor already there, each once.\<close>

fun add_types :: "IssueType list \<Rightarrow> IssueType list \<Rightarrow> IssueType list" where
  "add_types out [] = out"
| "add_types out (t # ts) = (if t = [] \<or> t \<in> set out then add_types out ts else add_types (out @ [t]) ts)"

definition ReadyWorkExcludeTypes :: "IssueType list \<Rightarrow> IssueType list" where
  "ReadyWorkExcludeTypes extra =
    add_types ([''merge-request'', TypeGate, TypeMolecule, ''rig''] @ DefaultInfraTypes) extra"

record ReadyWorkOrder =
  SQL :: string
  OrderArgs :: "sql_val list"

definition BuildReadyWorkOrder :: "Time \<Rightarrow> string \<Rightarrow> string \<Rightarrow> string \<Rightarrow> ReadyWorkOrder" where
  "BuildReadyWorkOrder now policy createdCol priorityCol =
    (if policy = ''oldest'' then \<lparr>SQL = ''ORDER BY '' @ createdCol @ '' ASC, id ASC'', OrderArgs = []\<rparr>
     else if policy = ''hybrid'' \<or> policy = [] then
       let recentCutoff = VTime (unix_nano (Add (UTC now) (-48 * Hour))) in
       \<lparr>SQL = ''ORDER BY'' @ tabs 3 @ ''CASE WHEN '' @ createdCol @ '' >= ? THEN 0 ELSE 1 END ASC,'' @ tabs 3
              @ ''CASE WHEN '' @ createdCol @ '' >= ? THEN '' @ priorityCol @ '' ELSE 999 END ASC,'' @ tabs 3
              @ createdCol @ '' ASC, id ASC'',
        OrderArgs = [recentCutoff, recentCutoff]\<rparr>
     else \<lparr>SQL = ''ORDER BY '' @ priorityCol @ '' ASC, '' @ createdCol @ '' ASC, id ASC'', OrderArgs = []\<rparr>)"

record ReadyWorkWhereInputs =
  DeferredChildIDs :: "string list"
  ParentDescendantIDs :: "string list"

definition QueryBatchSize :: nat where
  "QueryBatchSize = 200"

function batches :: "'a list \<Rightarrow> 'a list list" where
  "batches xs = (if xs = [] then [] else take QueryBatchSize xs # batches (drop QueryBatchSize xs))"
  by auto
termination by (relation "measure length") (auto simp: QueryBatchSize_def)

definition status_clause :: "WorkFilter \<Rightarrow> pred" where
  "status_clause f =
    (if wStatus f \<noteq> [] then
       if wStatus f = StatusOpen
       then OrP [eq_str ''status'' (wStatus f),
                 InSel False (Col ''status'') ''name'' ''custom_statuses'' (Cmp (Col ''category'') ''='' (lit_str ''active''))]
       else eq_str ''status'' (wStatus f)
     else if wStatuses f \<noteq> [] then in_args False ''status'' '','' (wStatuses f)
     else InList False (Col ''status'') '', '' [lit_str ''open'', lit_str ''in_progress''])"

definition defer_clauses :: "Time \<Rightarrow> WorkFilter \<Rightarrow> ReadyWorkWhereInputs \<Rightarrow> pred list" where
  "defer_clauses now f inp =
    only (\<not> wIncludeDeferred f)
      (OrP [NullP False (Col ''defer_until''),
            Cmp (Col ''defer_until'') ''<='' (Const ''UTC_TIMESTAMP()'' (VTime (unix_nano now)))]
       # map (in_args True ''id'' '','') (batches (DeferredChildIDs inp)))"

definition parent_clause :: "FilterTables \<Rightarrow> ReadyWorkWhereInputs \<Rightarrow> string \<Rightarrow> pred" where
  "parent_clause tables inp parent =
    OrP (dotted_orphan tables parent # map (in_args False ''id'' '','') (batches (ParentDescendantIDs inp)))"

definition ready_work_preds :: "Time \<Rightarrow> WorkFilter \<Rightarrow> FilterTables \<Rightarrow> ReadyWorkWhereInputs \<Rightarrow> sql_error + pred list" where
  "ready_work_preds now f tables inp =
    AppendMetadataClauses
     ([status_clause f, flag_pred ''pinned'' False, Cmp (Col ''is_blocked'') ''='' (lit_int 0)]
      @ only (\<not> wIncludeEphemeral f) [flag_pred ''ephemeral'' False]
      @ opt (\<lambda>p. Cmp (Col ''priority'') ''='' (Arg (VInt p))) (wPriority f)
      @ [if wType f \<noteq> [] then eq_str ''issue_type'' (wType f)
         else in_args True ''issue_type'' '','' (ReadyWorkExcludeTypes (wExcludeTypes f))]
      @ (if wUnassigned f then [empty_pred ''assignee''] else opt (eq_str ''assignee'') (wAssignee f))
      @ defer_clauses now f inp
      @ map (in_args True ''id'' '','') (batches (wExcludeIDs f))
      @ LabelSetClauses ''id'' tables (wLabels f) (wLabelsAny f) (wExcludeLabels f)
      @ only (wLabelPattern f \<noteq> [])
          [InSel False (Col ''id'') ''issue_id'' (LabelsTab tables)
             (LikeEscP (Col ''label'') (arg_str (globToLikePattern (wLabelPattern f))))]
      @ only (wLabelRegex f \<noteq> [])
          [InSel False (Col ''id'') ''issue_id'' (LabelsTab tables) (RegexpP (Col ''label'') (arg_str (wLabelRegex f)))]
      @ opt (parent_clause tables inp) (wParentID f)
      @ only (wMoleculeID f \<noteq> []) [child_of tables (wMoleculeID f)])
     (wHasMetadataKey f) (wMetadataFields f)"

definition BuildReadyWorkWhere :: "Time \<Rightarrow> WorkFilter \<Rightarrow> FilterTables \<Rightarrow> ReadyWorkWhereInputs \<Rightarrow> sql_error + string \<times> sql_val list" where
  "BuildReadyWorkWhere now f tables inp =
    (case ready_work_preds now f tables inp of
       Inl e \<Rightarrow> Inl e
     | Inr ps \<Rightarrow> Inr (''WHERE '' @ join (map pred_text ps) '' AND '', concat (map pred_args ps)))"

section \<open>The scope of a reclaim\<close>

record ReclaimFilter =
  rIDs :: "string list"
  rAssignees :: "string list"
  rLabels :: "string list"
  rLabelsAny :: "string list"
  rExcludeLabels :: "string list"
  rAnyReplica :: bool

definition ReclaimFilter_IsEmpty :: "ReclaimFilter \<Rightarrow> bool" where
  "ReclaimFilter_IsEmpty f =
    (rIDs f = [] \<and> rAssignees f = [] \<and> rLabels f = [] \<and> rLabelsAny f = [] \<and> rExcludeLabels f = [])"

definition degenerate :: "string list \<Rightarrow> string list \<Rightarrow> bool" where
  "degenerate raw compacted = (raw \<noteq> [] \<and> compacted = [])"

definition scope_clause :: "string list \<Rightarrow> (string list \<Rightarrow> pred list) \<Rightarrow> pred list" where
  "scope_clause raw f =
    (let vs = CompactNonEmptyStrings raw in
     if degenerate raw vs then [Never] else if vs \<noteq> [] then f vs else [])"

definition BuildReclaimScopeClauses :: "ReclaimFilter \<Rightarrow> FilterTables \<Rightarrow> string \<Rightarrow> pred list" where
  "BuildReclaimScopeClauses f tables alias =
    (let col = (\<lambda>name. if alias = [] then name else alias @ ''.'' @ name) in
     scope_clause (rIDs f) (\<lambda>ids. [in_args False (col ''id'') '','' ids])
     @ scope_clause (rAssignees f) (\<lambda>as. [in_args False (col ''assignee'') '','' as])
     @ scope_clause (rLabels f) (map (has_label (col ''id'') tables))
     @ scope_clause (rLabelsAny f) (\<lambda>ls. [has_label_in False (col ''id'') '','' tables ls])
     @ scope_clause (rExcludeLabels f) (\<lambda>ls. [has_label_in True (col ''id'') '','' tables ls]))"

definition ReclaimScopeSQL :: "ReclaimFilter \<Rightarrow> FilterTables \<Rightarrow> string \<Rightarrow> string \<times> sql_val list" where
  "ReclaimScopeSQL f tables alias =
    (let clauses = BuildReclaimScopeClauses f tables alias in
     if clauses = [] then ([], [])
     else ('' AND '' @ join (map pred_text clauses) '' AND '', concat (map pred_args clauses)))"

section \<open>The transitive children of an issue\<close>

definition descendantWalkTargetCols :: "string list" where
  "descendantWalkTargetCols = [''depends_on_issue_id'', ''depends_on_wisp_id'', ''depends_on_external'']"

definition descendantWalkTables :: "bool \<Rightarrow> string list" where
  "descendantWalkTables includeWisps = (if includeWisps then [''dependencies'', ''wisp_dependencies''] else [''dependencies''])"

definition nullGuards :: "string \<Rightarrow> string list \<Rightarrow> string" where
  "nullGuards pre cols = concat (map (\<lambda>col. '' AND '' @ pre @ col @ '' IS NULL'') cols)"

definition squoted :: "string \<Rightarrow> string" where
  "squoted s = [CHR 39] @ s @ [CHR 39]"

definition walk_members :: "bool \<Rightarrow> (string \<times> nat) list" where
  "walk_members includeWisps =
    concat (map (\<lambda>t. map (\<lambda>i. (t, i)) [0..<length descendantWalkTargetCols]) (descendantWalkTables includeWisps))"

definition walk_anchor :: "string \<times> nat \<Rightarrow> string" where
  "walk_anchor m = (case m of (table, i) \<Rightarrow>
     tabs 4 @ ''SELECT issue_id, 1, CONCAT('' @ squoted '','' @ '', ?, '' @ squoted '','' @ '', issue_id, '' @ squoted '','' @ '')''
     @ tabs 4 @ ''FROM '' @ table
     @ tabs 4 @ ''WHERE type = '' @ squoted ''parent-child'' @ '' AND '' @ (descendantWalkTargetCols ! i) @ '' = ?''
     @ nullGuards [] (take i descendantWalkTargetCols))"

definition walk_step :: "string \<times> nat \<Rightarrow> string" where
  "walk_step m = (case m of (table, i) \<Rightarrow>
     tabs 4 @ ''SELECT /*+ JOIN_ORDER(d,e) LOOKUP_JOIN(d,e) */ e.issue_id, d.depth + 1, CONCAT(d.path, e.issue_id, '' @ squoted '','' @ '')''
     @ tabs 4 @ ''FROM descendants d''
     @ tabs 4 @ ''JOIN '' @ table @ '' e ON e.'' @ (descendantWalkTargetCols ! i) @ '' = d.id AND e.type = '' @ squoted ''parent-child''
     @ tabs 4 @ ''WHERE (? <= 0 OR d.depth < ?)'' @ nullGuards ''e.'' (take i descendantWalkTargetCols)
     @ tabs 4 @ ''  AND LOCATE(CONCAT('' @ squoted '','' @ '', e.issue_id, '' @ squoted '','' @ ''), d.path) = 0'')"

definition DescendantWalkQuery :: "bool \<Rightarrow> string" where
  "DescendantWalkQuery includeWisps =
    (let ms = walk_members includeWisps in
     tabs 3 @ ''WITH RECURSIVE'' @ tabs 3 @ ''descendants(id, depth, path) AS (''
     @ join (map walk_anchor ms @ map walk_step ms) (tabs 4 @ ''UNION ALL'')
     @ tabs 3 @ '')'' @ tabs 3 @ ''SELECT id, depth FROM descendants WHERE id <> ?'' @ tabs 2)"

definition DescendantWalkArgs :: "string \<Rightarrow> int \<Rightarrow> bool \<Rightarrow> sql_val list" where
  "DescendantWalkArgs rootID maxDepth includeWisps =
    (let members = length (descendantWalkTables includeWisps) * length descendantWalkTargetCols in
     concat (replicate members [VStr rootID, VStr rootID]) @ concat (replicate members [VInt maxDepth, VInt maxDepth])
     @ [VStr rootID])"

section \<open>Lemmas\<close>

text \<open>Splitting an id list into batches changes neither what is excluded nor what is included.\<close>

declare batches.simps [simp del]

lemma batches_Nil [simp]: "batches [] = []"
  by (simp add: batches.simps)

lemma concat_batches [simp]: "concat (batches xs) = xs"
proof (induction xs rule: batches.induct)
  case (1 xs)
  then show ?case by (cases "xs = []") (simp_all add: batches.simps [of xs])
qed

lemma batches_ne: "b \<in> set (batches xs) \<Longrightarrow> b \<noteq> [] \<and> length b \<le> QueryBatchSize"
proof (induction xs rule: batches.induct)
  case (1 xs)
  show ?case
  proof (cases "xs = []")
    case False
    then show ?thesis using 1 by (auto simp: batches.simps [of xs] QueryBatchSize_def)
  qed (use 1 in \<open>simp add: batches.simps\<close>)
qed

lemma set_batches: "(\<Union>b\<in>set (batches xs). set b) = set xs"
  by (metis concat_batches set_concat)

lemma in_args_str:
  "r c = VStr s \<Longrightarrow> pred_val e d r (in_args neg c sep vs) = Some ((s \<in> set vs) \<noteq> neg)"
  by (auto simp: in_args_def not_if_def or3_def ord_op_def)

lemma not_in_batches:
  assumes "r c = VStr s"
  shows "selects e d (map (in_args True c sep) (batches xs)) r \<longleftrightarrow> s \<notin> set xs"
proof -
  have "selects e d (map (in_args True c sep) (batches xs)) r \<longleftrightarrow> (\<forall>b\<in>set (batches xs). s \<notin> set b)"
    by (simp add: selects_map in_args_str [of r c s, OF assms])
  also have "\<dots> \<longleftrightarrow> s \<notin> set xs" using set_batches [of xs] by blast
  finally show ?thesis .
qed

lemma in_batches:
  assumes "r c = VStr s"
  shows "(\<exists>p\<in>set (map (in_args False c sep) (batches xs)). pred_val e d r p = Some True) \<longleftrightarrow> s \<in> set xs"
  using set_batches [of xs] by (auto simp: in_args_str [of r c s, OF assms])

lemma flag_pred_row:
  "r c = bool_val b \<Longrightarrow> pred_val e d r (flag_pred c v) = Some True \<longleftrightarrow> b = v"
  by (cases b) (auto simp: flag_pred_def or3_True lit_int_def bool_val_def ord_op_def)

lemma eq_str_row: "r c = VStr s \<Longrightarrow> pred_val e d r (eq_str c v) = Some True \<longleftrightarrow> s = v"
  by (simp add: eq_str_def ord_op_def)

lemma eq_str_null: "r c = NullString s \<Longrightarrow> pred_val e d r (eq_str c v) = Some True \<longleftrightarrow> s = v \<and> s \<noteq> []"
  by (simp add: eq_str_def ord_op_def NullString_def)

lemma empty_pred_null: "r c = NullString s \<Longrightarrow> pred_val e d r (empty_pred c) = Some True \<longleftrightarrow> s = []"
  by (auto simp: empty_pred_def or3_True lit_str_def NullString_def ord_op_def)

lemma ready_cols:
  "issue_row l i ''id'' = VStr (Issue.ID i)" "issue_row l i ''status'' = VStr (Status i)"
  "issue_row l i ''priority'' = VInt (Priority i)" "issue_row l i ''issue_type'' = VStr (IssueType i)"
  "issue_row l i ''assignee'' = NullString (Assignee i)" "issue_row l i ''pinned'' = bool_val (Pinned i)"
  "issue_row l i ''ephemeral'' = bool_val (Ephemeral i)" "issue_row l i ''is_blocked'' = bool_val (IsBlocked i)"
  "issue_row l i ''defer_until'' = time_ptr (DeferUntil i)"
  by (simp_all add: issue_row_def insert_column_lines_def issueInsertArgs_def)

section \<open>What is ready\<close>

definition custom_active :: "engine \<Rightarrow> db \<Rightarrow> Status \<Rightarrow> bool" where
  "custom_active e d s =
    (\<exists>r\<in>set (d ''custom_statuses'').
       vcmp e ''='' (r ''category'') (VStr ''active'') = Some True \<and> vcmp e ''='' (VStr s) (r ''name'') = Some True)"

definition status_ready :: "engine \<Rightarrow> db \<Rightarrow> WorkFilter \<Rightarrow> Status \<Rightarrow> bool" where
  "status_ready e d f s =
    (if wStatus f \<noteq> [] then s = wStatus f \<or> (wStatus f = StatusOpen \<and> custom_active e d s)
     else if wStatuses f \<noteq> [] then s \<in> set (wStatuses f)
     else s \<in> {StatusOpen, StatusInProgress})"

definition deferred :: "Time \<Rightarrow> Issue \<Rightarrow> bool" where
  "deferred now i = (case DeferUntil i of None \<Rightarrow> False | Some t \<Rightarrow> After t now)"

text \<open>The meaning of a work filter on the fields of an issue, and the filters it covers.\<close>

definition ready_issue :: "engine \<Rightarrow> db \<Rightarrow> Time \<Rightarrow> WorkFilter \<Rightarrow> ReadyWorkWhereInputs \<Rightarrow> Issue \<Rightarrow> bool" where
  "ready_issue e d now f inp i =
    (status_ready e d f (Status i) \<and> \<not> Pinned i \<and> \<not> IsBlocked i
     \<and> (Ephemeral i \<longrightarrow> wIncludeEphemeral f)
     \<and> (case wPriority f of None \<Rightarrow> True | Some p \<Rightarrow> Priority i = p)
     \<and> (if wType f \<noteq> [] then IssueType i = wType f else IssueType i \<notin> set (ReadyWorkExcludeTypes (wExcludeTypes f)))
     \<and> (if wUnassigned f then Assignee i = []
        else case wAssignee f of None \<Rightarrow> True | Some a \<Rightarrow> Assignee i = a \<and> a \<noteq> [])
     \<and> (wIncludeDeferred f \<or> \<not> deferred now i \<and> Issue.ID i \<notin> set (DeferredChildIDs inp))
     \<and> Issue.ID i \<notin> set (wExcludeIDs f))"

definition relations_free :: "WorkFilter \<Rightarrow> bool" where
  "relations_free f =
    (wLabels f = [] \<and> wLabelsAny f = [] \<and> wExcludeLabels f = [] \<and> wLabelPattern f = [] \<and> wLabelRegex f = []
     \<and> wParentID f = None \<and> wMoleculeID f = [] \<and> wHasMetadataKey f = [] \<and> wMetadataFields f = [])"

lemma status_clause_row:
  assumes "r ''status'' = VStr s"
  shows "pred_val e d r (status_clause f) = Some True \<longleftrightarrow> status_ready e d f s"
proof -
  have "pred_val e d r (InSel False (Col ''status'') ''name'' ''custom_statuses'' (Cmp (Col ''category'') ''='' (lit_str ''active'')))
     = Some True \<longleftrightarrow> custom_active e d s"
    by (auto simp: or3_True not_if_def custom_active_def lit_str_def assms image_iff eq_commute [of "Some True"])
  moreover have "pred_val e d r (InList False (Col ''status'') '', '' [lit_str ''open'', lit_str ''in_progress'']) = Some True
     \<longleftrightarrow> s \<in> {StatusOpen, StatusInProgress}"
    by (auto simp: or3_True not_if_def lit_str_def assms ord_op_def)
  ultimately show ?thesis
    using eq_str_row [of r "''status''" s] in_args_str [of r "''status''" s] assms
    by (auto simp: status_clause_def status_ready_def pred_val_Or simp del: pred_val.simps)
qed

lemma defer_row:
  "pred_val e d (issue_row l i) (OrP [NullP False (Col ''defer_until''),
      Cmp (Col ''defer_until'') ''<='' (Const t (VTime (unix_nano now)))]) = Some True \<longleftrightarrow> \<not> deferred now i"
  by (auto simp: or3_True ready_cols time_ptr_def time_val_def deferred_def After_def ord_op_def split: option.splits)

lemma blocked_row: "pred_val e d (issue_row l i) (Cmp (Col ''is_blocked'') ''='' (lit_int 0)) = Some True \<longleftrightarrow> \<not> IsBlocked i"
  by (simp add: ready_cols bool_val_def lit_int_def ord_op_def)

lemma priority_row: "pred_val e d (issue_row l i) (Cmp (Col ''priority'') ''='' (Arg (VInt p))) = Some True \<longleftrightarrow> Priority i = p"
  by (simp add: ready_cols ord_op_def)


definition example_work :: Issue where
  "example_work = Issue_zero\<lparr>ID := ''bd-1'', Status := StatusOpen, IssueType := TypeTask\<rparr>"


section \<open>Bound arguments\<close>

lemma clean_map_in_args [simp]: "marks c = 0 \<Longrightarrow> marks sep = 0 \<Longrightarrow> list_all clean (map (in_args neg c sep) xs)"
  by (simp add: list_all_iff in_args_def)

lemma clean_ready_base:
  assumes "clean_tables tables"
  shows "clean (status_clause f)" "list_all clean (defer_clauses now f inp)" "clean (parent_clause tables inp p)"
    "clean (child_of tables p)" "clean (in_args neg ''issue_type'' '','' ts)" "clean (flag_pred ''pinned'' b)" "clean (flag_pred ''ephemeral'' b)"
  using assms by (auto simp: status_clause_def defer_clauses_def parent_clause_def piece_defs clean_tables_def
      list_all_iff only_def)

lemma clean_ready:
  assumes "ready_work_preds now f tables inp = Inr ps" "clean_tables tables"
  shows "list_all clean ps"
  using assms(1) unfolding ready_work_preds_def
  by (rule clean_metadata)
    (use assms(2) clean_ready_base [OF assms(2)] clean_LabelSetClauses [OF assms(2), of "''id''"] in
     \<open>auto simp: eq_str_def empty_pred_def lit_str_def lit_int_def clean_tables_def intro!: clean_opt\<close>)

lemma marks_where: "list_all clean ps \<Longrightarrow> marks (join (map pred_text ps) '' AND '') = length (concat (map pred_args ps))"
  using bound_list [of ps] by (simp add: marks_join comp_def)

lemma walk_members_eval:
  "walk_members True = [(''dependencies'', 0), (''dependencies'', 1), (''dependencies'', 2),
     (''wisp_dependencies'', 0), (''wisp_dependencies'', 1), (''wisp_dependencies'', 2)]"
  "walk_members False = [(''dependencies'', 0), (''dependencies'', 1), (''dependencies'', 2)]"
  by (simp_all add: walk_members_def descendantWalkTables_def descendantWalkTargetCols_def upt_rec)

lemma marks_walk:
  assumes "marks table = 0" "i < 3"
  shows "marks (walk_anchor (table, i)) = 2" "marks (walk_step (table, i)) = 2"
proof -
  have i: "i = 0 \<or> i = 1 \<or> i = 2" using assms(2) by auto
  show "marks (walk_anchor (table, i)) = 2" "marks (walk_step (table, i)) = 2"
    using i assms(1) by (auto simp: walk_anchor_def walk_step_def squoted_def nullGuards_def descendantWalkTargetCols_def)
qed

text \<open>
  Every query of the ready path binds its arguments: the WHERE clause of ready work, the scope
  suffix of a reclaim and the recursive walk over the children have one question mark for every
  argument that the builder returns with the text.
\<close>

theorem ready_queries_bound:
  assumes "clean_tables tables" "marks alias = 0" "BuildReadyWorkWhere now f tables inp = Inr (text, args)"
  shows "marks text = length args
    \<and> marks (fst (ReclaimScopeSQL g tables alias)) = length (snd (ReclaimScopeSQL g tables alias))
    \<and> marks (DescendantWalkQuery includeWisps) = length (DescendantWalkArgs root depth includeWisps)"
proof (intro conjI)
  show "marks text = length args"
    using assms(3) marks_where clean_ready [OF _ assms(1)] by (auto simp: BuildReadyWorkWhere_def split: sum.splits)
  have "list_all clean (BuildReclaimScopeClauses g tables alias)"
    using assms(1,2) by (auto simp: BuildReclaimScopeClauses_def scope_clause_def Let_def piece_defs list_all_iff clean_tables_def)
  then show "marks (fst (ReclaimScopeSQL g tables alias)) = length (snd (ReclaimScopeSQL g tables alias))"
    using marks_where by (auto simp: ReclaimScopeSQL_def Let_def)
  show "marks (DescendantWalkQuery includeWisps) = length (DescendantWalkArgs root depth includeWisps)"
    by (cases includeWisps) (simp_all add: DescendantWalkQuery_def DescendantWalkArgs_def walk_members_eval marks_join marks_walk
        descendantWalkTables_def descendantWalkTargetCols_def length_concat)
qed

definition example_reclaim :: ReclaimFilter where
  "example_reclaim = \<lparr>rIDs = [], rAssignees = [''bo''], rLabels = [''x'', ''y''], rLabelsAny = [], rExcludeLabels = [], rAnyReplica = False\<rparr>"

theorem ready_queries_bound_witness:
  "\<exists>text args. BuildReadyWorkWhere Time_zero WorkFilter_zero IssuesFilterTables \<lparr>DeferredChildIDs = [], ParentDescendantIDs = []\<rparr> = Inr (text, args)
     \<and> marks text = length args
     \<and> marks (fst (ReclaimScopeSQL example_reclaim IssuesFilterTables ''i'')) = length (snd (ReclaimScopeSQL example_reclaim IssuesFilterTables ''i''))
     \<and> marks (DescendantWalkQuery True) = length (DescendantWalkArgs ''bd-1'' 0 True)"
proof -
  have "find (\<lambda>k. \<not> validMetadataKeyRe k) [] = None" by simp
  then obtain sql args where b: "BuildReadyWorkWhere Time_zero WorkFilter_zero IssuesFilterTables \<lparr>DeferredChildIDs = [], ParentDescendantIDs = []\<rparr> = Inr (sql, args)"
    by (simp add: BuildReadyWorkWhere_def ready_work_preds_def AppendMetadataClauses_def WorkFilter_zero_def)
  have "clean_tables IssuesFilterTables" "marks ''i'' = 0" by (simp_all add: clean_tables_def IssuesFilterTables_def)
  from ready_queries_bound [OF this b] b show ?thesis by blast
qed

section \<open>Reclaims fail closed\<close>

lemma scope_clause_Nil: "scope_clause raw f = [] \<longleftrightarrow> raw = [] \<or> (CompactNonEmptyStrings raw \<noteq> [] \<and> f (CompactNonEmptyStrings raw) = [])"
  by (auto simp: scope_clause_def Let_def degenerate_def CompactNonEmptyStrings_def)

lemma scope_clause_degenerate:
  "raw \<noteq> [] \<Longrightarrow> set raw \<subseteq> {[]} \<Longrightarrow> scope_clause raw f = [Never]"
  by (auto simp: scope_clause_def Let_def degenerate_def CompactNonEmptyStrings_def filter_empty_conv)

text \<open>
  C3: a scoped reclaim never becomes a global one. The scope clauses are empty only for the filter
  with no scope at all, and a scope field that holds nothing but empty strings, such as a label from
  an unset variable, makes the reclaim match no row.
\<close>

theorem reclaim_fails_closed:
  "(BuildReclaimScopeClauses f tables alias = [] \<longleftrightarrow> ReclaimFilter_IsEmpty f)
   \<and> (\<forall>raw \<in> {rIDs f, rAssignees f, rLabels f, rLabelsAny f, rExcludeLabels f}.
        raw \<noteq> [] \<and> set raw \<subseteq> {[]} \<longrightarrow> \<not> selects e d (BuildReclaimScopeClauses f tables alias) r)"
proof
  show "BuildReclaimScopeClauses f tables alias = [] \<longleftrightarrow> ReclaimFilter_IsEmpty f"
    by (auto simp: BuildReclaimScopeClauses_def Let_def scope_clause_Nil ReclaimFilter_IsEmpty_def)
  show "\<forall>raw \<in> {rIDs f, rAssignees f, rLabels f, rLabelsAny f, rExcludeLabels f}.
        raw \<noteq> [] \<and> set raw \<subseteq> {[]} \<longrightarrow> \<not> selects e d (BuildReclaimScopeClauses f tables alias) r"
    using scope_clause_degenerate by (auto simp: BuildReclaimScopeClauses_def Let_def)
qed

theorem reclaim_fails_closed_witness:
  "\<not> selects example_engine (\<lambda>_. [])
     (BuildReclaimScopeClauses \<lparr>rIDs = [], rAssignees = [], rLabels = [''''], rLabelsAny = [], rExcludeLabels = [], rAnyReplica = False\<rparr>
       IssuesFilterTables ''i'') (issue_row 0 Issue_zero)"
  using reclaim_fails_closed [of "\<lparr>rIDs = [], rAssignees = [], rLabels = [''''], rLabelsAny = [], rExcludeLabels = [], rAnyReplica = False\<rparr>"
      IssuesFilterTables "''i''" example_engine "\<lambda>_. []" "issue_row 0 Issue_zero"] by simp

end
