(* ===== verification/GoJsonObject.thy ===== *)
theory GoJsonObject
  imports GoJson
begin

text \<open>
  \<open>json.Unmarshal\<close> of Go's package \<open>encoding/json\<close> into the two targets the sources use: a map from
  strings to raw messages, and a string. Both first check the whole input with \<open>json.Valid\<close>. A raw
  message is the text of a member value without the white space around it. The recursions over the
  text take as fuel its length, which every step shortens.
\<close>

definition skip_space :: "string \<Rightarrow> string" where
  "skip_space s = dropWhile json_space s"

text \<open>A string literal, after its opening quote: the text up to the closing quote, and what follows it.\<close>

fun string_body :: "string \<Rightarrow> string \<times> string" where
  "string_body [] = ([], [])"
| "string_body (c # s) =
    (if c = CHR 34 then ([], s)
     else if c = CHR 92 then
       (case s of [] \<Rightarrow> ([c], []) | x # t \<Rightarrow> (case string_body t of (b, r) \<Rightarrow> (c # x # b, r)))
     else (case string_body s of (b, r) \<Rightarrow> (c # b, r)))"

text \<open>The rest of an object or array at nesting depth \<open>d\<close>: its text, and what follows it.\<close>

fun nested_rest :: "nat \<Rightarrow> nat \<Rightarrow> string \<Rightarrow> string \<times> string" where
  "nested_rest 0 d s = ([], s)"
| "nested_rest (Suc n) d [] = ([], [])"
| "nested_rest (Suc n) d (c # s) =
    (if c = CHR 34 then
       (case string_body s of (b, r) \<Rightarrow>
          case nested_rest n d r of (t, r') \<Rightarrow> (c # b @ [CHR 34] @ t, r'))
     else if c = CHR ''{'' \<or> c = CHR ''['' then (case nested_rest n (Suc d) s of (t, r) \<Rightarrow> (c # t, r))
     else if c = CHR ''}'' \<or> c = CHR '']'' then
       (if d \<le> 1 then ([c], s) else (case nested_rest n (d - 1) s of (t, r) \<Rightarrow> (c # t, r)))
     else (case nested_rest n d s of (t, r) \<Rightarrow> (c # t, r)))"

definition raw_value :: "string \<Rightarrow> string \<times> string" where
  "raw_value s =
    (case s of
       [] \<Rightarrow> ([], [])
     | c # t \<Rightarrow>
         if c = CHR 34 then (case string_body t of (b, r) \<Rightarrow> (c # b @ [CHR 34], r))
         else if c = CHR ''{'' \<or> c = CHR ''['' then nested_rest (length s) 0 s
         else (let stop = (\<lambda>x. json_space x \<or> x = CHR '','' \<or> x = CHR ''}'' \<or> x = CHR '']'')
               in (takeWhile (Not \<circ> stop) s, dropWhile (Not \<circ> stop) s)))"

section \<open>String literals\<close>

definition hex_value :: "char \<Rightarrow> nat" where
  "hex_value c = (if is_digit c then code c - 48 else if 97 \<le> code c then code c - 87 else code c - 55)"

fun hex4 :: "string \<Rightarrow> nat option" where
  "hex4 (a # b # c # d # _) =
    (if hex_digit a \<and> hex_digit b \<and> hex_digit c \<and> hex_digit d
     then Some (hex_value a * 4096 + hex_value b * 256 + hex_value c * 16 + hex_value d) else None)"
| "hex4 _ = None"

definition surrogate :: "nat \<Rightarrow> bool" where
  "surrogate r = (55296 \<le> r \<and> r < 57344)"

text \<open>The rune of a \<open>u\<close> escape and how many bytes after it are used: a surrogate needs its partner.\<close>

definition escape_rune :: "string \<Rightarrow> (nat \<times> nat) option" where
  "escape_rune s =
    (case hex4 s of
       None \<Rightarrow> None
     | Some r \<Rightarrow>
         if \<not> surrogate r then Some (r, 4)
         else case drop 4 s of
             x # y # t \<Rightarrow>
               (case (if x = CHR 92 \<and> y = CHR ''u'' then hex4 t else None) of
                  Some r1 \<Rightarrow>
                    if r < 56320 \<and> 56320 \<le> r1 \<and> r1 < 57344
                    then Some (65536 + (r - 55296) * 1024 + (r1 - 56320), 10) else Some (rune_error, 4)
                | None \<Rightarrow> Some (rune_error, 4))
           | _ \<Rightarrow> Some (rune_error, 4))"

definition simple_escape :: "char \<Rightarrow> char" where
  "simple_escape c =
    (if c = CHR ''b'' then CHR 8 else if c = CHR ''f'' then CHR 12 else if c = CHR ''n'' then CHR 10
     else if c = CHR ''r'' then CHR 13 else if c = CHR ''t'' then CHR 9 else c)"

fun unquote_bytes :: "nat \<Rightarrow> string \<Rightarrow> string" where
  "unquote_bytes 0 s = []"
| "unquote_bytes (Suc n) [] = []"
| "unquote_bytes (Suc n) (c # s) =
    (if c = CHR 92 then
       (case s of
          [] \<Rightarrow> []
        | x # t \<Rightarrow>
            if x = CHR ''u''
            then (case escape_rune t of None \<Rightarrow> [] | Some (r, k) \<Rightarrow> encode_rune r @ unquote_bytes n (drop k t))
            else simple_escape x # unquote_bytes n t)
     else case decode_rune (c # s) of (r, w) \<Rightarrow> encode_rune r @ unquote_bytes n (drop w (c # s)))"

definition unquote_literal :: "string \<Rightarrow> string" where
  "unquote_literal body = unquote_bytes (length body) body"

section \<open>\<open>json.Unmarshal\<close>\<close>

fun members :: "nat \<Rightarrow> string \<Rightarrow> (string \<times> string) list" where
  "members 0 s = []"
| "members (Suc n) s =
    (case skip_space s of
       [] \<Rightarrow> []
     | c # t \<Rightarrow>
         if c = CHR 34 then
           (case string_body t of (key, r) \<Rightarrow>
              case raw_value (skip_space (drop 1 (skip_space r))) of (v, r') \<Rightarrow>
                (unquote_literal key, v) # members n (drop 1 (skip_space r')))
         else [])"

text \<open>Into a map: the last of several members with one name wins, and \<open>null\<close> leaves the map empty.\<close>

definition unmarshal_map :: "string \<Rightarrow> (string \<rightharpoonup> string) option" where
  "unmarshal_map s =
    (if \<not> json_Valid s then None
     else case skip_space s of
         c # t \<Rightarrow> if c = CHR ''{'' then Some (map_of (rev (members (length s) t)))
                  else if c = CHR ''n'' then Some Map.empty else None
       | [] \<Rightarrow> None)"

text \<open>Into a string: a string literal, or \<open>null\<close>, which leaves the string empty.\<close>

definition unmarshal_string :: "string \<Rightarrow> string option" where
  "unmarshal_string s =
    (if \<not> json_Valid s then None
     else case skip_space s of
         c # t \<Rightarrow> if c = CHR 34 then Some (unquote_literal (fst (string_body t)))
                  else if c = CHR ''n'' then Some [] else None
       | [] \<Rightarrow> None)"

lemma members_example:
  "map_of (rev (members (Suc (Suc (Suc 0))) (CHR 34 # ''k'' @ [CHR 34] @ '': '' @ [CHR 34] @ ''v'' @ [CHR 34] @ '' , '' @ [CHR 34] @ ''n'' @ [CHR 34] @ '':[1]}'')))
     = [''k'' \<mapsto> CHR 34 # ''v'' @ [CHR 34], ''n'' \<mapsto> ''[1]'']"
  by (simp add: skip_space_def json_space_def raw_value_def unquote_literal_def encode_rune_def char_of_def bit_0)

end
