(* ===== verification/QueryEval.thy ===== *)
theory QueryEval
  imports QueryParser TimeParsing SqlReady GoJsonObject "HOL-Library.AList"
begin

text \<open>
  The evaluator of the query language, \<open>internal/query/evaluator.go\<close>: a syntax tree becomes an
  \<^typ>\<open>IssueFilter\<close>, or a predicate on issues with a filter that narrows the candidates. The
  reference time of the evaluator is the argument \<open>now\<close>, and \<open>nlp\<close> is the third-party parser behind
  \<^const>\<open>ParseRelativeTime\<close>. A function that fills in a filter returns the new filter or the error,
  with the filter unchanged.
\<close>

datatype eval_error =
    ParseFailed query_error
  | OpNotSupported string ComparisonOp
  | InvalidStatus string
  | InvalidPriority string
  | PriorityOutOfRange int
  | PriorityNeedsPredicate
  | PriorityMatchesNothing ComparisonOp int
  | OwnerNeedsPredicate
  | InvalidTime string time_error
  | InvalidBool string string
  | InvalidMolType string
  | BadMetadataKey string
  | UnknownField string
  | OrNotInFilter
  | NotOfComplexNode
  | NotOfField string

type_synonym issue_pred = "Issue \<Rightarrow> bool"

record QueryResult =
  qFilter :: IssueFilter
  qPredicate :: "issue_pred option"
  RequiresPredicate :: bool

section \<open>Which queries a filter can express\<close>

fun collectOrLabels :: "Node \<Rightarrow> string list option" where
  "collectOrLabels (ComparisonNode f op v ty) =
    (if (f = ''label'' \<or> f = ''labels'') \<and> op = OpEquals then Some [v] else None)"
| "collectOrLabels (OrNode l r) =
    (case (collectOrLabels l, collectOrLabels r) of (Some a, Some b) \<Rightarrow> Some (a @ b) | _ \<Rightarrow> None)"
| "collectOrLabels _ = None"

definition canUseLabelsAnyOptimization :: "Node \<Rightarrow> bool" where
  "canUseLabelsAnyOptimization n = (case collectOrLabels n of None \<Rightarrow> False | Some ls \<Rightarrow> ls \<noteq> [])"

fun canUseFilterOnly :: "Node \<Rightarrow> bool" where
  "canUseFilterOnly (ComparisonNode f op v ty) = True"
| "canUseFilterOnly (AndNode l r) = (canUseFilterOnly l \<and> canUseFilterOnly r)"
| "canUseFilterOnly (NotNode n) =
    (case n of ComparisonNode f op v ty \<Rightarrow> (f = ''status'' \<or> f = ''type'') \<and> op = OpEquals | _ \<Rightarrow> False)"
| "canUseFilterOnly (OrNode l r) = canUseLabelsAnyOptimization (OrNode l r)"

section \<open>Comparisons as filters\<close>

definition is_none :: "string \<Rightarrow> bool" where
  "is_none v = (v = [] \<or> to_lower v = ''none'' \<or> to_lower v = ''null'')"

definition parseDurationAgo :: "string \<Rightarrow> Time \<Rightarrow> time_error + Time" where
  "parseDurationAgo s now = ParseCompactDuration (''-'' @ trim_prefix s ''+'') now"

definition parseTimeValue :: "nlp_parser \<Rightarrow> Time \<Rightarrow> string \<Rightarrow> TokenType \<Rightarrow> time_error + Time" where
  "parseTimeValue nlp now v ty =
    (if ty = TokenDuration then parseDurationAgo v now else ParseRelativeTime nlp v now)"

definition start_of_day :: "Time \<Rightarrow> Time" where
  "start_of_day t = (case civil t of (y, m, d) \<Rightarrow> Date y m d 0 (zone_offset t))"

definition end_of_day :: "Time \<Rightarrow> Time" where
  "end_of_day t = (case civil t of (y, m, d) \<Rightarrow> Date y m d (86399 * nano + 999999999) (zone_offset t))"

definition applyStatusFilter :: "ComparisonOp \<Rightarrow> string \<Rightarrow> IssueFilter \<Rightarrow> eval_error + IssueFilter" where
  "applyStatusFilter op v f =
    (if op \<noteq> OpEquals \<and> op \<noteq> OpNotEquals then Inl (OpNotSupported ''status'' op)
     else let status = to_lower v in
       if \<not> Status_IsValid status then Inl (InvalidStatus v)
       else if op = OpEquals then Inr (f\<lparr>fStatus := Some status\<rparr>)
       else Inr (f\<lparr>fExcludeStatus := fExcludeStatus f @ [status]\<rparr>))"

definition applyPriorityFilter :: "ComparisonOp \<Rightarrow> string \<Rightarrow> IssueFilter \<Rightarrow> eval_error + IssueFilter" where
  "applyPriorityFilter op v f =
    (case parse_int v of
       None \<Rightarrow> Inl (InvalidPriority v)
     | Some p \<Rightarrow>
         if p < 0 \<or> p > 4 then Inl (PriorityOutOfRange p)
         else case op of
             OpEquals \<Rightarrow> Inr (f\<lparr>fPriority := Some p\<rparr>)
           | OpNotEquals \<Rightarrow> Inl PriorityNeedsPredicate
           | OpLess \<Rightarrow> if p - 1 < 0 then Inl (PriorityMatchesNothing op p) else Inr (f\<lparr>fPriorityMax := Some (p - 1)\<rparr>)
           | OpLessEq \<Rightarrow> Inr (f\<lparr>fPriorityMax := Some p\<rparr>)
           | OpGreater \<Rightarrow> if p + 1 > 4 then Inl (PriorityMatchesNothing op p) else Inr (f\<lparr>fPriorityMin := Some (p + 1)\<rparr>)
           | OpGreaterEq \<Rightarrow> Inr (f\<lparr>fPriorityMin := Some p\<rparr>))"

definition applyTypeFilter :: "ComparisonOp \<Rightarrow> string \<Rightarrow> IssueFilter \<Rightarrow> eval_error + IssueFilter" where
  "applyTypeFilter op v f =
    (if op \<noteq> OpEquals \<and> op \<noteq> OpNotEquals then Inl (OpNotSupported ''type'' op)
     else if op = OpEquals then Inr (f\<lparr>fIssueType := Some (to_lower v)\<rparr>)
     else Inr (f\<lparr>fExcludeTypes := fExcludeTypes f @ [to_lower v]\<rparr>))"

definition applyAssigneeFilter :: "ComparisonOp \<Rightarrow> string \<Rightarrow> IssueFilter \<Rightarrow> eval_error + IssueFilter" where
  "applyAssigneeFilter op v f =
    (if op \<noteq> OpEquals then Inl (OpNotSupported ''assignee'' op)
     else if is_none v then Inr (f\<lparr>fNoAssignee := True\<rparr>) else Inr (f\<lparr>fAssignee := Some v\<rparr>))"

definition applyOwnerFilter :: "ComparisonOp \<Rightarrow> string \<Rightarrow> IssueFilter \<Rightarrow> eval_error + IssueFilter" where
  "applyOwnerFilter op v f = Inl OwnerNeedsPredicate"

definition applyLabelFilter :: "ComparisonOp \<Rightarrow> string \<Rightarrow> IssueFilter \<Rightarrow> eval_error + IssueFilter" where
  "applyLabelFilter op v f =
    (if op \<noteq> OpEquals then Inl (OpNotSupported ''label'' op)
     else if is_none v then Inr (f\<lparr>fNoLabels := True\<rparr>) else Inr (f\<lparr>fLabels := fLabels f @ [v]\<rparr>))"

definition applyTitleFilter :: "ComparisonOp \<Rightarrow> string \<Rightarrow> IssueFilter \<Rightarrow> eval_error + IssueFilter" where
  "applyTitleFilter op v f =
    (if op \<noteq> OpEquals then Inl (OpNotSupported ''title'' op) else Inr (f\<lparr>fTitleContains := v\<rparr>))"

definition applyDescriptionFilter :: "ComparisonOp \<Rightarrow> string \<Rightarrow> IssueFilter \<Rightarrow> eval_error + IssueFilter" where
  "applyDescriptionFilter op v f =
    (if op \<noteq> OpEquals then Inl (OpNotSupported ''description'' op)
     else if is_none v then Inr (f\<lparr>fEmptyDescription := True\<rparr>) else Inr (f\<lparr>fDescriptionContains := v\<rparr>))"

definition applyNotesFilter :: "ComparisonOp \<Rightarrow> string \<Rightarrow> IssueFilter \<Rightarrow> eval_error + IssueFilter" where
  "applyNotesFilter op v f =
    (if op \<noteq> OpEquals then Inl (OpNotSupported ''notes'' op) else Inr (f\<lparr>fNotesContains := v\<rparr>))"

definition applyCreatedFilter ::
    "nlp_parser \<Rightarrow> Time \<Rightarrow> ComparisonOp \<Rightarrow> string \<Rightarrow> TokenType \<Rightarrow> IssueFilter \<Rightarrow> eval_error + IssueFilter" where
  "applyCreatedFilter nlp now op v ty f =
    (case parseTimeValue nlp now v ty of
       Inl e \<Rightarrow> Inl (InvalidTime ''created'' e)
     | Inr t \<Rightarrow>
         (case op of
            OpEquals \<Rightarrow> Inr (f\<lparr>fCreatedAfter := Some (start_of_day t), fCreatedBefore := Some (Add (start_of_day t) (24 * Hour))\<rparr>)
          | OpGreater \<Rightarrow> Inr (f\<lparr>fCreatedAfter := Some t\<rparr>)
          | OpGreaterEq \<Rightarrow> Inr (f\<lparr>fCreatedAfter := Some t\<rparr>)
          | OpLess \<Rightarrow> Inr (f\<lparr>fCreatedBefore := Some t\<rparr>)
          | OpLessEq \<Rightarrow> Inr (f\<lparr>fCreatedBefore := Some (end_of_day t)\<rparr>)
          | OpNotEquals \<Rightarrow> Inl (OpNotSupported ''created'' op)))"

definition applyUpdatedFilter ::
    "nlp_parser \<Rightarrow> Time \<Rightarrow> ComparisonOp \<Rightarrow> string \<Rightarrow> TokenType \<Rightarrow> IssueFilter \<Rightarrow> eval_error + IssueFilter" where
  "applyUpdatedFilter nlp now op v ty f =
    (case parseTimeValue nlp now v ty of
       Inl e \<Rightarrow> Inl (InvalidTime ''updated'' e)
     | Inr t \<Rightarrow>
         (case op of
            OpEquals \<Rightarrow> Inr (f\<lparr>fUpdatedAfter := Some (start_of_day t), fUpdatedBefore := Some (Add (start_of_day t) (24 * Hour))\<rparr>)
          | OpGreater \<Rightarrow> Inr (f\<lparr>fUpdatedAfter := Some t\<rparr>)
          | OpGreaterEq \<Rightarrow> Inr (f\<lparr>fUpdatedAfter := Some t\<rparr>)
          | OpLess \<Rightarrow> Inr (f\<lparr>fUpdatedBefore := Some t\<rparr>)
          | OpLessEq \<Rightarrow> Inr (f\<lparr>fUpdatedBefore := Some (end_of_day t)\<rparr>)
          | OpNotEquals \<Rightarrow> Inl (OpNotSupported ''updated'' op)))"

definition applyClosedFilter ::
    "nlp_parser \<Rightarrow> Time \<Rightarrow> ComparisonOp \<Rightarrow> string \<Rightarrow> TokenType \<Rightarrow> IssueFilter \<Rightarrow> eval_error + IssueFilter" where
  "applyClosedFilter nlp now op v ty f =
    (case parseTimeValue nlp now v ty of
       Inl e \<Rightarrow> Inl (InvalidTime ''closed'' e)
     | Inr t \<Rightarrow>
         (case op of
            OpGreater \<Rightarrow> Inr (f\<lparr>fClosedAfter := Some t\<rparr>)
          | OpGreaterEq \<Rightarrow> Inr (f\<lparr>fClosedAfter := Some t\<rparr>)
          | OpLess \<Rightarrow> Inr (f\<lparr>fClosedBefore := Some t\<rparr>)
          | OpLessEq \<Rightarrow> Inr (f\<lparr>fClosedBefore := Some (end_of_day t)\<rparr>)
          | _ \<Rightarrow> Inl (OpNotSupported ''closed'' op)))"

definition applyStartedFilter ::
    "nlp_parser \<Rightarrow> Time \<Rightarrow> ComparisonOp \<Rightarrow> string \<Rightarrow> TokenType \<Rightarrow> IssueFilter \<Rightarrow> eval_error + IssueFilter" where
  "applyStartedFilter nlp now op v ty f =
    (case parseTimeValue nlp now v ty of
       Inl e \<Rightarrow> Inl (InvalidTime ''started'' e)
     | Inr t \<Rightarrow>
         (case op of
            OpGreater \<Rightarrow> Inr (f\<lparr>fStartedAfter := Some t\<rparr>)
          | OpGreaterEq \<Rightarrow> Inr (f\<lparr>fStartedAfter := Some t\<rparr>)
          | OpLess \<Rightarrow> Inr (f\<lparr>fStartedBefore := Some t\<rparr>)
          | OpLessEq \<Rightarrow> Inr (f\<lparr>fStartedBefore := Some (end_of_day t)\<rparr>)
          | _ \<Rightarrow> Inl (OpNotSupported ''started'' op)))"

definition applyIDFilter :: "ComparisonOp \<Rightarrow> string \<Rightarrow> IssueFilter \<Rightarrow> eval_error + IssueFilter" where
  "applyIDFilter op v f =
    (if op \<noteq> OpEquals then Inl (OpNotSupported ''id'' op)
     else if has_suffix v ''*'' then Inr (f\<lparr>fIDPrefix := trim_suffix v ''*''\<rparr>)
     else Inr (f\<lparr>fIDs := fIDs f @ [v]\<rparr>))"

definition applySpecFilter :: "ComparisonOp \<Rightarrow> string \<Rightarrow> IssueFilter \<Rightarrow> eval_error + IssueFilter" where
  "applySpecFilter op v f =
    (if op \<noteq> OpEquals then Inl (OpNotSupported ''spec'' op)
     else if has_suffix v ''*'' then Inr (f\<lparr>fSpecIDPrefix := trim_suffix v ''*''\<rparr>)
     else Inr (f\<lparr>fSpecIDPrefix := v\<rparr>))"

definition applyParentFilter :: "ComparisonOp \<Rightarrow> string \<Rightarrow> IssueFilter \<Rightarrow> eval_error + IssueFilter" where
  "applyParentFilter op v f =
    (if op \<noteq> OpEquals then Inl (OpNotSupported ''parent'' op) else Inr (f\<lparr>fParentID := Some v\<rparr>))"

definition bool_word :: "string \<Rightarrow> bool option" where
  "bool_word v =
    (let val = to_lower v in
     if val = ''true'' \<or> val = ''yes'' \<or> val = ''1'' then Some True
     else if val = ''false'' \<or> val = ''no'' \<or> val = ''0'' then Some False else None)"

definition applyBoolFilter :: "ComparisonOp \<Rightarrow> string \<Rightarrow> IssueFilter \<Rightarrow> string \<Rightarrow> eval_error + IssueFilter" where
  "applyBoolFilter op v f field =
    (if op \<noteq> OpEquals then Inl (OpNotSupported field op)
     else case bool_word v of
         None \<Rightarrow> Inl (InvalidBool field v)
       | Some b \<Rightarrow>
           if field = ''pinned'' then Inr (f\<lparr>fPinned := Some b\<rparr>)
           else if field = ''ephemeral'' then Inr (f\<lparr>fEphemeral := Some b\<rparr>)
           else if field = ''template'' then Inr (f\<lparr>fIsTemplate := Some b\<rparr>)
           else Inr f)"

definition applyMolTypeFilter :: "ComparisonOp \<Rightarrow> string \<Rightarrow> IssueFilter \<Rightarrow> eval_error + IssueFilter" where
  "applyMolTypeFilter op v f =
    (if op \<noteq> OpEquals then Inl (OpNotSupported ''mol_type'' op)
     else if \<not> MolType_IsValid (to_lower v) then Inl (InvalidMolType v)
     else Inr (f\<lparr>fMolType := Some (to_lower v)\<rparr>))"

definition applyMetadataFilter :: "string \<Rightarrow> ComparisonOp \<Rightarrow> string \<Rightarrow> IssueFilter \<Rightarrow> eval_error + IssueFilter" where
  "applyMetadataFilter field op v f =
    (if op \<noteq> OpEquals then Inl (OpNotSupported field op)
     else let key = trim_prefix field ''metadata.'' in
       if ValidateMetadataKey key \<noteq> None then Inl (BadMetadataKey key)
       else Inr (f\<lparr>fMetadataFields := AList.update key v (fMetadataFields f)\<rparr>))"

definition applyHasMetadataKeyFilter :: "ComparisonOp \<Rightarrow> string \<Rightarrow> IssueFilter \<Rightarrow> eval_error + IssueFilter" where
  "applyHasMetadataKeyFilter op v f =
    (if op \<noteq> OpEquals then Inl (OpNotSupported ''has_metadata_key'' op)
     else if ValidateMetadataKey v \<noteq> None then Inl (BadMetadataKey v)
     else Inr (f\<lparr>fHasMetadataKey := v\<rparr>))"

definition applyComparison ::
    "nlp_parser \<Rightarrow> Time \<Rightarrow> string \<Rightarrow> ComparisonOp \<Rightarrow> string \<Rightarrow> TokenType \<Rightarrow> IssueFilter \<Rightarrow> eval_error + IssueFilter" where
  "applyComparison nlp now field op v ty f =
    (if field = ''status'' then applyStatusFilter op v f
     else if field = ''priority'' then applyPriorityFilter op v f
     else if field = ''type'' then applyTypeFilter op v f
     else if field = ''assignee'' then applyAssigneeFilter op v f
     else if field = ''owner'' then applyOwnerFilter op v f
     else if field = ''label'' \<or> field = ''labels'' then applyLabelFilter op v f
     else if field = ''title'' then applyTitleFilter op v f
     else if field = ''description'' \<or> field = ''desc'' then applyDescriptionFilter op v f
     else if field = ''notes'' then applyNotesFilter op v f
     else if field = ''created'' \<or> field = ''created_at'' then applyCreatedFilter nlp now op v ty f
     else if field = ''updated'' \<or> field = ''updated_at'' then applyUpdatedFilter nlp now op v ty f
     else if field = ''closed'' \<or> field = ''closed_at'' then applyClosedFilter nlp now op v ty f
     else if field = ''started'' \<or> field = ''started_at'' then applyStartedFilter nlp now op v ty f
     else if field = ''id'' then applyIDFilter op v f
     else if field = ''spec'' \<or> field = ''spec_id'' then applySpecFilter op v f
     else if field = ''parent'' then applyParentFilter op v f
     else if field = ''pinned'' \<or> field = ''ephemeral'' \<or> field = ''template'' then applyBoolFilter op v f field
     else if field = ''mol_type'' then applyMolTypeFilter op v f
     else if field = ''has_metadata_key'' then applyHasMetadataKeyFilter op v f
     else if has_prefix field ''metadata.'' then applyMetadataFilter field op v f
     else Inl (UnknownField field))"

definition applyNot :: "Node \<Rightarrow> IssueFilter \<Rightarrow> eval_error + IssueFilter" where
  "applyNot operand f =
    (case operand of
       ComparisonNode field op v ty \<Rightarrow>
         if field = ''status'' then
           (if op \<noteq> OpEquals then Inl (OpNotSupported ''status'' op)
            else Inr (f\<lparr>fExcludeStatus := fExcludeStatus f @ [to_lower v]\<rparr>))
         else if field = ''type'' then
           (if op \<noteq> OpEquals then Inl (OpNotSupported ''type'' op)
            else Inr (f\<lparr>fExcludeTypes := fExcludeTypes f @ [to_lower v]\<rparr>))
         else Inl (NotOfField field)
     | _ \<Rightarrow> Inl NotOfComplexNode)"

fun buildFilter :: "nlp_parser \<Rightarrow> Time \<Rightarrow> Node \<Rightarrow> IssueFilter \<Rightarrow> eval_error + IssueFilter" where
  "buildFilter nlp now (ComparisonNode field op v ty) f = applyComparison nlp now field op v ty f"
| "buildFilter nlp now (AndNode l r) f =
    (case buildFilter nlp now l f of Inl e \<Rightarrow> Inl e | Inr f' \<Rightarrow> buildFilter nlp now r f')"
| "buildFilter nlp now (NotNode n) f = applyNot n f"
| "buildFilter nlp now (OrNode l r) f =
    (case collectOrLabels (OrNode l r) of
       Some labels \<Rightarrow> Inr (f\<lparr>fLabelsAny := fLabelsAny f @ labels\<rparr>)
     | None \<Rightarrow> Inl OrNotInFilter)"

fun extractBaseFilters :: "nlp_parser \<Rightarrow> Time \<Rightarrow> Node \<Rightarrow> IssueFilter \<Rightarrow> IssueFilter" where
  "extractBaseFilters nlp now (ComparisonNode field op v ty) f =
    (case applyComparison nlp now field op v ty f of Inl _ \<Rightarrow> f | Inr f' \<Rightarrow> f')"
| "extractBaseFilters nlp now (AndNode l r) f = extractBaseFilters nlp now r (extractBaseFilters nlp now l f)"
| "extractBaseFilters nlp now (NotNode n) f = (case applyNot n f of Inl _ \<Rightarrow> f | Inr f' \<Rightarrow> f')"
| "extractBaseFilters nlp now (OrNode l r) f = f"

section \<open>Comparisons as predicates\<close>

text \<open>Equality and its negation, the two operators that most fields support.\<close>

definition eq_or_ne :: "string \<Rightarrow> ComparisonOp \<Rightarrow> issue_pred \<Rightarrow> eval_error + issue_pred" where
  "eq_or_ne field op p =
    (case op of OpEquals \<Rightarrow> Inr p | OpNotEquals \<Rightarrow> Inr (\<lambda>i. \<not> p i) | _ \<Rightarrow> Inl (OpNotSupported field op))"

definition buildStatusPredicate :: "ComparisonOp \<Rightarrow> string \<Rightarrow> eval_error + issue_pred" where
  "buildStatusPredicate op v = eq_or_ne ''status'' op (\<lambda>i. Status i = to_lower v)"

definition buildPriorityPredicate :: "ComparisonOp \<Rightarrow> string \<Rightarrow> eval_error + issue_pred" where
  "buildPriorityPredicate op v =
    (case parse_int v of
       None \<Rightarrow> Inl (InvalidPriority v)
     | Some p \<Rightarrow>
         Inr (case op of
             OpEquals \<Rightarrow> (\<lambda>i. Priority i = p)
           | OpNotEquals \<Rightarrow> (\<lambda>i. Priority i \<noteq> p)
           | OpLess \<Rightarrow> (\<lambda>i. Priority i < p)
           | OpLessEq \<Rightarrow> (\<lambda>i. Priority i \<le> p)
           | OpGreater \<Rightarrow> (\<lambda>i. Priority i > p)
           | OpGreaterEq \<Rightarrow> (\<lambda>i. Priority i \<ge> p)))"

definition buildTypePredicate :: "ComparisonOp \<Rightarrow> string \<Rightarrow> eval_error + issue_pred" where
  "buildTypePredicate op v = eq_or_ne ''type'' op (\<lambda>i. IssueType i = to_lower v)"

definition buildAssigneePredicate :: "ComparisonOp \<Rightarrow> string \<Rightarrow> eval_error + issue_pred" where
  "buildAssigneePredicate op v =
    eq_or_ne ''assignee'' op (if is_none v then (\<lambda>i. Assignee i = []) else (\<lambda>i. equal_fold (Assignee i) v))"

definition buildOwnerPredicate :: "ComparisonOp \<Rightarrow> string \<Rightarrow> eval_error + issue_pred" where
  "buildOwnerPredicate op v = eq_or_ne ''owner'' op (\<lambda>i. equal_fold (Owner i) v)"

definition buildLabelPredicate :: "ComparisonOp \<Rightarrow> string \<Rightarrow> eval_error + issue_pred" where
  "buildLabelPredicate op v =
    eq_or_ne ''label'' op
      (if is_none v then (\<lambda>i. Labels i = []) else (\<lambda>i. list_ex (\<lambda>l. equal_fold l v) (Labels i)))"

definition buildTitlePredicate :: "ComparisonOp \<Rightarrow> string \<Rightarrow> eval_error + issue_pred" where
  "buildTitlePredicate op v = eq_or_ne ''title'' op (\<lambda>i. contains (to_lower (Title i)) (to_lower v))"

definition buildDescriptionPredicate :: "ComparisonOp \<Rightarrow> string \<Rightarrow> eval_error + issue_pred" where
  "buildDescriptionPredicate op v =
    eq_or_ne ''description'' op
      (if is_none v then (\<lambda>i. Description i = []) else (\<lambda>i. contains (to_lower (Description i)) (to_lower v)))"

definition buildNotesPredicate :: "ComparisonOp \<Rightarrow> string \<Rightarrow> eval_error + issue_pred" where
  "buildNotesPredicate op v = eq_or_ne ''notes'' op (\<lambda>i. contains (to_lower (Notes i)) (to_lower v))"

definition compareTime :: "ComparisonOp \<Rightarrow> Time \<Rightarrow> Time \<Rightarrow> bool" where
  "compareTime op actual target =
    (case op of
       OpEquals \<Rightarrow> civil actual = civil target
     | OpNotEquals \<Rightarrow> civil actual \<noteq> civil target
     | OpLess \<Rightarrow> Before actual target
     | OpLessEq \<Rightarrow> Before actual target \<or> Equal actual target
     | OpGreater \<Rightarrow> After actual target
     | OpGreaterEq \<Rightarrow> After actual target \<or> Equal actual target)"

definition buildTimePredicate :: "ComparisonOp \<Rightarrow> Time \<Rightarrow> (Issue \<Rightarrow> Time) \<Rightarrow> eval_error + issue_pred" where
  "buildTimePredicate op t getter = Inr (\<lambda>i. compareTime op (getter i) t)"

definition buildCreatedPredicate :: "nlp_parser \<Rightarrow> Time \<Rightarrow> ComparisonOp \<Rightarrow> string \<Rightarrow> TokenType \<Rightarrow> eval_error + issue_pred" where
  "buildCreatedPredicate nlp now op v ty =
    (case parseTimeValue nlp now v ty of
       Inl e \<Rightarrow> Inl (InvalidTime ''created'' e)
     | Inr t \<Rightarrow> buildTimePredicate op t CreatedAt)"

definition buildUpdatedPredicate :: "nlp_parser \<Rightarrow> Time \<Rightarrow> ComparisonOp \<Rightarrow> string \<Rightarrow> TokenType \<Rightarrow> eval_error + issue_pred" where
  "buildUpdatedPredicate nlp now op v ty =
    (case parseTimeValue nlp now v ty of
       Inl e \<Rightarrow> Inl (InvalidTime ''updated'' e)
     | Inr t \<Rightarrow> buildTimePredicate op t UpdatedAt)"

definition buildClosedPredicate :: "nlp_parser \<Rightarrow> Time \<Rightarrow> ComparisonOp \<Rightarrow> string \<Rightarrow> TokenType \<Rightarrow> eval_error + issue_pred" where
  "buildClosedPredicate nlp now op v ty =
    (case parseTimeValue nlp now v ty of
       Inl e \<Rightarrow> Inl (InvalidTime ''closed'' e)
     | Inr t \<Rightarrow> Inr (\<lambda>i. case ClosedAt i of None \<Rightarrow> False | Some c \<Rightarrow> compareTime op c t))"

definition buildStartedPredicate :: "nlp_parser \<Rightarrow> Time \<Rightarrow> ComparisonOp \<Rightarrow> string \<Rightarrow> TokenType \<Rightarrow> eval_error + issue_pred" where
  "buildStartedPredicate nlp now op v ty =
    (case parseTimeValue nlp now v ty of
       Inl e \<Rightarrow> Inl (InvalidTime ''started'' e)
     | Inr t \<Rightarrow> Inr (\<lambda>i. case StartedAt i of None \<Rightarrow> False | Some c \<Rightarrow> compareTime op c t))"

definition buildIDPredicate :: "ComparisonOp \<Rightarrow> string \<Rightarrow> eval_error + issue_pred" where
  "buildIDPredicate op v =
    eq_or_ne ''id'' op
      (if has_suffix v ''*'' then (\<lambda>i. has_prefix (Issue.ID i) (trim_suffix v ''*'')) else (\<lambda>i. Issue.ID i = v))"

definition buildSpecPredicate :: "ComparisonOp \<Rightarrow> string \<Rightarrow> eval_error + issue_pred" where
  "buildSpecPredicate op v =
    eq_or_ne ''spec'' op
      (if has_suffix v ''*'' then (\<lambda>i. has_prefix (SpecID i) (trim_suffix v ''*'')) else (\<lambda>i. SpecID i = v))"

definition buildBoolPredicate :: "ComparisonOp \<Rightarrow> string \<Rightarrow> string \<Rightarrow> issue_pred \<Rightarrow> eval_error + issue_pred" where
  "buildBoolPredicate op v field getter =
    (case bool_word v of None \<Rightarrow> Inl (InvalidBool field v) | Some b \<Rightarrow> eq_or_ne field op (\<lambda>i. getter i = b))"

text \<open>\<open>strings.Trim\<close> with a double quote as the only character to trim.\<close>

definition trim_quotes :: "string \<Rightarrow> string" where
  "trim_quotes s = rev (dropWhile (\<lambda>c. c = CHR 34) (rev (dropWhile (\<lambda>c. c = CHR 34) s)))"

definition buildMetadataPredicate :: "string \<Rightarrow> ComparisonOp \<Rightarrow> string \<Rightarrow> eval_error + issue_pred" where
  "buildMetadataPredicate field op v =
    (if op \<noteq> OpEquals then Inl (OpNotSupported field op)
     else let key = trim_prefix field ''metadata.'' in
       if ValidateMetadataKey key \<noteq> None then Inl (BadMetadataKey key)
       else Inr (\<lambda>i.
         if Metadata i = [] then False
         else case unmarshal_map (Metadata i) of
             None \<Rightarrow> False
           | Some data \<Rightarrow>
               (case data key of
                  None \<Rightarrow> False
                | Some raw \<Rightarrow>
                    (case unmarshal_string raw of Some s \<Rightarrow> s = v | None \<Rightarrow> trim_quotes raw = v))))"

definition buildHasMetadataKeyPredicate :: "ComparisonOp \<Rightarrow> string \<Rightarrow> eval_error + issue_pred" where
  "buildHasMetadataKeyPredicate op v =
    (if op \<noteq> OpEquals then Inl (OpNotSupported ''has_metadata_key'' op)
     else if ValidateMetadataKey v \<noteq> None then Inl (BadMetadataKey v)
     else Inr (\<lambda>i.
       if Metadata i = [] then False
       else case unmarshal_map (Metadata i) of None \<Rightarrow> False | Some data \<Rightarrow> data v \<noteq> None))"

definition buildComparisonPredicate ::
    "nlp_parser \<Rightarrow> Time \<Rightarrow> string \<Rightarrow> ComparisonOp \<Rightarrow> string \<Rightarrow> TokenType \<Rightarrow> eval_error + issue_pred" where
  "buildComparisonPredicate nlp now field op v ty =
    (if field = ''status'' then buildStatusPredicate op v
     else if field = ''priority'' then buildPriorityPredicate op v
     else if field = ''type'' then buildTypePredicate op v
     else if field = ''assignee'' then buildAssigneePredicate op v
     else if field = ''owner'' then buildOwnerPredicate op v
     else if field = ''label'' \<or> field = ''labels'' then buildLabelPredicate op v
     else if field = ''title'' then buildTitlePredicate op v
     else if field = ''description'' \<or> field = ''desc'' then buildDescriptionPredicate op v
     else if field = ''notes'' then buildNotesPredicate op v
     else if field = ''created'' \<or> field = ''created_at'' then buildCreatedPredicate nlp now op v ty
     else if field = ''updated'' \<or> field = ''updated_at'' then buildUpdatedPredicate nlp now op v ty
     else if field = ''closed'' \<or> field = ''closed_at'' then buildClosedPredicate nlp now op v ty
     else if field = ''started'' \<or> field = ''started_at'' then buildStartedPredicate nlp now op v ty
     else if field = ''id'' then buildIDPredicate op v
     else if field = ''spec'' \<or> field = ''spec_id'' then buildSpecPredicate op v
     else if field = ''pinned'' then buildBoolPredicate op v field Pinned
     else if field = ''ephemeral'' then buildBoolPredicate op v field Ephemeral
     else if field = ''template'' then buildBoolPredicate op v field IsTemplate
     else if field = ''has_metadata_key'' then buildHasMetadataKeyPredicate op v
     else if has_prefix field ''metadata.'' then buildMetadataPredicate field op v
     else Inl (UnknownField field))"

fun buildPredicate :: "nlp_parser \<Rightarrow> Time \<Rightarrow> Node \<Rightarrow> eval_error + issue_pred" where
  "buildPredicate nlp now (ComparisonNode field op v ty) = buildComparisonPredicate nlp now field op v ty"
| "buildPredicate nlp now (AndNode l r) =
    (case buildPredicate nlp now l of Inl e \<Rightarrow> Inl e | Inr p \<Rightarrow>
     case buildPredicate nlp now r of Inl e \<Rightarrow> Inl e | Inr q \<Rightarrow> Inr (\<lambda>i. p i \<and> q i))"
| "buildPredicate nlp now (OrNode l r) =
    (case buildPredicate nlp now l of Inl e \<Rightarrow> Inl e | Inr p \<Rightarrow>
     case buildPredicate nlp now r of Inl e \<Rightarrow> Inl e | Inr q \<Rightarrow> Inr (\<lambda>i. p i \<or> q i))"
| "buildPredicate nlp now (NotNode n) =
    (case buildPredicate nlp now n of Inl e \<Rightarrow> Inl e | Inr p \<Rightarrow> Inr (\<lambda>i. \<not> p i))"

section \<open>Evaluation\<close>

definition Evaluator_Evaluate :: "nlp_parser \<Rightarrow> Time \<Rightarrow> Node \<Rightarrow> eval_error + QueryResult" where
  "Evaluator_Evaluate nlp now node =
    (if canUseFilterOnly node then
       (case buildFilter nlp now node IssueFilter_zero of
          Inl e \<Rightarrow> Inl e
        | Inr f \<Rightarrow> Inr \<lparr>qFilter = f, qPredicate = None, RequiresPredicate = False\<rparr>)
     else
       (case buildPredicate nlp now node of
          Inl e \<Rightarrow> Inl e
        | Inr p \<Rightarrow> Inr \<lparr>qFilter = extractBaseFilters nlp now node IssueFilter_zero, qPredicate = Some p, RequiresPredicate = True\<rparr>))"

definition EvaluateAt :: "nlp_parser \<Rightarrow> string \<Rightarrow> Time \<Rightarrow> eval_error + QueryResult" where
  "EvaluateAt nlp query now =
    (case Parse query of Inl e \<Rightarrow> Inl (ParseFailed e) | Inr node \<Rightarrow> Evaluator_Evaluate nlp now node)"

definition PredicateNodeAt :: "nlp_parser \<Rightarrow> Node \<Rightarrow> Time \<Rightarrow> eval_error + issue_pred" where
  "PredicateNodeAt nlp node now = buildPredicate nlp now node"

definition PredicateAt :: "nlp_parser \<Rightarrow> string \<Rightarrow> Time \<Rightarrow> eval_error + issue_pred" where
  "PredicateAt nlp expression now =
    (case Parse expression of Inl e \<Rightarrow> Inl (ParseFailed e) | Inr node \<Rightarrow> PredicateNodeAt nlp node now)"

end
