(* ===== verification/SqlLike.thy ===== *)
theory SqlLike
  imports SqlPred
begin

text \<open>
  When LIKE means what the Go code compares with: a pattern with a literal ASCII text between per
  cents is \<open>strings.Contains\<close>, and one that ends in a per cent is \<open>strings.HasPrefix\<close>. LIKE works on
  characters and the Go functions on bytes, so the two are related through the UTF-8 encoding.
\<close>

section \<open>LIKE on characters\<close>

lemma like_any [simp]: "esc \<noteq> 37 \<Longrightarrow> like esc [37] s"
  by (induction s) auto

lemma like_percent: "esc \<noteq> 37 \<Longrightarrow> like esc (37 # ps) s \<longleftrightarrow> (\<exists>u t. s = u @ t \<and> like esc ps t)"
proof (induction s)
  case (Cons c s)
  have "like esc (37 # ps) (c # s) \<longleftrightarrow> like esc ps (c # s) \<or> (\<exists>u t. s = u @ t \<and> like esc ps t)" using Cons by simp
  also have "\<dots> \<longleftrightarrow> (\<exists>u t. c # s = u @ t \<and> like esc ps t)" by (auto simp: Cons_eq_append_conv)
  finally show ?case .
qed simp

lemma like_literal:
  "set ps \<inter> {esc, 37, 95} = {} \<Longrightarrow> like esc (ps @ qs) s \<longleftrightarrow> (\<exists>t. s = ps @ t \<and> like esc qs t)"
proof (induction ps arbitrary: s)
  case (Cons p ps)
  then show ?case by (cases s) auto
qed simp

lemma like_self: "esc \<notin> set ps \<Longrightarrow> like esc qs t \<Longrightarrow> like esc (ps @ qs) (ps @ t)"
proof (induction ps)
  case (Cons p ps)
  then have "like esc (ps @ qs) (ps @ t)" by simp
  moreover have "like esc (37 # ps @ qs) (37 # ps @ t)" if "esc \<noteq> 37" "like esc (ps @ qs) (ps @ t)"
    using that by (cases "ps @ t") auto
  ultimately show ?case using Cons.prems by auto
qed simp

declare like.simps [simp del]

lemma like_infix:
  assumes "set ps \<inter> {esc, 37, 95} = {}" "esc \<noteq> 37"
  shows "like esc (37 # ps @ [37]) s \<longleftrightarrow> sublist ps s"
  using assms by (auto simp: like_percent [of esc "ps @ [37]"] like_literal sublist_def)

lemma like_infix_sound:
  assumes "esc \<notin> set ps" "esc \<noteq> 37" "sublist ps s"
  shows "like esc (37 # ps @ [37]) s"
proof -
  obtain u t where "s = u @ ps @ t" using assms(3) by (auto simp: sublist_def)
  with like_self [OF assms(1), of "[37]" t] assms(2) show ?thesis by (auto simp: like_percent [of esc "ps @ [37]"])
qed

lemma like_prefix:
  assumes "set ps \<inter> {esc, 37, 95} = {}" "esc \<noteq> 37"
  shows "like esc (ps @ [37]) s \<longleftrightarrow> prefix ps s"
  using assms by (auto simp: like_literal prefix_def)

lemma like_prefix_sound: "esc \<notin> set ps \<Longrightarrow> esc \<noteq> 37 \<Longrightarrow> prefix ps s \<Longrightarrow> like esc (ps @ [37]) s"
  using like_self [of esc ps "[37]"] by (auto simp: prefix_def)

section \<open>Bytes and characters\<close>

abbreviation runes :: "string \<Rightarrow> nat list" where
  "runes s \<equiv> map fst (rune_chunks s)"

definition utf8 :: "nat list \<Rightarrow> string" where
  "utf8 rs = concat (map encode_rune rs)"

lemma utf8_simps [simp]: "utf8 [] = []" "utf8 (r # rs) = encode_rune r @ utf8 rs" "utf8 (rs @ qs) = utf8 rs @ utf8 qs"
  by (simp_all add: utf8_def)

lemma runes_utf8: "list_all valid_rune rs \<Longrightarrow> runes (utf8 rs) = rs"
  unfolding utf8_def by (rule runes_encode)

lemma utf8_ascii: "ascii v \<Longrightarrow> utf8 (map code v) = v"
  by (induction v) (auto simp: encode_rune_def)

lemma encode_rune_bytes:
  assumes "valid_rune r"
  shows "encode_rune r \<noteq> []" "r < 128 \<Longrightarrow> encode_rune r = [char_of r]"
    "\<not> r < 128 \<Longrightarrow> list_all (\<lambda>c. 128 \<le> code c) (encode_rune r)"
proof -
  show "encode_rune r \<noteq> []" "r < 128 \<Longrightarrow> encode_rune r = [char_of r]" by (simp_all add: encode_rune_def)
  assume "\<not> r < 128"
  moreover have "r div 4096 < 32" if "r < 65536" using that by simp
  moreover have "r div 262144 < 8" using assms by (simp add: valid_rune_def less_mult_imp_div_less)
  moreover have "r div 64 < 32" if "r < 2048" using that by simp
  moreover have "x mod 64 < 64" for x :: nat by simp
  ultimately show "list_all (\<lambda>c. 128 \<le> code c) (encode_rune r)"
    by (simp add: encode_rune_def code_char_of)
qed

lemma utf8_prefix_ascii:
  "list_all valid_rune rs \<Longrightarrow> ascii v \<Longrightarrow> utf8 rs = v @ w \<Longrightarrow> \<exists>qs. rs = map code v @ qs \<and> w = utf8 qs"
proof (induction v arbitrary: rs)
  case (Cons c v)
  then obtain r qs where rs: "rs = r # qs" "valid_rune r" "list_all valid_rune qs" by (cases rs) auto
  have "r < 128"
  proof (rule ccontr)
    assume "\<not> r < 128"
    then show False
      using encode_rune_bytes [OF rs(2)] Cons.prems rs(1) by (cases "encode_rune r") auto
  qed
  then have "encode_rune r = [char_of r]" using encode_rune_bytes [OF rs(2)] by simp
  then have "char_of r = c" "utf8 qs = v @ w" using Cons.prems rs(1) by auto
  moreover from this have "r = code c" using \<open>r < 128\<close> code_char_of [of r] by auto
  ultimately show ?case using Cons.IH [OF rs(3)] Cons.prems(2) rs(1) by auto
qed auto

lemma utf8_infix_ascii:
  assumes "list_all valid_rune rs" "ascii v" "v \<noteq> []" "utf8 rs = u @ v @ w"
  shows "\<exists>ps qs. rs = ps @ map code v @ qs"
  using assms
proof (induction rs arbitrary: u)
  case (Cons r rs)
  show ?case
  proof (cases "u = []")
    case True
    then show ?thesis using utf8_prefix_ascii [of "r # rs" v w] Cons.prems by (metis append_Nil)
  next
    case False
    note e = encode_rune_bytes [of r]
    have v: "valid_rune r" "list_all valid_rune rs" using Cons.prems by auto
    from Cons.prems(4) have q: "encode_rune r @ utf8 rs = u @ v @ w" by simp
    show ?thesis
    proof (cases "length (encode_rune r) \<le> length u")
      case True
      then obtain u' where "u = encode_rune r @ u'" "utf8 rs = u' @ v @ w"
        using q by (auto simp: append_eq_append_conv2)
      then show ?thesis using Cons.IH [OF v(2) Cons.prems(2,3)] by (metis append_Cons)
    next
      case False
      define x where "x = drop (length u) (encode_rune r)"
      have x: "encode_rune r = u @ x" "x @ utf8 rs = v @ w" "x \<noteq> []"
        using q False append_take_drop_id [of "length u" "encode_rune r"]
        by (auto simp: x_def append_eq_append_conv_if split: if_splits)
      obtain c x' where c: "x = c # x'" using x(3) by (cases x) auto
      have "hd v = c" using x(2) c Cons.prems(3) by (cases v) auto
      then have "code c < 128" using Cons.prems(2,3) by (cases v) auto
      moreover have "\<not> r < 128" using e(2) [OF v(1)] x(1) c \<open>u \<noteq> []\<close> by (cases u) auto
      ultimately show ?thesis using e(3) [OF v(1)] x(1) c by simp
    qed
  qed
qed simp

lemma contains_ascii:
  assumes "list_all valid_rune rs" "ascii v"
  shows "contains (utf8 rs) v \<longleftrightarrow> sublist (map code v) rs"
proof
  assume "contains (utf8 rs) v"
  then obtain u w where "utf8 rs = u @ v @ w" by (auto simp: contains_iff_sublist sublist_def)
  then show "sublist (map code v) rs"
    using utf8_infix_ascii [OF assms] by (cases "v = []") (auto simp: sublist_def)
next
  assume "sublist (map code v) rs"
  then obtain ps qs where "rs = ps @ map code v @ qs" by (auto simp: sublist_def)
  then have "utf8 rs = utf8 ps @ v @ utf8 qs" using utf8_ascii [OF assms(2)] by simp
  then show "contains (utf8 rs) v" by (auto simp: contains_iff_sublist sublist_def)
qed

lemma rune_to_lower_valid: "valid_rune r \<Longrightarrow> valid_rune (rune_to_lower r)"
  by (auto simp: valid_rune_def rune_to_lower_def)

lemma to_lower_utf8: "to_lower s = utf8 (map rune_to_lower (runes s))" "list_all valid_rune (map rune_to_lower (runes s))"
  using rune_chunks_valid [of _ _ s]
  by (auto simp: to_lower_def utf8_def list_all_iff rune_to_lower_valid comp_def case_prod_unfold)

lemma runes_ascii: "ascii v \<Longrightarrow> runes v = map code v"
  by (simp add: rune_chunks_ascii)

lemma runes_ascii_append: "ascii v \<Longrightarrow> runes (v @ s) = map code v @ runes s"
  by (induction v) auto

lemma to_lower_ascii_text: "ascii v \<Longrightarrow> ascii (to_lower v)"
  by (simp add: to_lower_ascii ascii_byte_lower)

lemma decode_small:
  assumes "decode_rune (a # s) = (r, w)" "r < 128"
  shows "r = code a \<and> w = 1"
proof -
  have "code a < 256" by (cases a) (simp add: of_char_def horner_sum_simps)
  then show ?thesis using assms
    by (auto simp: rune_error_def cont_byte_def decode_rune.simps split: if_splits list.splits)
qed

lemma prefix_ascii: "ascii p \<Longrightarrow> prefix (map code p) (runes s) \<longleftrightarrow> prefix p s"
proof (induction p arbitrary: s)
  case (Cons c p)
  show ?case
  proof (cases s)
    case s: (Cons a t)
    obtain r w where d: "decode_rune (a # t) = (r, w)" by fastforce
    show ?thesis
    proof (cases "r = code c")
      case True
      then have "r = code a" "w = 1" using decode_small [OF d] Cons.prems by auto
      then have "a = c" using True code_inject by simp
      then show ?thesis using Cons s d \<open>w = 1\<close> True by simp
    next
      case False
      then have "a \<noteq> c" using d Cons.prems by auto
      then show ?thesis using s d False by simp
    qed
  qed simp
qed simp

text \<open>
  A text that can stand in a pattern: ASCII and without the escape character. If it also has no
  wildcard the pattern means exactly the comparison; otherwise it may match more.
\<close>

definition like_safe :: "string \<Rightarrow> bool" where
  "like_safe v = (ascii v \<and> CHR 92 \<notin> set v)"

definition like_exact :: "string \<Rightarrow> bool" where
  "like_exact v = (like_safe v \<and> CHR ''%'' \<notin> set v \<and> CHR ''_'' \<notin> set v)"

lemma code_mem: "code c \<in> code ` set v \<longleftrightarrow> c \<in> set v"
  by (auto simp: code_inject)

lemma like_safe_runes: "like_safe v \<Longrightarrow> 92 \<notin> set (map code v)"
  using code_mem [of "CHR 92" v] by (simp add: like_safe_def)

lemma like_exact_runes: "like_exact v \<Longrightarrow> set (map code v) \<inter> {92, 37, 95} = {}"
  using code_mem [of "CHR 92" v] code_mem [of "CHR ''%''" v] code_mem [of "CHR ''_''" v]
  by (simp add: like_exact_def like_safe_def)

lemma pattern_runes:
  "ascii v \<Longrightarrow> runes (''%'' @ v @ ''%'') = 37 # map code v @ [37]" "ascii v \<Longrightarrow> runes (v @ ''%'') = map code v @ [37]"
  by (simp_all add: runes_ascii_append)

lemma lower_like_contains:
  assumes "like_safe (to_lower v)" "ascii v"
  shows "contains (to_lower s) (to_lower v) \<Longrightarrow> vlike 92 (VStr (to_lower s)) (VStr (''%'' @ to_lower v @ ''%'')) = Some True"
    and "like_exact (to_lower v) \<Longrightarrow>
      vlike 92 (VStr (to_lower s)) (VStr (''%'' @ to_lower v @ ''%'')) = Some (contains (to_lower s) (to_lower v))"
proof -
  have a: "ascii (to_lower v)" using to_lower_ascii_text [OF assms(2)] .
  have r: "runes (to_lower s) = map rune_to_lower (runes s)" using to_lower_utf8 runes_utf8 by metis
  have c: "contains (to_lower s) (to_lower v) \<longleftrightarrow> sublist (map code (to_lower v)) (map rune_to_lower (runes s))"
    using contains_ascii [OF to_lower_utf8(2) a] to_lower_utf8(1) by metis
  show "contains (to_lower s) (to_lower v) \<Longrightarrow> vlike 92 (VStr (to_lower s)) (VStr (''%'' @ to_lower v @ ''%'')) = Some True"
    unfolding vlike_def c using like_infix_sound [OF like_safe_runes [OF assms(1)]] pattern_runes(1) [OF a] r by simp
  show "like_exact (to_lower v) \<Longrightarrow>
      vlike 92 (VStr (to_lower s)) (VStr (''%'' @ to_lower v @ ''%'')) = Some (contains (to_lower s) (to_lower v))"
    unfolding vlike_def c using like_infix [OF like_exact_runes] pattern_runes(1) [OF a] r by simp
qed

lemma like_has_prefix:
  "like_safe p \<Longrightarrow> has_prefix s p \<Longrightarrow> vlike 92 (VStr s) (VStr (p @ ''%'')) = Some True"
  "like_exact p \<Longrightarrow> vlike 92 (VStr s) (VStr (p @ ''%'')) = Some (has_prefix s p)"
proof -
  show "like_safe p \<Longrightarrow> has_prefix s p \<Longrightarrow> vlike 92 (VStr s) (VStr (p @ ''%'')) = Some True"
    using like_prefix_sound [OF like_safe_runes] prefix_ascii [of p s] pattern_runes(2) [of p] by (simp add: vlike_def like_safe_def)
  show "like_exact p \<Longrightarrow> vlike 92 (VStr s) (VStr (p @ ''%'')) = Some (has_prefix s p)"
    using like_prefix [OF like_exact_runes] prefix_ascii [of p s] pattern_runes(2) [of p]
    by (simp add: vlike_def like_exact_def like_safe_def)
qed

end
