(* ===== verification/SqlSort.thy ===== *)
theory SqlSort
  imports IssueRow "HOL-Library.Option_ord"
begin

text \<open>
  The order of a listing, \<open>internal/storage/sqlbuild/sort.go\<close>: the ORDER BY clause and the
  comparison \<open>Less\<close> that merges rows of two tables in Go, and how the keyset predicates of
  \<^theory_text>\<open>SqlFilter\<close> page through that order.
\<close>

section \<open>The ORDER BY clause\<close>

record SortDef =
  Column :: string
  DefaultDir :: string

definition SortDefs :: "(string \<times> SortDef) list" where
  "SortDefs =
    [('''', \<lparr>Column = ''priority'', DefaultDir = ''ASC''\<rparr>),
     (''priority'', \<lparr>Column = ''priority'', DefaultDir = ''ASC''\<rparr>),
     (''created'', \<lparr>Column = ''created_at'', DefaultDir = ''DESC''\<rparr>),
     (''updated'', \<lparr>Column = ''updated_at'', DefaultDir = ''DESC''\<rparr>),
     (''closed'', \<lparr>Column = ''closed_at'', DefaultDir = ''DESC''\<rparr>),
     (''status'', \<lparr>Column = ''status'', DefaultDir = ''ASC''\<rparr>),
     (''type'', \<lparr>Column = ''issue_type'', DefaultDir = ''ASC''\<rparr>),
     (''assignee'', \<lparr>Column = ''assignee'', DefaultDir = ''ASC''\<rparr>),
     (''title'', \<lparr>Column = ''title'', DefaultDir = ''ASC''\<rparr>)]"

definition IsGoSideSort :: "string \<Rightarrow> bool" where
  "IsGoSideSort sortBy = (sortBy = ''id'')"

definition LessID :: "string \<Rightarrow> string \<Rightarrow> bool \<Rightarrow> bool" where
  "LessID a b desc = (if desc then a > b else a < b)"

definition flipDir :: "string \<Rightarrow> string" where
  "flipDir dir = (if dir = ''ASC'' then ''DESC'' else ''ASC'')"

text \<open>The key that is used and its definition: an unknown key falls back to the default one.\<close>

definition sort_def :: "string \<Rightarrow> string \<times> SortDef" where
  "sort_def sortBy =
    (case map_of SortDefs sortBy of
       Some def \<Rightarrow> (sortBy, def)
     | None \<Rightarrow> ([], the (map_of SortDefs [])))"

definition OrderByForColumns :: "string \<Rightarrow> bool \<Rightarrow> (string \<Rightarrow> string) \<Rightarrow> string" where
  "OrderByForColumns sortBy0 sortDesc col =
    (if IsGoSideSort sortBy0 then []
     else case sort_def sortBy0 of (sortBy, def) \<Rightarrow>
       let dir = (if sortDesc then flipDir (DefaultDir def) else DefaultDir def) in
       if sortBy = [] \<or> sortBy = ''priority''
       then ''ORDER BY '' @ col ''priority'' @ '' '' @ dir @ '', '' @ col ''created'' @ '' DESC, '' @ col ''id'' @ '' ASC''
       else if sortBy = ''closed'' \<or> sortBy = ''assignee''
       then ''ORDER BY ('' @ col sortBy @ '' IS NULL) '' @ flipDir dir @ '', '' @ col sortBy @ '' '' @ dir @ '', '' @ col ''id'' @ '' ASC''
       else ''ORDER BY '' @ col sortBy @ '' '' @ dir @ '', '' @ col ''id'' @ '' ASC'')"

definition OrderBy :: "string \<Rightarrow> bool \<Rightarrow> string \<Rightarrow> string" where
  "OrderBy sortBy sortDesc table =
    (let qual = (if table \<noteq> [] then table @ ''.'' else []) in
     OrderByForColumns sortBy sortDesc (\<lambda>k.
       if k = ''id'' then qual @ ''id''
       else if k = ''title'' then ''LOWER('' @ qual @ ''title)''
       else qual @ (case map_of SortDefs k of Some def \<Rightarrow> Column def | None \<Rightarrow> [])))"

section \<open>The comparison in Go\<close>

record sortFields =
  s_id :: string
  s_priority :: int
  s_createdAt :: Time
  s_updatedAt :: Time
  s_closedAt :: "Time option"
  s_status :: string
  s_issueType :: string
  s_assignee :: string
  s_title :: string

record IssueSummary =
  sum_ID :: string
  sum_Title :: string
  sum_Status :: Status
  sum_Priority :: int
  sum_IssueType :: IssueType
  sum_Assignee :: string
  sum_Pinned :: bool
  sum_Labels :: "string list"
  sum_CreatedAt :: Time
  sum_UpdatedAt :: Time
  sum_ClosedAt :: "Time option"
  sum_Ephemeral :: bool
  sum_NoHistory :: bool
  sum_WispType :: WispType
  sum_StorageClass :: StorageClass

definition issueSortFields :: "Issue \<Rightarrow> sortFields" where
  "issueSortFields i =
    \<lparr>s_id = Issue.ID i, s_priority = Priority i, s_createdAt = CreatedAt i, s_updatedAt = UpdatedAt i,
     s_closedAt = ClosedAt i, s_status = Status i, s_issueType = IssueType i, s_assignee = Assignee i, s_title = Title i\<rparr>"

definition summarySortFields :: "IssueSummary \<Rightarrow> sortFields" where
  "summarySortFields s =
    \<lparr>s_id = sum_ID s, s_priority = sum_Priority s, s_createdAt = sum_CreatedAt s, s_updatedAt = sum_UpdatedAt s,
     s_closedAt = sum_ClosedAt s, s_status = sum_Status s, s_issueType = sum_IssueType s,
     s_assignee = sum_Assignee s, s_title = sum_Title s\<rparr>"

definition compareTimesAsc :: "Time \<Rightarrow> Time \<Rightarrow> int" where
  "compareTimesAsc a b = (if Before a b then -1 else if After a b then 1 else 0)"

text \<open>\<open>strings.Compare\<close>.\<close>

definition strings_Compare :: "string \<Rightarrow> string \<Rightarrow> int" where
  "strings_Compare a b = (if a < b then -1 else if a > b then 1 else 0)"

definition sortKeyCompareFields :: "sortFields \<Rightarrow> sortFields \<Rightarrow> string \<Rightarrow> int" where
  "sortKeyCompareFields a b sortBy =
    (if sortBy = ''created'' then compareTimesAsc (s_createdAt a) (s_createdAt b)
     else if sortBy = ''updated'' then compareTimesAsc (s_updatedAt a) (s_updatedAt b)
     else if sortBy = ''closed'' then
       (case (s_closedAt a, s_closedAt b) of
          (None, None) \<Rightarrow> 0 | (None, Some _) \<Rightarrow> -1 | (Some _, None) \<Rightarrow> 1 | (Some s, Some t) \<Rightarrow> compareTimesAsc s t)
     else if sortBy = ''status'' then strings_Compare (s_status a) (s_status b)
     else if sortBy = ''type'' then strings_Compare (s_issueType a) (s_issueType b)
     else if sortBy = ''assignee'' then strings_Compare (s_assignee a) (s_assignee b)
     else if sortBy = ''title'' then strings_Compare (to_lower (s_title a)) (to_lower (s_title b))
     else wrap64 (s_priority a - s_priority b))"

definition lessFields :: "sortFields \<Rightarrow> sortFields \<Rightarrow> string \<Rightarrow> bool \<Rightarrow> bool" where
  "lessFields a b sortBy0 sortDesc =
    (if sortBy0 = ''id'' then LessID (s_id a) (s_id b) sortDesc
     else case sort_def sortBy0 of (sortBy, def) \<Rightarrow>
       let descending = ((DefaultDir def = ''DESC'') \<noteq> sortDesc); c = sortKeyCompareFields a b sortBy in
       if c \<noteq> 0 then (if descending then c > 0 else c < 0)
       else if (sortBy = [] \<or> sortBy = ''priority'') \<and> \<not> Equal (s_createdAt a) (s_createdAt b)
       then After (s_createdAt a) (s_createdAt b)
       else s_id a < s_id b)"

definition Less :: "Issue \<Rightarrow> Issue \<Rightarrow> string \<Rightarrow> bool \<Rightarrow> bool" where
  "Less a b sortBy sortDesc = lessFields (issueSortFields a) (issueSortFields b) sortBy sortDesc"

definition LessSummary :: "IssueSummary \<Rightarrow> IssueSummary \<Rightarrow> string \<Rightarrow> bool \<Rightarrow> bool" where
  "LessSummary a b sortBy sortDesc = lessFields (summarySortFields a) (summarySortFields b) sortBy sortDesc"

section \<open>The order is a strict total order\<close>

text \<open>
  What a listing needs of its comparison: on the rows it lists it is irreflexive and transitive, and
  two rows with different keys are comparable. Then a position in a sorted listing cuts it in two:
  the rows that come after the position's row are the rest of the list.
\<close>

locale row_order =
  fixes before :: "'a \<Rightarrow> 'a \<Rightarrow> bool" and key :: "'a \<Rightarrow> 'k" and rows :: "'a set"
  assumes irrefl: "x \<in> rows \<Longrightarrow> \<not> before x x"
    and trans: "x \<in> rows \<Longrightarrow> y \<in> rows \<Longrightarrow> z \<in> rows \<Longrightarrow> before x y \<Longrightarrow> before y z \<Longrightarrow> before x z"
    and total: "x \<in> rows \<Longrightarrow> y \<in> rows \<Longrightarrow> key x \<noteq> key y \<Longrightarrow> before x y \<or> before y x"
begin

lemma asym: "x \<in> rows \<Longrightarrow> y \<in> rows \<Longrightarrow> before x y \<Longrightarrow> \<not> before y x"
  using irrefl trans by blast

lemma sorted_after_nth:
  assumes "sorted_wrt before xs" "set xs \<subseteq> rows" "i < length xs"
  shows "filter (before (xs ! i)) xs = drop (Suc i) xs"
  using assms
proof (induction xs arbitrary: i)
  case (Cons x xs)
  show ?case
  proof (cases i)
    case 0
    then show ?thesis using Cons.prems irrefl by (auto intro!: filter_True)
  next
    case (Suc j)
    then have "before x (xs ! j)" "xs ! j \<in> rows" "x \<in> rows" using Cons.prems by auto
    then have "\<not> before (xs ! j) x" using asym by blast
    then show ?thesis using Suc Cons by simp
  qed
qed simp

lemma sorted_distinct: "sorted_wrt before xs \<Longrightarrow> set xs \<subseteq> rows \<Longrightarrow> distinct xs"
  by (induction xs) (auto simp: irrefl)

lemma sorted_unique:
  assumes "sorted_wrt before xs" "sorted_wrt before ys" "set xs = set ys" "set xs \<subseteq> rows"
  shows "xs = ys"
  using assms
proof (induction xs arbitrary: ys)
  case (Cons x xs)
  then obtain y ys' where y: "ys = y # ys'" by (cases ys) auto
  have "x = y"
  proof (rule ccontr)
    assume "x \<noteq> y"
    then have "before x y" "before y x" using Cons.prems y by auto
    moreover have "x \<in> rows" "y \<in> rows" using Cons.prems y by auto
    ultimately show False using asym by blast
  qed
  moreover have "x \<in> rows" "y \<in> rows" using Cons.prems y by auto
  with irrefl Cons.prems y have "x \<notin> set xs" "y \<notin> set ys'" by auto
  ultimately have "set xs = set ys'" using Cons.prems(3) y by (auto simp: insert_ident)
  then show ?case using Cons y \<open>x = y\<close> by auto
qed simp

end

text \<open>A three-way comparison that compares a key in a linear order.\<close>

definition compares_by :: "'a set \<Rightarrow> ('a \<Rightarrow> 'a \<Rightarrow> int) \<Rightarrow> ('a \<Rightarrow> 'k::linorder) \<Rightarrow> bool" where
  "compares_by A c f = (\<forall>x\<in>A. \<forall>y\<in>A. (c x y < 0 \<longleftrightarrow> f x < f y) \<and> (c x y > 0 \<longleftrightarrow> f y < f x))"

definition valid_rows :: "sortFields set" where
  "valid_rows = {s. 0 \<le> s_priority s \<and> s_priority s \<le> 4}"

lemma compareTimesAsc_by: "compares_by A (\<lambda>x y. compareTimesAsc (g x) (g y)) (\<lambda>x. unix_nano (g x))"
  by (auto simp: compares_by_def compareTimesAsc_def Before_def After_def)

lemma strings_Compare_by: "compares_by A (\<lambda>x y. strings_Compare (g x) (g y)) g"
  by (auto simp: compares_by_def strings_Compare_def)

lemma closed_by:
  "compares_by A (\<lambda>a b. sortKeyCompareFields a b ''closed'') (\<lambda>a. map_option unix_nano (s_closedAt a))"
  by (auto simp: compares_by_def sortKeyCompareFields_def compareTimesAsc_def Before_def After_def split: option.splits)

lemma priority_by: "compares_by valid_rows (\<lambda>a b. wrap64 (s_priority a - s_priority b)) s_priority"
proof -
  have "wrap64 (s_priority a - s_priority b) = s_priority a - s_priority b" if "a \<in> valid_rows" "b \<in> valid_rows" for a b
    using that by (intro wrap64_id) (auto simp: valid_rows_def int64_range_def min_int64_def max_int64_def)
  then show ?thesis by (auto simp: compares_by_def)
qed

definition lex_less :: "('a \<Rightarrow> 'a \<Rightarrow> int) \<Rightarrow> bool \<Rightarrow> ('a \<Rightarrow> 'a \<Rightarrow> bool) \<Rightarrow> 'a \<Rightarrow> 'a \<Rightarrow> bool" where
  "lex_less c desc tie x y = (if c x y \<noteq> 0 then (if desc then c x y > 0 else c x y < 0) else tie x y)"

lemma lex_less_order:
  assumes "compares_by A c f" "row_order tie key A"
  shows "row_order (lex_less c desc tie) key A"
proof -
  have l: "lex_less c desc tie x y \<longleftrightarrow> (if f x = f y then tie x y else if desc then f y < f x else f x < f y)"
    if "x \<in> A" "y \<in> A" for x y
  proof -
    have "c x y < 0 \<longleftrightarrow> f x < f y" "c x y > 0 \<longleftrightarrow> f y < f x" using assms(1) that by (auto simp: compares_by_def)
    then show ?thesis by (cases "f x" "f y" rule: linorder_cases) (auto simp: lex_less_def)
  qed
  note t = row_order.irrefl [OF assms(2)] row_order.trans [OF assms(2)] row_order.total [OF assms(2)]
  show ?thesis
  proof
    show "\<not> lex_less c desc tie x x" if "x \<in> A" for x using that t(1) l by simp
  next
    fix x y z assume a: "x \<in> A" "y \<in> A" "z \<in> A" "lex_less c desc tie x y" "lex_less c desc tie y z"
    then have "if f x = f y then tie x y else if desc then f y < f x else f x < f y"
      "if f y = f z then tie y z else if desc then f z < f y else f y < f z" using l by blast+
    then have "if f x = f z then tie x z else if desc then f z < f x else f x < f z"
      using t(2) [OF a(1-3)] by (auto split: if_splits)
    then show "lex_less c desc tie x z" using l a by blast
  next
    show "lex_less c desc tie x y \<or> lex_less c desc tie y x" if "x \<in> A" "y \<in> A" "key x \<noteq> key y" for x y
      using that t(3) [OF that] l by auto
  qed
qed

lemma id_order: "row_order (\<lambda>a b. s_id a < s_id b) s_id A"
  by unfold_locales auto

lemma sort_key_order:
  assumes "row_order tie s_id valid_rows"
  shows "row_order (lex_less (\<lambda>a b. sortKeyCompareFields a b k) desc tie) s_id valid_rows"
proof -
  note o = lex_less_order [OF _ assms]
  consider "k = ''created''" | "k = ''updated''" | "k = ''closed''" | "k = ''status''" | "k = ''type''" | "k = ''assignee''"
    | "k = ''title''" | "k \<notin> {''created'', ''updated'', ''closed'', ''status'', ''type'', ''assignee'', ''title''}" by auto
  then show ?thesis
  proof cases
    case 3
    then show ?thesis using o [OF closed_by] by simp
  next
    case 7
    then show ?thesis using o [OF strings_Compare_by [of _ "\<lambda>x. to_lower (s_title x)"]] by (simp add: sortKeyCompareFields_def)
  next
    case 8
    then show ?thesis using o [OF priority_by] by (simp add: sortKeyCompareFields_def)
  qed (use o [OF compareTimesAsc_by] o [OF strings_Compare_by] in \<open>simp add: sortKeyCompareFields_def\<close>)+
qed

definition priority_tie :: "sortFields \<Rightarrow> sortFields \<Rightarrow> bool" where
  "priority_tie = lex_less (\<lambda>a b. compareTimesAsc (s_createdAt a) (s_createdAt b)) True (\<lambda>a b. s_id a < s_id b)"

lemma lessFields_lex:
  assumes "k \<noteq> ''id''" "sort_def k = (k', def)"
  shows "lessFields a b k d =
    lex_less (\<lambda>a b. sortKeyCompareFields a b k') ((DefaultDir def = ''DESC'') \<noteq> d)
      (if k' = [] \<or> k' = ''priority'' then priority_tie else (\<lambda>a b. s_id a < s_id b)) a b"
  using assms by (auto simp: lessFields_def lex_less_def priority_tie_def compareTimesAsc_def Equal_def Before_def After_def)

lemma lessFields_order: "row_order (\<lambda>a b. lessFields a b k d) s_id valid_rows"
proof (cases "k = ''id''")
  case True
  then show ?thesis by unfold_locales (auto simp: lessFields_def LessID_def)
next
  case False
  obtain k' "def" where s: "sort_def k = (k', def)" by fastforce
  have "row_order priority_tie s_id valid_rows"
    unfolding priority_tie_def by (rule lex_less_order [OF compareTimesAsc_by id_order])
  then show ?thesis unfolding lessFields_lex [OF False s] by (intro sort_key_order) (simp add: id_order)
qed

text \<open>The order on what is listed follows, for issues and for summaries.\<close>

lemma row_order_image:
  assumes "row_order before key A" "g ` B \<subseteq> A"
  shows "row_order (\<lambda>x y. before (g x) (g y)) (\<lambda>x. key (g x)) B"
  using row_order.irrefl [OF assms(1)] row_order.trans [OF assms(1)] row_order.total [OF assms(1)] assms(2)
  by unfold_locales blast+

definition listed_issues :: "Issue set" where
  "listed_issues = {i. 0 \<le> Priority i \<and> Priority i \<le> 4}"

definition listed_summaries :: "IssueSummary set" where
  "listed_summaries = {s. 0 \<le> sum_Priority s \<and> sum_Priority s \<le> 4}"

interpretation issue_order: row_order "\<lambda>a b. Less a b k d" Issue.ID listed_issues for k d
  using row_order_image [OF lessFields_order [of k d], of issueSortFields listed_issues]
  by (simp add: Less_def issueSortFields_def image_subset_iff listed_issues_def valid_rows_def)

interpretation summary_order: row_order "\<lambda>a b. LessSummary a b k d" sum_ID listed_summaries for k d
  using row_order_image [OF lessFields_order [of k d], of summarySortFields listed_summaries]
  by (simp add: LessSummary_def summarySortFields_def image_subset_iff listed_summaries_def valid_rows_def)

text \<open>
  C35: the merge order of a listing is a strict total order. For every sort key and direction,
  \<open>Less\<close> is irreflexive and transitive on issues with a valid priority, and it orders any two of
  them that have different ids; so the merge of two sorted pages is determined by what they hold.
\<close>

theorem Less_strict_total:
  assumes "a \<in> listed_issues" "b \<in> listed_issues" "c \<in> listed_issues"
  shows "\<not> Less a a k d \<and> (Less a b k d \<and> Less b c k d \<longrightarrow> Less a c k d)
    \<and> (Issue.ID a \<noteq> Issue.ID b \<longrightarrow> Less a b k d \<noteq> Less b a k d)"
  using issue_order.irrefl [OF assms(1)] issue_order.trans [OF assms] issue_order.total [OF assms(1,2)] issue_order.asym [OF assms(1,2)]
  by blast

theorem Less_strict_total_witness:
  "\<not> Less (Issue_zero\<lparr>ID := ''a''\<rparr>) (Issue_zero\<lparr>ID := ''a''\<rparr>) ''closed'' True
   \<and> Less (Issue_zero\<lparr>ID := ''a''\<rparr>) (Issue_zero\<lparr>ID := ''b''\<rparr>) ''closed'' True \<noteq> Less (Issue_zero\<lparr>ID := ''b''\<rparr>) (Issue_zero\<lparr>ID := ''a''\<rparr>) ''closed'' True"
  using Less_strict_total [of "Issue_zero\<lparr>ID := ''a''\<rparr>" "Issue_zero\<lparr>ID := ''b''\<rparr>" Issue_zero "''closed''" True]
  by (simp add: listed_issues_def Issue_zero_def)

section \<open>Paging by keyset\<close>

lemma row_cols:
  "issue_row l i ''id'' = VStr (Issue.ID i)" "issue_row l i ''priority'' = VInt (Priority i)"
  "issue_row l i ''created_at'' = VTime (unix_nano (CreatedAt i))"
  by (simp_all add: issue_row_def insert_column_lines_def issueInsertArgs_def time_val_def)

lemma keyset_created:
  "pred_val e d (issue_row l b) (KeysetCreatedAtIDPredicate (unix_nano (CreatedAt a)) (Issue.ID a)) = Some True
   \<longleftrightarrow> Less a b ''created'' False"
  by (auto simp: KeysetCreatedAtIDPredicate_def and3_True or3_True row_cols ord_op_def Less_def lessFields_def
      sort_def_def SortDefs_def sortKeyCompareFields_def compareTimesAsc_def Before_def After_def issueSortFields_def)

lemma keyset_priority:
  assumes "a \<in> listed_issues" "b \<in> listed_issues"
  shows "pred_val e d (issue_row l b) (KeysetPriorityCreatedAtIDPredicate (Priority a) (unix_nano (CreatedAt a)) (Issue.ID a)) = Some True
   \<longleftrightarrow> Less a b [] False"
proof -
  have "wrap64 (Priority a - Priority b) = Priority a - Priority b"
    using assms by (intro wrap64_id) (auto simp: listed_issues_def int64_range_def min_int64_def max_int64_def)
  then show ?thesis
    by (auto simp: KeysetPriorityCreatedAtIDPredicate_def KeysetCreatedAtIDPredicate_def and3_True or3_True
      and3_True [THEN trans [OF eq_commute]] or3_True [THEN trans [OF eq_commute]] row_cols ord_op_def Less_def lessFields_def
      sort_def_def SortDefs_def sortKeyCompareFields_def Equal_def After_def issueSortFields_def)
qed

section \<open>The meaning of the ORDER BY clause\<close>

text \<open>
  The clause as a list of terms, a value or a NULL test with its direction, and the order it gives:
  the first term on which two rows differ decides. Where an engine puts NULL among the values is
  the argument \<open>nulls_first\<close>; the code does not rely on it, because every nullable column is
  preceded by its NULL test.
\<close>

datatype okey = OVal sx | ONull sx

definition order_terms :: "string \<Rightarrow> bool \<Rightarrow> (okey \<times> bool) list" where
  "order_terms sortBy0 sortDesc =
    (case sort_def sortBy0 of (sortBy, def) \<Rightarrow>
       let desc = ((DefaultDir def = ''DESC'') \<noteq> sortDesc);
           x = (if sortBy = ''title'' then FnLower (Col ''title'') else Col (Column def))
       in if sortBy = [] \<or> sortBy = ''priority'' then [(OVal x, desc), (OVal (Col ''created_at''), True), (OVal (Col ''id''), False)]
          else if sortBy = ''closed'' \<or> sortBy = ''assignee'' then [(ONull x, \<not> desc), (OVal x, desc), (OVal (Col ''id''), False)]
          else [(OVal x, desc), (OVal (Col ''id''), False)])"

definition term_text :: "okey \<times> bool \<Rightarrow> string" where
  "term_text t =
    (case fst t of OVal x \<Rightarrow> sx_text x | ONull x \<Rightarrow> ''('' @ sx_text x @ '' IS NULL)'')
    @ (if snd t then '' DESC'' else '' ASC'')"

fun val_compare :: "bool \<Rightarrow> sql_val \<Rightarrow> sql_val \<Rightarrow> int" where
  "val_compare nulls_first (VStr x) (VStr y) = (if x < y then -1 else if y < x then 1 else 0)"
| "val_compare nulls_first (VInt x) (VInt y) = (if x < y then -1 else if y < x then 1 else 0)"
| "val_compare nulls_first (VTime x) (VTime y) = (if x < y then -1 else if y < x then 1 else 0)"
| "val_compare nulls_first VNull VNull = 0"
| "val_compare nulls_first VNull _ = (if nulls_first then -1 else 1)"
| "val_compare nulls_first _ VNull = (if nulls_first then 1 else -1)"
| "val_compare nulls_first _ _ = 0"

definition key_compare :: "bool \<Rightarrow> engine \<Rightarrow> okey \<Rightarrow> row \<Rightarrow> row \<Rightarrow> int" where
  "key_compare nulls_first e k r s =
    (case k of OVal x \<Rightarrow> val_compare nulls_first (sx_val e r x) (sx_val e s x)
     | ONull x \<Rightarrow> of_bool (sx_val e r x = VNull) - of_bool (sx_val e s x = VNull))"

fun row_before :: "bool \<Rightarrow> engine \<Rightarrow> (okey \<times> bool) list \<Rightarrow> row \<Rightarrow> row \<Rightarrow> bool" where
  "row_before nulls_first e [] r s = False"
| "row_before nulls_first e ((k, desc) # ts) r s =
    (let c = key_compare nulls_first e k r s in
     if c \<noteq> 0 then (if desc then c > 0 else c < 0) else row_before nulls_first e ts r s)"

lemma sort_def_cases:
  obtains "k = ''priority''" | "k = ''created''" | "k = ''updated''" | "k = ''closed''" | "k = ''status''" | "k = ''type''"
  | "k = ''assignee''" | "k = ''title''" | "sort_def k = ([], \<lparr>Column = ''priority'', DefaultDir = ''ASC''\<rparr>)"
proof (cases "k \<in> set [''priority'', ''created'', ''updated'', ''closed'', ''status'', ''type'', ''assignee'', ''title'']")
  case True
  then have "k = ''priority'' \<or> k = ''created'' \<or> k = ''updated'' \<or> k = ''closed'' \<or> k = ''status'' \<or> k = ''type''
     \<or> k = ''assignee'' \<or> k = ''title''" by simp
  then show ?thesis by (elim disjE) (erule that)+
next
  case False
  then have "sort_def k = ([], \<lparr>Column = ''priority'', DefaultDir = ''ASC''\<rparr>)"
    by (cases "k = []") (simp_all add: sort_def_def SortDefs_def)
  then show ?thesis by (rule that(9))
qed

lemmas order_eval = order_terms_def sort_def_def SortDefs_def Let_def

lemma OrderBy_text:
  "OrderBy k d [] = (if IsGoSideSort k then [] else ''ORDER BY '' @ join (map term_text (order_terms k d)) '', '')"
proof (cases "IsGoSideSort k")
  case True
  then show ?thesis by (simp add: OrderBy_def OrderByForColumns_def)
next
  case False
  show ?thesis
  proof (rule sort_def_cases [of k])
    assume "sort_def k = ([], \<lparr>Column = ''priority'', DefaultDir = ''ASC''\<rparr>)"
    then show ?thesis using False
      by (cases d) (simp_all add: OrderBy_def OrderByForColumns_def order_terms_def Let_def term_text_def flipDir_def SortDefs_def)
  qed (cases d; simp add: OrderBy_def OrderByForColumns_def IsGoSideSort_def order_eval term_text_def flipDir_def)+
qed

lemma order_cols:
  "issue_row l i ''updated_at'' = VTime (unix_nano (UpdatedAt i))" "issue_row l i ''closed_at'' = time_ptr (ClosedAt i)"
  "issue_row l i ''status'' = VStr (Status i)" "issue_row l i ''issue_type'' = VStr (IssueType i)"
  "issue_row l i ''assignee'' = NullString (Assignee i)" "issue_row l i ''title'' = VStr (Title i)"
  by (simp_all add: issue_row_def insert_column_lines_def issueInsertArgs_def time_val_def)

lemma Nil_less [simp]: "([] :: string) < s \<longleftrightarrow> s \<noteq> []"
  by (cases s) auto

text \<open>
  C9: the merge in Go orders rows as the SQL does. For every sort key but \<open>id\<close>, every direction and
  wherever the engine puts NULL, \<open>Less\<close> on two issues with valid priorities is the order that the
  ORDER BY clause gives their rows, and the terms of that order are what the clause says; LOWER is
  taken to be Go's lower-casing on the two titles.
\<close>

theorem Less_mirrors_OrderBy:
  assumes "k \<noteq> ''id''" "a \<in> listed_issues" "b \<in> listed_issues"
    "e_lower e (Title a) = to_lower (Title a)" "e_lower e (Title b) = to_lower (Title b)"
  shows "Less a b k d = row_before nulls_first e (order_terms k d) (issue_row l a) (issue_row m b)
    \<and> OrderBy k d [] = ''ORDER BY '' @ join (map term_text (order_terms k d)) '', ''"
proof
  have p: "wrap64 (Priority a - Priority b) = Priority a - Priority b"
    using assms by (intro wrap64_id) (auto simp: listed_issues_def int64_range_def min_int64_def max_int64_def)
  note defs = Less_def lessFields_def issueSortFields_def key_compare_def row_cols order_cols
  show "Less a b k d = row_before nulls_first e (order_terms k d) (issue_row l a) (issue_row m b)"
  proof (rule sort_def_cases [of k])
    assume "sort_def k = ([], \<lparr>Column = ''priority'', DefaultDir = ''ASC''\<rparr>)"
    then show ?thesis using assms(1) p
      by (auto simp: defs order_terms_def Let_def sortKeyCompareFields_def Equal_def After_def)
  next
    assume "k = ''closed''"
    then show ?thesis
      by (cases "ClosedAt a"; cases "ClosedAt b")
        (auto simp: defs order_eval sortKeyCompareFields_def compareTimesAsc_def Before_def After_def time_ptr_def time_val_def)
  next
    assume "k = ''assignee''"
    then show ?thesis
      by (cases "Assignee a = []"; cases "Assignee b = []")
        (auto simp: defs order_eval sortKeyCompareFields_def strings_Compare_def NullString_def)
  next
    assume "k = ''priority''"
    then show ?thesis using p by (auto simp: defs order_eval sortKeyCompareFields_def Equal_def After_def)
  next
    assume "k = ''title''"
    then show ?thesis using assms(4,5) by (auto simp: defs order_eval sortKeyCompareFields_def strings_Compare_def)
  qed (auto simp: defs order_eval sortKeyCompareFields_def compareTimesAsc_def Before_def After_def strings_Compare_def)
  show "OrderBy k d [] = ''ORDER BY '' @ join (map term_text (order_terms k d)) '', ''"
    using assms(1) by (simp add: OrderBy_text IsGoSideSort_def)
qed

theorem Less_mirrors_OrderBy_witness:
  "Less Issue_zero (Issue_zero\<lparr>Assignee := ''bo''\<rparr>) ''assignee'' False
     = row_before False example_engine (order_terms ''assignee'' False) (issue_row 0 Issue_zero) (issue_row 1 (Issue_zero\<lparr>Assignee := ''bo''\<rparr>))
   \<and> OrderBy ''assignee'' False [] = ''ORDER BY '' @ join (map term_text (order_terms ''assignee'' False)) '', ''"
  by (rule Less_mirrors_OrderBy) (simp_all add: listed_issues_def Issue_zero_def example_engine_def)

text \<open>The filter that continues a listing after a row, under the default order or the created order.\<close>

definition page_filter :: "string \<Rightarrow> Issue \<Rightarrow> IssueFilter" where
  "page_filter k a =
    IssueFilter_zero\<lparr>fAfterCreatedAt := Some (CreatedAt a), fAfterID := Issue.ID a,
      fAfterPriority := (if k = ''created'' then None else Some (Priority a))\<rparr>"

lemma page_filter_preds:
  "issue_filter_preds now [] (page_filter k a) tables =
    Inr [if k = ''created'' then KeysetCreatedAtIDPredicate (unix_nano (CreatedAt a)) (Issue.ID a)
         else KeysetPriorityCreatedAtIDPredicate (Priority a) (unix_nano (CreatedAt a)) (Issue.ID a)]"
  by (simp add: issue_filter_preds_def AppendMetadataClauses_def text_preds_def field_preds_def relation_preds_def
      flag_preds_def time_preds_def time_pred_def page_filter_def IssueFilter_zero_def only_def opt_def LabelSetClauses_def)

lemma Less_priority: "Less a b ''priority'' d = Less a b [] d"
  by (simp add: Less_def lessFields_def sort_def_def SortDefs_def sortKeyCompareFields_def)

text \<open>
  C5: keyset paging neither skips nor repeats. Take a listing sorted by the default order or by the
  created order. Of its rows, the ones that the search clauses for the position of row \<open>i\<close> select
  are exactly the rows after it. So the next page starts where this one ended, whatever ties of
  priority and creation time lie at the boundary.
\<close>

theorem keyset_page_rest:
  assumes "k \<in> {[], ''priority'', ''created''}" "sorted_wrt (\<lambda>a b. Less a b k False) xs"
    "set xs \<subseteq> listed_issues" "i < length xs"
  shows "filter (\<lambda>b. selected e d (issue_filter_preds now [] (page_filter k (xs ! i)) tables) (issue_row l b)) xs
    = drop (Suc i) xs"
proof -
  have m: "xs ! i \<in> listed_issues" using assms nth_mem by blast
  have "selected e d (issue_filter_preds now [] (page_filter k (xs ! i)) tables) (issue_row l b) \<longleftrightarrow> Less (xs ! i) b k False"
    if "b \<in> set xs" for b
    using that assms(1,3) keyset_priority [OF m] keyset_created
    by (auto simp: page_filter_preds selected_def Less_priority)
  then show ?thesis
    using issue_order.sorted_after_nth [OF assms(2-4)] by (metis (no_types, lifting) filter_cong)
qed

definition example_page :: "Issue list" where
  "example_page = [Issue_zero\<lparr>ID := ''a''\<rparr>, Issue_zero\<lparr>ID := ''b''\<rparr>, Issue_zero\<lparr>ID := ''a'', Priority := 1\<rparr>]"

theorem keyset_page_rest_witness:
  "filter (\<lambda>b. selected example_engine (\<lambda>_. []) (issue_filter_preds Time_zero [] (page_filter [] (example_page ! 1)) IssuesFilterTables) (issue_row 0 b))
     example_page = [Issue_zero\<lparr>ID := ''a'', Priority := 1\<rparr>]"
proof -
  have "sorted_wrt (\<lambda>a b. Less a b [] False) example_page" "set example_page \<subseteq> listed_issues" "1 < length example_page"
    by (simp_all add: example_page_def Less_def lessFields_def sort_def_def SortDefs_def sortKeyCompareFields_def
        issueSortFields_def Issue_zero_def Equal_def wrap64_def listed_issues_def)
  from keyset_page_rest [OF _ this] show ?thesis by (simp add: example_page_def)
qed

end
