(* ===== verification/Rfc3339.thy ===== *)
theory Rfc3339
  imports TimeParsing
begin

text \<open>
  Time stamps as the storage layer writes them into its queries, \<open>t.UTC().Format(time.RFC3339)\<close>, and
  how they are read: the calendar gives a date that exists, and the text is read back to the second.
\<close>

section \<open>The date of a day exists\<close>

lemma era_leap:
  assumes "0 \<le> doe" "doe < 146097" "day_of_year doe = 365"
  shows "is_leap (year_of_era doe + 1)"
proof -
  define c where "c = min 3 (doe div 36524)"
  define r where "r = doe - 36524 * c"
  define k where "k = r div 1461"
  define s where "s = r mod 1461"
  have c: "0 \<le> c" "c \<le> 3" using assms unfolding c_def by auto
  have r: "0 \<le> r" "r \<le> 36524" using assms unfolding r_def c_def by linarith+
  have r3: "c = 3" if "r = 36524"
  proof (rule ccontr)
    assume "c \<noteq> 3"
    then have "c = doe div 36524" unfolding c_def by auto
    then have "r = doe mod 36524" unfolding r_def by (simp add: minus_mult_div_eq_mod)
    then show False using that pos_mod_bound [of 36524 doe] by simp
  qed
  have s: "s \<le> 1460" "r = 1461 * k + s" unfolding s_def k_def by auto
  have k: "0 \<le> k" "k \<le> 24" using r unfolding k_def by linarith+
  have "day_of_year doe = s - 365 * min 3 (s div 365)"
    unfolding day_of_year_def Let_def c_def r_def s_def by simp
  with assms(3) have s': "s = 1460" using s(1) by linarith
  then have y: "year_of_era doe + 1 = 100 * c + 4 * k + 4"
    unfolding year_of_era_def Let_def c_def [symmetric] r_def [symmetric] s_def [symmetric] k_def [symmetric] by simp
  have "k = 24 \<Longrightarrow> c = 3" using r3 s(2) s' by simp
  then consider "k = 24" "c = 3" | "k < 24" using k by linarith
  then show ?thesis
  proof cases
    case 1
    then show ?thesis by (simp add: is_leap_def y)
  next
    case 2
    then have "(4 * k + 4 + 100 * c) mod 100 = 4 * k + 4" using k(1) by simp
    moreover have "(4 * k + 4 + 100 * c) mod 4 = 0" by presburger
    ultimately show ?thesis unfolding is_leap_def y using k(1) by (simp add: algebra_simps)
  qed
qed

lemma is_leap_era: "is_leap (y + e * 400) = is_leap y"
proof -
  have "(y + e * 400) mod 4 = y mod 4" using mod_mult_self1 [of y "e * 100" 4] by (simp add: mult.commute)
  moreover have "(y + e * 400) mod 100 = y mod 100" using mod_mult_self1 [of y "e * 4" 100] by (simp add: mult.commute)
  ultimately show ?thesis by (simp add: is_leap_def)
qed

lemma month_day:
  fixes doy :: int
  assumes "0 \<le> doy" "doy \<le> 365" "mp = (5 * doy + 2) div 153" "d = doy - (153 * mp + 2) div 5 + 1"
  shows "1 \<le> d" "d \<le> (if mp = 11 then (if doy = 365 then 29 else 28) else if mp \<in> {1, 3, 6, 8} then 30 else 31)"
proof -
  have m: "153 * mp \<le> 5 * doy + 2" "5 * doy + 2 < 153 * mp + 153" using assms(3) by linarith+
  show "1 \<le> d" using assms(4) m(1) by linarith
  have "0 \<le> mp" "mp \<le> 11" using assms(1,2) m by linarith+
  then have "mp = 0 \<or> mp = 1 \<or> mp = 2 \<or> mp = 3 \<or> mp = 4 \<or> mp = 5 \<or> mp = 6 \<or> mp = 7 \<or> mp = 8 \<or> mp = 9 \<or> mp = 10 \<or> mp = 11"
    by presburger
  then show "d \<le> (if mp = 11 then (if doy = 365 then 29 else 28) else if mp \<in> {1, 3, 6, 8} then 30 else 31)"
    using assms(2,4) m by auto
qed

lemma civil_from_days_date:
  assumes "civil_from_days z = (y, m, d)"
  shows "1 \<le> m" "m \<le> 12" "1 \<le> d" "d \<le> days_in m y"
proof -
  show "1 \<le> m" "m \<le> 12" using civil_from_days_inverse [OF assms] by auto
  define doe where "doe = (z + 719468) mod 146097"
  define era where "era = (z + 719468) div 146097"
  define doy where "doy = day_of_year doe"
  define mp where "mp = (5 * doy + 2) div 153"
  have b: "0 \<le> doe" "doe < 146097" unfolding doe_def by auto
  have doy: "0 \<le> doy" "doy \<le> 365" using era_decomp(3,4) [OF b] by (simp_all add: doy_def)
  have mp: "0 \<le> mp" "mp \<le> 11" unfolding mp_def using doy by linarith+
  define m' where "m' = (if mp < 10 then mp + 3 else mp - 9)"
  have "civil_from_days z = (year_of_era doe + era * 400 + (if m' \<le> 2 then 1 else 0), m', doy - (153 * mp + 2) div 5 + 1)"
    unfolding civil_from_days_def Let_def doe_def era_def doy_def mp_def m'_def by (rule refl)
  with assms have m: "m = (if mp < 10 then mp + 3 else mp - 9)" and d: "d = doy - (153 * mp + 2) div 5 + 1"
    and y: "y = year_of_era doe + era * 400 + (if m \<le> 2 then 1 else 0)"
    unfolding m'_def by auto
  note md = month_day [OF doy mp_def d]
  show "1 \<le> d" by (rule md(1))
  have "is_leap y" if "mp = 11" "doy = 365"
    using era_leap [OF b] that is_leap_era [of "year_of_era doe + 1" era] m y by (simp add: doy_def algebra_simps)
  moreover have mm: "(mp = 11) = (m = 2)" "(mp \<in> {1, 3, 6, 8}) = (m \<in> {4, 6, 9, 11})"
    unfolding m using mp by auto
  ultimately show "d \<le> days_in m y"
    using md(2) unfolding days_in_def mm by (cases "m = 2"; cases "doy = 365"; cases "is_leap y") (simp_all split: if_splits)
qed

section \<open>The text\<close>

lemma replicate_last: "0 < w \<Longrightarrow> replicate (w - Suc 0) c @ [c] = replicate w c"
  by (cases w) (simp_all add: replicate_append_same)

lemma zero_pad_Suc: "0 < w \<Longrightarrow> zero_pad (Suc w) n = zero_pad w (n div 10) @ [digit_char (n mod 10)]"
proof (cases "n < 10")
  case True
  moreover have "nat_to_string 0 = ''0''" by (simp add: nat_to_string.simps digit_char_def char_of_def bit_0)
  moreover assume "0 < w"
  ultimately show ?thesis by (simp add: zero_pad_def Let_def nat_to_string.simps [of n] replicate_last)
qed (simp add: zero_pad_def Let_def nat_to_string.simps [of n])

lemma zero_pad_two: "n < 100 \<Longrightarrow> zero_pad 2 n = two_digits n"
  using zero_pad_Suc [of 1 n] by (simp add: numeral_2_eq_2) (simp add: zero_pad_def two_digits_def nat_to_string.simps [of "n div 10"])

lemma zero_pad_four:
  assumes "n < 10000"
  shows "zero_pad 4 n = two_digits (n div 100) @ two_digits (n mod 100)"
proof -
  have "zero_pad 4 n = zero_pad 2 (n div 10 div 10) @ [digit_char (n div 10 mod 10), digit_char (n mod 10)]"
    using zero_pad_Suc [of 3 n] zero_pad_Suc [of 2 "n div 10"] by simp
  moreover have "n div 10 div 10 = n div 100" "n div 10 mod 10 = n mod 100 div 10" "n mod 10 = n mod 100 mod 10"
    using div_mult2_eq [of n 10 10] mod_mult2_eq [of n 10 10] by simp_all
  moreover have "n div 100 < 100" using assms by (simp add: less_mult_imp_div_less)
  ultimately show ?thesis using zero_pad_two [of "n div 100"] by (simp add: two_digits_def)
qed

section \<open>Reading a time stamp\<close>

text \<open>The times whose year has four digits, and the instant that a printed time stands for.\<close>

definition printable :: "Time \<Rightarrow> bool" where
  "printable t = (case civil (UTC t) of (y, _, _) \<Rightarrow> 0 \<le> y \<and> y < 10000)"

definition whole_seconds :: "Time \<Rightarrow> int" where
  "whole_seconds t = unix_nano t - unix_nano t mod nano"

lemma getnum_two: "n < 100 \<Longrightarrow> getnum (two_digits n @ r) b = Some (int n, r)"
  using two_digits_props(3) [of n r] two_digits_props(1) [of n]
  by (cases b) (auto simp: two_digits_def getnum_def split: if_splits)

lemma parse_clock:
  assumes "h < 24" "mi < 60" "s < 60"
  shows "parse_elems (layout_clock @ [StdISO8601ColonTZ]) p (two_digits h @ '':'' @ two_digits mi @ '':'' @ two_digits s @ ''Z'')
    = Some (p\<lparr>p_hour := int h, p_min := int mi, p_sec := int s, p_nsec := 0, p_zone := Some 0\<rparr>)"
  using assms getnum_two [of h] getnum_two [of mi] getnum_two [of s]
  by (simp add: layout_clock_def parse_elem_def skip_lit_def frac_seconds_def parse_tz_def)

lemma parse_date_prefix:
  assumes "y < 10000" "1 \<le> m" "m \<le> 12" "d < 100"
  shows "parse_elems (layout_date @ Lit CHR ''T'' # es) p (format_date y m d @ ''T'' @ r)
    = parse_elems es (p\<lparr>p_year := int y, p_month := int m, p_day := int d\<rparr>) r"
proof -
  have h: "y div 100 < 100" "y mod 100 < 100" "m < 100" using assms by (simp_all add: less_mult_imp_div_less)
  note ps = two_digits_props [OF h(1)] two_digits_props [OF h(2)]
  have four: "take 4 (two_digits (y div 100) @ two_digits (y mod 100) @ q) = two_digits (y div 100) @ two_digits (y mod 100)"
    "drop 4 (two_digits (y div 100) @ two_digits (y mod 100) @ q) = q" for q
    using ps(2,6) by simp_all
  have v: "digits_value 0 (two_digits (y div 100) @ two_digits (y mod 100)) = y"
    unfolding digits_value_append ps(4) [of 0] ps(8) by simp
  show ?thesis
    using assms ps(1,2,5,6) getnum_two [OF h(3)] getnum_two [OF assms(4)]
    by (simp add: layout_date_def format_date_def parse_elem_def four v skip_lit_def)
qed

lemma hms: "((s :: int) div 3600 * 60 + s mod 3600 div 60) * 60 + s mod 60 = s"
proof -
  have m: "s mod 60 = s mod 3600 mod 60" by (simp add: mod_mod_cancel)
  have "(s div 3600 * 60 + s mod 3600 div 60) * 60 + s mod 60 = s div 3600 * 3600 + (s mod 3600 div 60 * 60 + s mod 60)"
    by (simp add: distrib_right)
  also have "\<dots> = s" unfolding m div_mult_mod_eq ..
  finally show ?thesis .
qed

lemma parse_format_rfc3339:
  assumes "printable t"
  shows "ParseInLocation layout_rfc3339 (format_rfc3339_utc t) off = Some \<lparr>unix_nano = whole_seconds t, zone_offset = 0\<rparr>"
    "\<exists>y m d h mi s. y < 10000 \<and> format_rfc3339_utc t = format_date y m d @ ''T'' @ two_digits h @ '':'' @ two_digits mi @ '':'' @ two_digits s @ ''Z''"
proof -
  obtain y m d where c: "civil (UTC t) = (y, m, d)" by (metis prod_cases3)
  let ?day = "86400 * nano"
  have z: "civil_from_days (unix_nano t div ?day) = (y, m, d)" using c by (simp add: civil_def UTC_def local_nano_def)
  note cd = civil_from_days_date [OF z]
  have y: "0 \<le> y" "y < 10000" using assms c by (simp_all add: printable_def)
  have "days_in m y \<le> 31" by (simp add: days_in_def)
  then have d: "d < 100" using cd(4) by simp
  define s where "s = unix_nano t mod ?day div nano"
  have "0 \<le> unix_nano t mod ?day" "unix_nano t mod ?day < ?day" by (simp_all add: nano_def)
  then have s: "0 \<le> s" "s < 86400" unfolding s_def nano_def by linarith+
  have clock: "nat (s div 3600) < 24" "nat (s mod 3600 div 60) < 60" "nat (s mod 60) < 60" using s by linarith+
  have "unix_nano t mod ?day mod nano = unix_nano t mod nano" by (rule mod_mod_cancel) simp
  then have "s * nano = unix_nano t mod ?day - unix_nano t mod nano"
    unfolding s_def using minus_mod_eq_div_mult [of "unix_nano t mod ?day" nano] by simp
  then have t: "unix_nano t div ?day * 86400 * nano + s * nano = whole_seconds t"
    using div_mult_mod_eq [of "unix_nano t" ?day] by (simp add: whole_seconds_def algebra_simps)
  have f: "format_rfc3339_utc t = format_date (nat y) (nat m) (nat d) @ ''T''
      @ two_digits (nat (s div 3600)) @ '':'' @ two_digits (nat (s mod 3600 div 60)) @ '':'' @ two_digits (nat (s mod 60)) @ ''Z''"
  proof -
    have n: "nat y < 10000" "nat m < 100" "nat d < 100" using y cd d by auto
    have "nat (s div 3600) < 100" "nat (s mod 3600 div 60) < 100" "nat (s mod 60) < 100"
      by (rule less_trans [OF clock(1)] less_trans [OF clock(2)] less_trans [OF clock(3)], simp)+
    note zp = zero_pad_four [OF n(1)] this [THEN zero_pad_two] n(2,3) [THEN zero_pad_two]
    have "(if y < 0 then ''-'' else []) = []" "nat \<bar>y\<bar> = nat y" using y by simp_all
    then show ?thesis
      unfolding format_rfc3339_utc_def c prod.case Let_def s_def [symmetric] format_date_def by (simp only: zp append.simps append_assoc)
  qed
  have p: "parse_elems layout_rfc3339 parsed_start (format_rfc3339_utc t) =
      Some (parsed_start\<lparr>p_year := y, p_month := m, p_day := d, p_hour := s div 3600, p_min := s mod 3600 div 60,
        p_sec := s mod 60, p_nsec := 0, p_zone := Some 0\<rparr>)"
  proof -
    let ?c = "two_digits (nat (s div 3600)) @ '':'' @ two_digits (nat (s mod 3600 div 60)) @ '':'' @ two_digits (nat (s mod 60)) @ ''Z''"
    let ?p = "parsed_start\<lparr>p_year := y, p_month := m, p_day := d\<rparr>"
    have "parse_elems (layout_date @ Lit CHR ''T'' # layout_clock @ [StdISO8601ColonTZ]) parsed_start (format_date (nat y) (nat m) (nat d) @ ''T'' @ ?c)
      = parse_elems (layout_clock @ [StdISO8601ColonTZ]) ?p ?c"
      using parse_date_prefix [of "nat y" "nat m" "nat d"] y cd d by (simp del: append_Cons append.simps)
    also have "\<dots> = Some (?p\<lparr>p_hour := s div 3600, p_min := s mod 3600 div 60, p_sec := s mod 60, p_nsec := 0, p_zone := Some 0\<rparr>)"
      unfolding parse_clock [OF clock] using s by simp
    finally show ?thesis unfolding f layout_rfc3339_def layout_datetime_def by simp
  qed
  show "\<exists>y m d h mi s. y < 10000 \<and> format_rfc3339_utc t = format_date y m d @ ''T'' @ two_digits h @ '':'' @ two_digits mi @ '':'' @ two_digits s @ ''Z''"
    using f y by (intro exI conjI) auto
  show "ParseInLocation layout_rfc3339 (format_rfc3339_utc t) off = Some \<lparr>unix_nano = whole_seconds t, zone_offset = 0\<rparr>"
    using cd civil_from_days_inverse [OF z] t hms [of s] unfolding ParseInLocation_def p option.case
    by (simp add: Date_normalized)
qed

text \<open>
  C40: time stamps round-trip to the second. The text that a filter or an export writes for an instant
  with a four-digit year is read back, by the layer of the relative-time parser that reads RFC 3339, as
  the same instant with its fraction of a second cut off.
\<close>

theorem rfc3339_roundtrip:
  assumes "printable t"
  shows "ParseRelativeTime nlp (format_rfc3339_utc t) now = Inr \<lparr>unix_nano = whole_seconds t, zone_offset = 0\<rparr>"
proof -
  obtain y m d h mi s where f: "y < 10000" "format_rfc3339_utc t = format_date y m d @ ''T'' @ two_digits h @ '':'' @ two_digits mi @ '':'' @ two_digits s @ ''Z''"
    using parse_format_rfc3339(2) [OF assms] by (elim exE conjE) (rule that)
  then have "length (format_rfc3339_utc t) = 20" by (simp add: format_date_def two_digits_def del: One_nat_def)
  then have "\<not> dateOnlyRe (format_rfc3339_utc t)" by (simp add: dateOnlyRe_def)
  moreover have "ParseCompactDuration (format_rfc3339_utc t) now = Inl (NotCompactDuration (format_rfc3339_utc t))"
    unfolding f(2) by (rule format_date_append_not_compact [OF f(1)])
  ultimately show ?thesis
    unfolding ParseRelativeTime_def Let_def by (simp only: sum.case if_False option.case parse_format_rfc3339(1) [OF assms] UTC_def Time.simps)
qed

theorem rfc3339_roundtrip_witness:
  "ParseRelativeTime (\<lambda>_ _. Inl []) (format_rfc3339_utc \<lparr>unix_nano = 1500000000, zone_offset = 3600\<rparr>) Time_zero
   = Inr \<lparr>unix_nano = 1000000000, zone_offset = 0\<rparr>"
proof -
  let ?t = "\<lparr>unix_nano = 1500000000, zone_offset = 3600\<rparr>"
  have "civil_from_days 0 = (1970, 1, 1)"
    by code_simp
  then have "printable ?t" by (simp add: printable_def civil_def UTC_def local_nano_def nano_def)
  from rfc3339_roundtrip [OF this, of "\<lambda>_ _. Inl []" Time_zero] show ?thesis
    by (simp add: whole_seconds_def nano_def)
qed

end
