(* ===== verification/QuerySound.thy ===== *)
theory QuerySound
  imports QueryEval SqlLike SqlSort Rfc3339
begin

text \<open>
  What the evaluator of \<^theory_text>\<open>QueryEval\<close> promises: which issues a query finds, when its filter is
  run as SQL on the rows of the issues. A query is run either by its filter alone, or by its
  predicate on the issues that its filter lets through.
\<close>

section \<open>Finding an issue\<close>

text \<open>
  What is assumed of the engine: LOWER lower-cases the text columns as Go does, and a time literal with
  a four-digit year is read at whole seconds. The labels table has string ids, and an entry for the issue exactly when the
  issue has labels.
\<close>

definition go_engine :: "engine \<Rightarrow> bool" where
  "go_engine e = ((\<forall>s. e_lower e s = to_lower s)
     \<and> (\<forall>t. printable t \<longrightarrow> e_time e (format_rfc3339_utc t) = Some (whole_seconds t)))"

definition labels_stored :: "db \<Rightarrow> FilterTables \<Rightarrow> Issue \<Rightarrow> bool" where
  "labels_stored d tables i =
    ((\<forall>r\<in>set (d (LabelsTab tables)). \<exists>s. r ''issue_id'' = VStr s)
     \<and> ((\<exists>r\<in>set (d (LabelsTab tables)). r ''issue_id'' = VStr (Issue.ID i)) \<longleftrightarrow> Labels i \<noteq> []))"

definition finds :: "engine \<Rightarrow> db \<Rightarrow> Time \<Rightarrow> FilterTables \<Rightarrow> int \<Rightarrow> IssueFilter \<Rightarrow> Issue \<Rightarrow> bool" where
  "finds e d now tables l f i = selected e d (issue_filter_preds now [] f tables) (issue_row l i)"

definition no_metadata :: "IssueFilter \<Rightarrow> bool" where
  "no_metadata f = (fHasMetadataKey f = [] \<and> fMetadataFields f = [])"

lemma finds_groups:
  assumes "no_metadata f"
  shows "finds e d now tables l f i \<longleftrightarrow>
    selects e d (text_preds [] f) (issue_row l i) \<and> selects e d (field_preds f) (issue_row l i)
    \<and> selects e d (relation_preds f tables) (issue_row l i) \<and> selects e d (flag_preds f) (issue_row l i)
    \<and> selects e d (time_preds now f) (issue_row l i)"
  using assms by (simp add: finds_def selected_def issue_filter_preds_def AppendMetadataClauses_def no_metadata_def only_def)

lemma selects_only [simp]: "selects e d (only b ps) r \<longleftrightarrow> (b \<longrightarrow> selects e d ps r)"
  by (simp add: only_def)

lemma selects_opt [simp]: "selects e d (opt g x) r \<longleftrightarrow> (case x of None \<Rightarrow> True | Some v \<Rightarrow> pred_val e d r (g v) = Some True)"
  by (simp add: opt_def split: option.splits)

lemma text_row:
  "issue_row l i ''title'' = VStr (Title i)" "issue_row l i ''description'' = VStr (Description i)"
  "issue_row l i ''notes'' = VStr (Notes i)" "issue_row l i ''spec_id'' = VStr (SpecID i)"
  "issue_row l i ''is_template'' = bool_val (IsTemplate i)" "issue_row l i ''updated_at'' = time_val (UpdatedAt i)"
  "issue_row l i ''created_at'' = time_val (CreatedAt i)" "issue_row l i ''started_at'' = time_ptr (StartedAt i)"
  "issue_row l i ''closed_at'' = time_ptr (ClosedAt i)"
  by (simp_all add: issue_row_def insert_column_lines_def issueInsertArgs_def)

text \<open>One lemma per clause: its value on the row of an issue.\<close>

lemma lower_contains_row:
  assumes "go_engine e" "issue_row l i c = VStr s" "like_safe (to_lower v)" "ascii v"
  shows "contains (to_lower s) (to_lower v) \<Longrightarrow> pred_val e d (issue_row l i) (lower_contains c v) = Some True"
    "like_exact (to_lower v) \<Longrightarrow> pred_val e d (issue_row l i) (lower_contains c v) = Some (contains (to_lower s) (to_lower v))"
  using lower_like_contains [OF assms(3,4), of s] assms(1,2)
  by (simp_all add: lower_contains_def go_engine_def)

lemma time_after_row:
  assumes "go_engine e" "printable t" "issue_row l i c = time_val u" "After u t"
  shows "pred_val e d (issue_row l i) (Cmp (Col c) ''>'' (arg_str (format_rfc3339_utc t))) = Some True"
proof -
  have "0 \<le> unix_nano t mod nano" by (simp add: nano_def)
  then show ?thesis using assms by (simp add: go_engine_def time_val_def After_def ord_op_def whole_seconds_def)
qed

lemma no_labels_row:
  assumes "labels_stored d tables i" "Labels i = []"
  shows "pred_val e d (issue_row l i) (InAll True (Col ''id'') ''DISTINCT issue_id'' (LabelsTab tables)) = Some True"
proof -
  have "vcmp e ''='' (VStr (Issue.ID i)) (r ''issue_id'') = Some False" if "r \<in> set (d (LabelsTab tables))" for r
    using assms that by (fastforce simp: labels_stored_def ord_op_def)
  then show ?thesis
    by (auto simp: ready_cols or3_def not_if_def trim_prefix_def)
qed

section \<open>Narrowing by one slot\<close>

text \<open>Setting a slot of the filter changes only the group of clauses that reads it.\<close>

lemma text_frame:
  "text_preds q (f\<lparr>fStatus := b\<rparr>) = text_preds q f"
  "text_preds q (f\<lparr>fExcludeStatus := ys\<rparr>) = text_preds q f"
  "text_preds q (f\<lparr>fPriority := p\<rparr>) = text_preds q f"
  "text_preds q (f\<lparr>fPriorityMin := p\<rparr>) = text_preds q f"
  "text_preds q (f\<lparr>fPriorityMax := p\<rparr>) = text_preds q f"
  "text_preds q (f\<lparr>fIssueType := b\<rparr>) = text_preds q f"
  "text_preds q (f\<lparr>fExcludeTypes := ys\<rparr>) = text_preds q f"
  "text_preds q (f\<lparr>fIDs := ys\<rparr>) = text_preds q f"
  "text_preds q (f\<lparr>fIDPrefix := a\<rparr>) = text_preds q f"
  "text_preds q (f\<lparr>fSpecIDPrefix := a\<rparr>) = text_preds q f"
  "text_preds q (f\<lparr>fNoLabels := c\<rparr>) = text_preds q f"
  "text_preds q (f\<lparr>fPinned := y\<rparr>) = text_preds q f"
  "text_preds q (f\<lparr>fEphemeral := y\<rparr>) = text_preds q f"
  "text_preds q (f\<lparr>fIsTemplate := y\<rparr>) = text_preds q f"
  "text_preds q (f\<lparr>fEmptyDescription := c\<rparr>) = text_preds q f"
  "text_preds q (f\<lparr>fNoAssignee := c\<rparr>) = text_preds q f"
  "text_preds q (f\<lparr>fCreatedAfter := u\<rparr>) = text_preds q f"
  "text_preds q (f\<lparr>fUpdatedAfter := u\<rparr>) = text_preds q f"
  "text_preds q (f\<lparr>fClosedAfter := u\<rparr>) = text_preds q f"
  "text_preds q (f\<lparr>fStartedAfter := u\<rparr>) = text_preds q f"
  by (simp_all add: text_preds_def)

lemma field_frame:
  "field_preds (f\<lparr>fTitleContains := a\<rparr>) = field_preds f"
  "field_preds (f\<lparr>fDescriptionContains := a\<rparr>) = field_preds f"
  "field_preds (f\<lparr>fNotesContains := a\<rparr>) = field_preds f"
  "field_preds (f\<lparr>fNoLabels := c\<rparr>) = field_preds f"
  "field_preds (f\<lparr>fPinned := y\<rparr>) = field_preds f"
  "field_preds (f\<lparr>fEphemeral := y\<rparr>) = field_preds f"
  "field_preds (f\<lparr>fIsTemplate := y\<rparr>) = field_preds f"
  "field_preds (f\<lparr>fEmptyDescription := c\<rparr>) = field_preds f"
  "field_preds (f\<lparr>fNoAssignee := c\<rparr>) = field_preds f"
  "field_preds (f\<lparr>fCreatedAfter := u\<rparr>) = field_preds f"
  "field_preds (f\<lparr>fUpdatedAfter := u\<rparr>) = field_preds f"
  "field_preds (f\<lparr>fClosedAfter := u\<rparr>) = field_preds f"
  "field_preds (f\<lparr>fStartedAfter := u\<rparr>) = field_preds f"
  by (simp_all add: field_preds_def)

lemma relation_frame:
  "relation_preds (f\<lparr>fTitleContains := a\<rparr>) t = relation_preds f t"
  "relation_preds (f\<lparr>fDescriptionContains := a\<rparr>) t = relation_preds f t"
  "relation_preds (f\<lparr>fNotesContains := a\<rparr>) t = relation_preds f t"
  "relation_preds (f\<lparr>fStatus := b\<rparr>) t = relation_preds f t"
  "relation_preds (f\<lparr>fExcludeStatus := ys\<rparr>) t = relation_preds f t"
  "relation_preds (f\<lparr>fPriority := p\<rparr>) t = relation_preds f t"
  "relation_preds (f\<lparr>fPriorityMin := p\<rparr>) t = relation_preds f t"
  "relation_preds (f\<lparr>fPriorityMax := p\<rparr>) t = relation_preds f t"
  "relation_preds (f\<lparr>fIssueType := b\<rparr>) t = relation_preds f t"
  "relation_preds (f\<lparr>fExcludeTypes := ys\<rparr>) t = relation_preds f t"
  "relation_preds (f\<lparr>fIDs := ys\<rparr>) t = relation_preds f t"
  "relation_preds (f\<lparr>fIDPrefix := a\<rparr>) t = relation_preds f t"
  "relation_preds (f\<lparr>fSpecIDPrefix := a\<rparr>) t = relation_preds f t"
  "relation_preds (f\<lparr>fPinned := y\<rparr>) t = relation_preds f t"
  "relation_preds (f\<lparr>fEphemeral := y\<rparr>) t = relation_preds f t"
  "relation_preds (f\<lparr>fIsTemplate := y\<rparr>) t = relation_preds f t"
  "relation_preds (f\<lparr>fEmptyDescription := c\<rparr>) t = relation_preds f t"
  "relation_preds (f\<lparr>fNoAssignee := c\<rparr>) t = relation_preds f t"
  "relation_preds (f\<lparr>fCreatedAfter := u\<rparr>) t = relation_preds f t"
  "relation_preds (f\<lparr>fUpdatedAfter := u\<rparr>) t = relation_preds f t"
  "relation_preds (f\<lparr>fClosedAfter := u\<rparr>) t = relation_preds f t"
  "relation_preds (f\<lparr>fStartedAfter := u\<rparr>) t = relation_preds f t"
  by (simp_all add: relation_preds_def)

lemma flag_frame:
  "flag_preds (f\<lparr>fTitleContains := a\<rparr>) = flag_preds f"
  "flag_preds (f\<lparr>fDescriptionContains := a\<rparr>) = flag_preds f"
  "flag_preds (f\<lparr>fNotesContains := a\<rparr>) = flag_preds f"
  "flag_preds (f\<lparr>fStatus := b\<rparr>) = flag_preds f"
  "flag_preds (f\<lparr>fExcludeStatus := ys\<rparr>) = flag_preds f"
  "flag_preds (f\<lparr>fPriority := p\<rparr>) = flag_preds f"
  "flag_preds (f\<lparr>fPriorityMin := p\<rparr>) = flag_preds f"
  "flag_preds (f\<lparr>fPriorityMax := p\<rparr>) = flag_preds f"
  "flag_preds (f\<lparr>fIssueType := b\<rparr>) = flag_preds f"
  "flag_preds (f\<lparr>fExcludeTypes := ys\<rparr>) = flag_preds f"
  "flag_preds (f\<lparr>fIDs := ys\<rparr>) = flag_preds f"
  "flag_preds (f\<lparr>fIDPrefix := a\<rparr>) = flag_preds f"
  "flag_preds (f\<lparr>fSpecIDPrefix := a\<rparr>) = flag_preds f"
  "flag_preds (f\<lparr>fNoLabels := c\<rparr>) = flag_preds f"
  "flag_preds (f\<lparr>fCreatedAfter := u\<rparr>) = flag_preds f"
  "flag_preds (f\<lparr>fUpdatedAfter := u\<rparr>) = flag_preds f"
  "flag_preds (f\<lparr>fClosedAfter := u\<rparr>) = flag_preds f"
  "flag_preds (f\<lparr>fStartedAfter := u\<rparr>) = flag_preds f"
  by (simp_all add: flag_preds_def)

lemma time_frame:
  "time_preds n (f\<lparr>fTitleContains := a\<rparr>) = time_preds n f"
  "time_preds n (f\<lparr>fDescriptionContains := a\<rparr>) = time_preds n f"
  "time_preds n (f\<lparr>fNotesContains := a\<rparr>) = time_preds n f"
  "time_preds n (f\<lparr>fStatus := b\<rparr>) = time_preds n f"
  "time_preds n (f\<lparr>fExcludeStatus := ys\<rparr>) = time_preds n f"
  "time_preds n (f\<lparr>fPriority := p\<rparr>) = time_preds n f"
  "time_preds n (f\<lparr>fPriorityMin := p\<rparr>) = time_preds n f"
  "time_preds n (f\<lparr>fPriorityMax := p\<rparr>) = time_preds n f"
  "time_preds n (f\<lparr>fIssueType := b\<rparr>) = time_preds n f"
  "time_preds n (f\<lparr>fExcludeTypes := ys\<rparr>) = time_preds n f"
  "time_preds n (f\<lparr>fIDs := ys\<rparr>) = time_preds n f"
  "time_preds n (f\<lparr>fIDPrefix := a\<rparr>) = time_preds n f"
  "time_preds n (f\<lparr>fSpecIDPrefix := a\<rparr>) = time_preds n f"
  "time_preds n (f\<lparr>fNoLabels := c\<rparr>) = time_preds n f"
  "time_preds n (f\<lparr>fPinned := y\<rparr>) = time_preds n f"
  "time_preds n (f\<lparr>fEphemeral := y\<rparr>) = time_preds n f"
  "time_preds n (f\<lparr>fIsTemplate := y\<rparr>) = time_preds n f"
  "time_preds n (f\<lparr>fEmptyDescription := c\<rparr>) = time_preds n f"
  "time_preds n (f\<lparr>fNoAssignee := c\<rparr>) = time_preds n f"
  unfolding time_preds_def by (simp_all cong: option.case_cong)

lemmas frames = text_frame field_frame relation_frame flag_frame time_frame

text \<open>One lemma per slot: an issue that is found stays found when the new clause holds of it.\<close>

lemma keep_status:
  assumes "no_metadata f" "finds e d now tables l f i"
  shows "Status i = s \<Longrightarrow> finds e d now tables l (f\<lparr>fStatus := Some s\<rparr>) i"
    "Status i \<noteq> s \<Longrightarrow> finds e d now tables l (f\<lparr>fExcludeStatus := fExcludeStatus f @ [s]\<rparr>) i"
  using assms
  by (auto simp: finds_groups no_metadata_def frames field_preds_def ready_cols
      eq_str_row [of "issue_row l i" "''status''" "Status i"] in_args_str [of "issue_row l i" "''status''" "Status i"] simp del: pred_val.simps)

lemma keep_type:
  assumes "no_metadata f" "finds e d now tables l f i"
  shows "IssueType i = s \<Longrightarrow> finds e d now tables l (f\<lparr>fIssueType := Some s\<rparr>) i"
    "IssueType i \<noteq> s \<Longrightarrow> finds e d now tables l (f\<lparr>fExcludeTypes := fExcludeTypes f @ [s]\<rparr>) i"
  using assms
  by (auto simp: finds_groups no_metadata_def frames field_preds_def ready_cols
      eq_str_row [of "issue_row l i" "''issue_type''" "IssueType i"] in_args_str [of "issue_row l i" "''issue_type''" "IssueType i"] simp del: pred_val.simps)

lemma keep_priority:
  assumes "no_metadata f" "finds e d now tables l f i"
  shows "Priority i = p \<Longrightarrow> finds e d now tables l (f\<lparr>fPriority := Some p\<rparr>) i"
    "p \<le> Priority i \<Longrightarrow> finds e d now tables l (f\<lparr>fPriorityMin := Some p\<rparr>) i"
    "Priority i \<le> p \<Longrightarrow> finds e d now tables l (f\<lparr>fPriorityMax := Some p\<rparr>) i"
  using assms by (simp_all add: finds_groups no_metadata_def frames field_preds_def ready_cols ord_op_def)

lemma keep_id:
  assumes "no_metadata f" "finds e d now tables l f i"
  shows "Issue.ID i = v \<Longrightarrow> finds e d now tables l (f\<lparr>fIDs := fIDs f @ [v]\<rparr>) i"
    "like_safe v \<Longrightarrow> has_prefix (Issue.ID i) v \<Longrightarrow> finds e d now tables l (f\<lparr>fIDPrefix := v\<rparr>) i"
    "like_safe v \<Longrightarrow> has_prefix (SpecID i) v \<Longrightarrow> finds e d now tables l (f\<lparr>fSpecIDPrefix := v\<rparr>) i"
  using assms in_args_str [of "issue_row l i" "''id''" "Issue.ID i" e d] like_has_prefix [of v "Issue.ID i"] like_has_prefix [of v "SpecID i"]
  by (auto simp: finds_groups no_metadata_def frames field_preds_def ready_cols text_row)

lemma keep_text:
  assumes "go_engine e" "no_metadata f" "finds e d now tables l f i" "like_safe (to_lower v)" "ascii v"
  shows "contains (to_lower (Title i)) (to_lower v) \<Longrightarrow> finds e d now tables l (f\<lparr>fTitleContains := v\<rparr>) i"
    "contains (to_lower (Description i)) (to_lower v) \<Longrightarrow> finds e d now tables l (f\<lparr>fDescriptionContains := v\<rparr>) i"
    "contains (to_lower (Notes i)) (to_lower v) \<Longrightarrow> finds e d now tables l (f\<lparr>fNotesContains := v\<rparr>) i"
  using assms(2,3) lower_contains_row(1) [of e l i "''title''" "Title i" v d, OF assms(1) text_row(1) assms(4,5)]
    lower_contains_row(1) [of e l i "''description''" "Description i" v d, OF assms(1) text_row(2) assms(4,5)] lower_contains_row(1) [of e l i "''notes''" "Notes i" v d, OF assms(1) text_row(3) assms(4,5)]
  by (simp_all add: finds_groups no_metadata_def frames text_preds_def del: pred_val.simps)

lemma empty_pred_str: "r c = VStr s \<Longrightarrow> pred_val e d r (empty_pred c) = Some True \<longleftrightarrow> s = []"
  by (auto simp: empty_pred_def or3_True lit_str_def ord_op_def)

lemma keep_flag:
  assumes "no_metadata f" "finds e d now tables l f i"
  shows "Pinned i = b \<Longrightarrow> finds e d now tables l (f\<lparr>fPinned := Some b\<rparr>) i"
    "Ephemeral i = b \<Longrightarrow> finds e d now tables l (f\<lparr>fEphemeral := Some b\<rparr>) i"
    "IsTemplate i = b \<Longrightarrow> finds e d now tables l (f\<lparr>fIsTemplate := Some b\<rparr>) i"
    "Assignee i = [] \<Longrightarrow> finds e d now tables l (f\<lparr>fNoAssignee := True\<rparr>) i"
    "Description i = [] \<Longrightarrow> finds e d now tables l (f\<lparr>fEmptyDescription := True\<rparr>) i"
  using assms flag_pred_row [of "issue_row l i" "''pinned''" "Pinned i"] flag_pred_row [of "issue_row l i" "''ephemeral''" "Ephemeral i"]
    flag_pred_row [of "issue_row l i" "''is_template''" "IsTemplate i"] empty_pred_null [of "issue_row l i" "''assignee''" "Assignee i"]
    empty_pred_str [of "issue_row l i" "''description''" "Description i"]
  by (simp_all add: finds_groups no_metadata_def frames flag_preds_def ready_cols text_row del: pred_val.simps)

lemma keep_labels:
  assumes "no_metadata f" "finds e d now tables l f i" "labels_stored d tables i" "Labels i = []"
  shows "finds e d now tables l (f\<lparr>fNoLabels := True\<rparr>) i"
  using assms(1,2) no_labels_row [OF assms(3,4), of e l]
  by (simp add: finds_groups no_metadata_def frames relation_preds_def del: pred_val.simps)

lemma keep_after:
  assumes "go_engine e" "no_metadata f" "finds e d now tables l f i" "printable t"
  shows "After (CreatedAt i) t \<Longrightarrow> finds e d now tables l (f\<lparr>fCreatedAfter := Some t\<rparr>) i"
    "After (UpdatedAt i) t \<Longrightarrow> finds e d now tables l (f\<lparr>fUpdatedAfter := Some t\<rparr>) i"
    "ClosedAt i = Some c \<Longrightarrow> After c t \<Longrightarrow> finds e d now tables l (f\<lparr>fClosedAfter := Some t\<rparr>) i"
    "StartedAt i = Some c \<Longrightarrow> After c t \<Longrightarrow> finds e d now tables l (f\<lparr>fStartedAfter := Some t\<rparr>) i"
  using assms(2,3) time_after_row [of e t l i "''created_at''" "CreatedAt i" d, OF assms(1,4) text_row(7)]
    time_after_row [of e t l i "''updated_at''" "UpdatedAt i" d, OF assms(1,4) text_row(6)]
    time_after_row [OF assms(1,4), of l i "''closed_at''" c d] time_after_row [OF assms(1,4), of l i "''started_at''" c d]
  by (simp_all add: finds_groups no_metadata_def frames time_preds_def time_pred_def text_row time_ptr_def del: pred_val.simps cong: option.case_cong)

section \<open>The filter of a predicate query\<close>

text \<open>
  The comparisons whose filter is no stricter than their predicate. Assignees and labels are compared
  exactly by the filter and without case by the predicate, a bound with equality is strict in the
  filter, and the metadata clauses depend on the engine: those are left out. The texts in a LIKE
  pattern must not have an escape character.
\<close>

definition plain_text :: "string \<Rightarrow> bool" where
  "plain_text v = (ascii v \<and> like_safe (to_lower v))"

definition printable_value :: "nlp_parser \<Rightarrow> Time \<Rightarrow> string \<Rightarrow> TokenType \<Rightarrow> bool" where
  "printable_value nlp now v ty = (case parseTimeValue nlp now v ty of Inl _ \<Rightarrow> True | Inr t \<Rightarrow> printable t)"

definition safe_cmp :: "nlp_parser \<Rightarrow> Time \<Rightarrow> string \<Rightarrow> ComparisonOp \<Rightarrow> string \<Rightarrow> TokenType \<Rightarrow> bool" where
  "safe_cmp nlp now field op v ty =
    (if field \<in> {''assignee'', ''label'', ''labels''} then op \<noteq> OpEquals \<or> is_none v
     else if field \<in> {''title'', ''notes''} then op \<noteq> OpEquals \<or> plain_text v
     else if field \<in> {''description'', ''desc''} then op \<noteq> OpEquals \<or> is_none v \<or> plain_text v
     else if field = ''id'' then op \<noteq> OpEquals \<or> \<not> has_suffix v ''*'' \<or> like_safe (trim_suffix v ''*'')
     else if field \<in> {''spec'', ''spec_id''} then op \<noteq> OpEquals \<or> like_safe (trim_suffix v ''*'')
     else if field \<in> {''created'', ''created_at'', ''updated'', ''updated_at''} 
     then op = OpNotEquals \<or> (op = OpGreater \<and> printable_value nlp now v ty)
     else if field \<in> {''closed'', ''closed_at'', ''started'', ''started_at''} 
     then op = OpNotEquals \<or> op = OpEquals \<or> (op = OpGreater \<and> printable_value nlp now v ty)
     else \<not> has_prefix field ''metadata.'' \<and> field \<noteq> ''has_metadata_key'')"

fun safe_query :: "nlp_parser \<Rightarrow> Time \<Rightarrow> Node \<Rightarrow> bool" where
  "safe_query nlp now (ComparisonNode field op v ty) = safe_cmp nlp now field op v ty"
| "safe_query nlp now (AndNode l r) = (safe_query nlp now l \<and> safe_query nlp now r)"
| "safe_query nlp now _ = True"

text \<open>What a filter step must keep: an issue that was found and satisfies the predicate is still found.\<close>

definition keeps :: "(IssueFilter \<Rightarrow> bool) \<Rightarrow> Issue \<Rightarrow> eval_error + IssueFilter \<Rightarrow> eval_error + issue_pred \<Rightarrow> bool" where
  "keeps found i res pr = (\<forall>f p. res = Inr f \<and> pr = Inr p \<and> p i \<longrightarrow> no_metadata f \<and> found f)"

lemma eq_or_ne_Inr: "eq_or_ne field op q = Inr p \<longleftrightarrow> (op = OpEquals \<and> p = q) \<or> (op = OpNotEquals \<and> p = (\<lambda>i. \<not> q i))"
  by (cases op) (auto simp: eq_or_ne_def)

lemma keeps_status:
  assumes "no_metadata f" "finds e d now tables l f i"
  shows "keeps (\<lambda>f. finds e d now tables l f i) i (applyStatusFilter op v f) (buildStatusPredicate op v)"
  using keep_status [OF assms] assms(1)
  by (auto simp: keeps_def applyStatusFilter_def buildStatusPredicate_def eq_or_ne_Inr Let_def no_metadata_def split: if_splits)

lemma keeps_type:
  assumes "no_metadata f" "finds e d now tables l f i"
  shows "keeps (\<lambda>f. finds e d now tables l f i) i (applyTypeFilter op v f) (buildTypePredicate op v)"
  using keep_type [OF assms] assms(1)
  by (auto simp: keeps_def applyTypeFilter_def buildTypePredicate_def eq_or_ne_Inr no_metadata_def split: if_splits)

lemma keeps_priority:
  assumes "no_metadata f" "finds e d now tables l f i"
  shows "keeps (\<lambda>f. finds e d now tables l f i) i (applyPriorityFilter op v f) (buildPriorityPredicate op v)"
  using keep_priority [OF assms] assms(1)
  by (auto simp: keeps_def applyPriorityFilter_def buildPriorityPredicate_def no_metadata_def
      split: if_splits option.splits ComparisonOp.splits)

lemma keeps_assignee:
  assumes "no_metadata f" "finds e d now tables l f i" "op \<noteq> OpEquals \<or> is_none v"
  shows "keeps (\<lambda>f. finds e d now tables l f i) i (applyAssigneeFilter op v f) (buildAssigneePredicate op v)"
  using keep_flag(4) [OF assms(1,2)] assms(1,3)
  by (auto simp: keeps_def applyAssigneeFilter_def buildAssigneePredicate_def eq_or_ne_Inr no_metadata_def split: if_splits)

lemma keeps_label:
  assumes "no_metadata f" "finds e d now tables l f i" "op \<noteq> OpEquals \<or> is_none v" "labels_stored d tables i"
  shows "keeps (\<lambda>f. finds e d now tables l f i) i (applyLabelFilter op v f) (buildLabelPredicate op v)"
  using keep_labels [OF assms(1,2,4)] assms(1,3)
  by (auto simp: keeps_def applyLabelFilter_def buildLabelPredicate_def eq_or_ne_Inr no_metadata_def split: if_splits)

lemma keeps_title_notes:
  assumes "go_engine e" "no_metadata f" "finds e d now tables l f i" "op \<noteq> OpEquals \<or> plain_text v"
  shows "keeps (\<lambda>f. finds e d now tables l f i) i (applyTitleFilter op v f) (buildTitlePredicate op v)"
    "keeps (\<lambda>f. finds e d now tables l f i) i (applyNotesFilter op v f) (buildNotesPredicate op v)"
  using keep_text [OF assms(1-3), of v] assms(2,4)
  by (auto simp: keeps_def applyTitleFilter_def buildTitlePredicate_def applyNotesFilter_def buildNotesPredicate_def
      eq_or_ne_Inr no_metadata_def plain_text_def split: if_splits)

lemma keeps_description:
  assumes "go_engine e" "no_metadata f" "finds e d now tables l f i" "op \<noteq> OpEquals \<or> is_none v \<or> plain_text v"
  shows "keeps (\<lambda>f. finds e d now tables l f i) i (applyDescriptionFilter op v f) (buildDescriptionPredicate op v)"
  using keep_text(2) [OF assms(1-3), of v] keep_flag(5) [OF assms(2,3)] assms(2,4)
  by (auto simp: keeps_def applyDescriptionFilter_def buildDescriptionPredicate_def
      eq_or_ne_Inr no_metadata_def plain_text_def split: if_splits)

lemma keeps_id:
  assumes "no_metadata f" "finds e d now tables l f i" "op \<noteq> OpEquals \<or> \<not> has_suffix v ''*'' \<or> like_safe (trim_suffix v ''*'')"
  shows "keeps (\<lambda>f. finds e d now tables l f i) i (applyIDFilter op v f) (buildIDPredicate op v)"
  using keep_id(1,2) [OF assms(1,2)] assms(1,3)
  by (auto simp: keeps_def applyIDFilter_def buildIDPredicate_def eq_or_ne_Inr no_metadata_def split: if_splits)

lemma keeps_spec:
  assumes "no_metadata f" "finds e d now tables l f i" "op \<noteq> OpEquals \<or> like_safe (trim_suffix v ''*'')"
  shows "keeps (\<lambda>f. finds e d now tables l f i) i (applySpecFilter op v f) (buildSpecPredicate op v)"
  using keep_id(3) [OF assms(1,2)] assms(1,3)
  by (auto simp: keeps_def applySpecFilter_def buildSpecPredicate_def eq_or_ne_Inr no_metadata_def trim_suffix_def
      split: if_splits)

lemma keeps_created:
  assumes "go_engine e" "no_metadata f" "finds e d now' tables l f i" "op = OpNotEquals \<or> (op = OpGreater \<and> printable_value nlp now v ty)"
  shows "keeps (\<lambda>f. finds e d now' tables l f i) i (applyCreatedFilter nlp now op v ty f) (buildCreatedPredicate nlp now op v ty)"
    "keeps (\<lambda>f. finds e d now' tables l f i) i (applyUpdatedFilter nlp now op v ty f) (buildUpdatedPredicate nlp now op v ty)"
  using keep_after(1,2) [OF assms(1-3)] assms(2,4)
  by (auto simp: keeps_def applyCreatedFilter_def buildCreatedPredicate_def applyUpdatedFilter_def buildUpdatedPredicate_def
      buildTimePredicate_def compareTime_def no_metadata_def printable_value_def split: sum.splits)

lemma keeps_closed:
  assumes "go_engine e" "no_metadata f" "finds e d now' tables l f i" "op = OpNotEquals \<or> op = OpEquals \<or> (op = OpGreater \<and> printable_value nlp now v ty)"
  shows "keeps (\<lambda>f. finds e d now' tables l f i) i (applyClosedFilter nlp now op v ty f) (buildClosedPredicate nlp now op v ty)"
    "keeps (\<lambda>f. finds e d now' tables l f i) i (applyStartedFilter nlp now op v ty f) (buildStartedPredicate nlp now op v ty)"
  using keep_after(3,4) [OF assms(1-3)] assms(2,4)
  by (auto simp: keeps_def applyClosedFilter_def buildClosedPredicate_def applyStartedFilter_def buildStartedPredicate_def
      compareTime_def no_metadata_def printable_value_def split: sum.splits option.splits)

lemma keeps_bool:
  assumes "no_metadata f" "finds e d now tables l f i"
  shows "keeps (\<lambda>f. finds e d now tables l f i) i (applyBoolFilter op v f ''pinned'') (buildBoolPredicate op v ''pinned'' Pinned)"
    "keeps (\<lambda>f. finds e d now tables l f i) i (applyBoolFilter op v f ''ephemeral'') (buildBoolPredicate op v ''ephemeral'' Ephemeral)"
    "keeps (\<lambda>f. finds e d now tables l f i) i (applyBoolFilter op v f ''template'') (buildBoolPredicate op v ''template'' IsTemplate)"
  using keep_flag(1-3) [OF assms] assms(1)
  by (auto simp: keeps_def applyBoolFilter_def buildBoolPredicate_def eq_or_ne_Inr no_metadata_def split: if_splits option.splits)

lemma keeps_if:
  "(c \<Longrightarrow> keeps F i a p) \<Longrightarrow> (\<not> c \<Longrightarrow> keeps F i b q) \<Longrightarrow> keeps F i (if c then a else b) (if c then p else q)"
  by simp

lemma keeps_Inl [simp]: "keeps F i (Inl x) p" "keeps F i a (Inl y)"
  by (simp_all add: keeps_def)

lemma keeps_comparison:
  assumes "go_engine e" "labels_stored d tables i" "no_metadata f" "finds e d now' tables l f i" "safe_cmp nlp now field op v ty"
  shows "keeps (\<lambda>f. finds e d now' tables l f i) i (applyComparison nlp now field op v ty f) (buildComparisonPredicate nlp now field op v ty)"
  using assms(5) unfolding applyComparison_def buildComparisonPredicate_def safe_cmp_def
  apply (intro keeps_if)
  subgoal by (rule keeps_status [OF assms(3,4)])
  subgoal by (rule keeps_priority [OF assms(3,4)])
  subgoal by (rule keeps_type [OF assms(3,4)])
  subgoal by (rule keeps_assignee [OF assms(3,4)]) simp
  subgoal by (simp add: applyOwnerFilter_def)
  subgoal by (rule keeps_label [OF assms(3,4) _ assms(2)]) (auto split: if_splits)
  subgoal by (rule keeps_title_notes [OF assms(1,3,4)]) simp
  subgoal by (rule keeps_description [OF assms(1,3,4)]) (auto split: if_splits)
  subgoal by (rule keeps_title_notes [OF assms(1,3,4)]) simp
  subgoal by (rule keeps_created [OF assms(1,3,4)]) (auto split: if_splits)
  subgoal by (rule keeps_created [OF assms(1,3,4)]) (auto split: if_splits)
  subgoal by (rule keeps_closed [OF assms(1,3,4)]) (auto split: if_splits)
  subgoal by (rule keeps_closed [OF assms(1,3,4)]) (auto split: if_splits)
  subgoal by (rule keeps_id [OF assms(3,4)]) simp
  subgoal by (rule keeps_spec [OF assms(3,4)]) (auto split: if_splits)
  subgoal by (cases "field = ''pinned''"; cases "field = ''ephemeral''"; cases "field = ''template''") (simp_all add: keeps_bool assms(3,4))
  done

lemma keeps_not:
  assumes "no_metadata f" "finds e d now' tables l f i"
  shows "keeps (\<lambda>f. finds e d now' tables l f i) i (applyNot n f) (buildPredicate nlp now (NotNode n))"
proof (cases n)
  case (ComparisonNode field op v ty)
  then show ?thesis
    using keep_status(2) [OF assms] keep_type(2) [OF assms] assms(1)
    by (auto simp: keeps_def applyNot_def buildComparisonPredicate_def buildStatusPredicate_def buildTypePredicate_def
        eq_or_ne_def no_metadata_def split: if_splits)
qed (auto simp: keeps_def applyNot_def)

lemma extract_keeps:
  assumes "go_engine e" "labels_stored d tables i"
  shows "safe_query nlp now n \<Longrightarrow> no_metadata f \<Longrightarrow> finds e d now' tables l f i \<Longrightarrow> buildPredicate nlp now n = Inr p \<Longrightarrow> p i
    \<Longrightarrow> no_metadata (extractBaseFilters nlp now n f) \<and> finds e d now' tables l (extractBaseFilters nlp now n f) i"
proof (induction n arbitrary: f p)
  case (ComparisonNode field op v ty)
  then show ?case
    using keeps_comparison [OF assms, of f now' l nlp now field op v ty] by (auto simp: keeps_def split: sum.splits)
next
  case (AndNode m n)
  from AndNode.prems(4,5) obtain q r where "buildPredicate nlp now m = Inr q" "q i" "buildPredicate nlp now n = Inr r" "r i"
    by (auto split: sum.splits)
  then show ?case using AndNode by simp
next
  case (NotNode n)
  then show ?case
    using keeps_not [of f e d now' tables l i n nlp now] by (auto simp: keeps_def split: sum.splits)
qed simp

lemma finds_zero: "finds e d now tables l IssueFilter_zero i" "no_metadata IssueFilter_zero"
  by (simp_all add: no_metadata_def IssueFilter_zero_def finds_groups text_preds_def field_preds_def relation_preds_def
      flag_preds_def time_preds_def time_pred_def LabelSetClauses_def)

text \<open>
  C1: a predicate query loses nothing to its filter. When the evaluator answers a query of safe
  comparisons with a predicate, every issue that satisfies the predicate is found by the filter that
  narrows the candidates; so filtering the rows found by the filter gives exactly the issues that
  satisfy the predicate.
\<close>

theorem prefilter_sound:
  assumes "go_engine e" "labels_stored d tables i" "safe_query nlp now n"
    and "Evaluator_Evaluate nlp now n = Inr r" "qPredicate r = Some p"
  shows "p i \<longleftrightarrow> finds e d now' tables l (qFilter r) i \<and> p i"
proof -
  have "buildPredicate nlp now n = Inr p" "qFilter r = extractBaseFilters nlp now n IssueFilter_zero"
    using assms(4,5) by (auto simp: Evaluator_Evaluate_def split: if_splits sum.splits)
  then show ?thesis
    using extract_keeps [OF assms(1,2,3) finds_zero(2,1)] by auto
qed

definition rfc_engine :: engine where
  "rfc_engine = example_engine\<lparr>e_time := \<lambda>s. map_option unix_nano (ParseInLocation layout_rfc3339 s 0)\<rparr>"

lemma go_engine_rfc: "go_engine rfc_engine"
  by (simp add: go_engine_def rfc_engine_def example_engine_def parse_format_rfc3339)

definition example_query :: Node where
  "example_query =
    AndNode (ComparisonNode ''status'' OpEquals ''OPEN'' TokenIdent)
      (OrNode (ComparisonNode ''priority'' OpLess ''2'' TokenNumber) (ComparisonNode ''type'' OpEquals ''bug'' TokenIdent))"

theorem prefilter_sound_witness:
  "let i = Issue_zero\<lparr>ID := ''bd-1'', Status := StatusOpen, Priority := 4, IssueType := TypeBug\<rparr> in
   finds rfc_engine (\<lambda>_. []) Time_zero IssuesFilterTables 0 (IssueFilter_zero\<lparr>fStatus := Some StatusOpen\<rparr>) i"
proof -
  let ?i = "Issue_zero\<lparr>ID := ''bd-1'', Status := StatusOpen, Priority := 4, IssueType := TypeBug\<rparr>"
  let ?p = "\<lambda>i. Status i = StatusOpen \<and> (Priority i < 2 \<or> IssueType i = TypeBug)"
  have low: "to_lower ''OPEN'' = StatusOpen" "to_lower ''bug'' = TypeBug"
    by (simp_all add: to_lower_ascii byte_lower_def char_of_def bit_0)
  have num: "parse_int ''2'' = Some 2" by code_simp
  have "Evaluator_Evaluate (\<lambda>_ _. Inl []) Time_zero example_query
    = Inr \<lparr>qFilter = IssueFilter_zero\<lparr>fStatus := Some StatusOpen\<rparr>, qPredicate = Some ?p, RequiresPredicate = True\<rparr>"
    by (simp add: Evaluator_Evaluate_def example_query_def canUseLabelsAnyOptimization_def buildComparisonPredicate_def
        applyComparison_def applyStatusFilter_def buildStatusPredicate_def buildPriorityPredicate_def buildTypePredicate_def
        eq_or_ne_def low num Status_IsValid_def AllStatuses_def Let_def)
  moreover have "safe_query (\<lambda>_ _. Inl []) Time_zero example_query" by (simp add: example_query_def safe_cmp_def)
  moreover have "labels_stored (\<lambda>_. []) IssuesFilterTables ?i" by (simp add: labels_stored_def Issue_zero_def)
  ultimately show ?thesis
    using prefilter_sound [OF go_engine_rfc, of "\<lambda>_. []" IssuesFilterTables ?i] by fastforce
qed

section \<open>Two bounds on the same field\<close>

text \<open>
  C39: a repeated bound replaces the first one. A conjunction of two lower bounds on the priority is
  answered by a filter alone, and that filter keeps only the second bound: the query finds every
  issue from the weaker bound on, while the predicate of the same query asks for the stronger one.
\<close>

theorem repeated_bound_last_wins:
  assumes "q \<le> p" "p \<le> 4"
    and "n = AndNode (ComparisonNode ''priority'' OpGreaterEq (nat_to_string p) TokenNumber)
                     (ComparisonNode ''priority'' OpGreaterEq (nat_to_string q) TokenNumber)"
  shows "\<exists>r P. Evaluator_Evaluate nlp now n = Inr r \<and> qPredicate r = None \<and> PredicateNodeAt nlp n now = Inr P
    \<and> (\<forall>e d tables l i. (finds e d now tables l (qFilter r) i \<longleftrightarrow> int q \<le> Priority i) \<and> (P i \<longleftrightarrow> int p \<le> Priority i))"
proof -
  have num: "parse_int (nat_to_string p) = Some (int p)" "parse_int (nat_to_string q) = Some (int q)"
    using parse_int_to_string [of "int p"] parse_int_to_string [of "int q"] assms(1,2)
    by (simp_all add: int_to_string_def int64_range_def min_int64_def max_int64_def)
  let ?f = "IssueFilter_zero\<lparr>fPriorityMin := Some (int q)\<rparr>"
  have "Evaluator_Evaluate nlp now n = Inr \<lparr>qFilter = ?f, qPredicate = None, RequiresPredicate = False\<rparr>"
    using assms by (simp add: Evaluator_Evaluate_def applyComparison_def applyPriorityFilter_def num)
  moreover have "PredicateNodeAt nlp n now = Inr (\<lambda>i. int p \<le> Priority i \<and> int q \<le> Priority i)"
    using assms by (simp add: PredicateNodeAt_def buildComparisonPredicate_def buildPriorityPredicate_def num)
  moreover have "finds e d now tables l ?f i \<longleftrightarrow> int q \<le> Priority i" for e d tables l i
    using finds_zero(1) [of e d now tables l i] finds_zero(2)
    by (simp add: finds_groups no_metadata_def frames) (simp add: field_preds_def IssueFilter_zero_def ready_cols ord_op_def)
  ultimately show ?thesis using assms(1) by (intro exI conjI allI) auto
qed

theorem repeated_bound_last_wins_witness:
  "\<exists>r P. Evaluator_Evaluate (\<lambda>_ _. Inl []) Time_zero
        (AndNode (ComparisonNode ''priority'' OpGreaterEq (nat_to_string 3) TokenNumber)
                 (ComparisonNode ''priority'' OpGreaterEq (nat_to_string 1) TokenNumber)) = Inr r \<and> qPredicate r = None
     \<and> PredicateNodeAt (\<lambda>_ _. Inl []) (AndNode (ComparisonNode ''priority'' OpGreaterEq (nat_to_string 3) TokenNumber)
                 (ComparisonNode ''priority'' OpGreaterEq (nat_to_string 1) TokenNumber)) Time_zero = Inr P
     \<and> finds example_engine (\<lambda>_. []) Time_zero IssuesFilterTables 0 (qFilter r) (Issue_zero\<lparr>Priority := 2\<rparr>) \<and> \<not> P (Issue_zero\<lparr>Priority := 2\<rparr>)"
  using repeated_bound_last_wins [OF _ _ refl, of 1 3 "\<lambda>_ _. Inl []" Time_zero] by fastforce

end
