(* ===== verification/GoUtf8.thy ===== *)
theory GoUtf8
  imports BeadsPrelude
begin

text \<open>
  Valid UTF-8 as Go's \<open>unicode/utf8\<close> has it: \<open>utf8.Valid\<close> accepts exactly the concatenations of the
  encodings of scalar values, so a valid string is determined by its runes.
\<close>

definition utf8_Valid :: "string \<Rightarrow> bool" where
  [go_defs]: "utf8_Valid s = list_all (\<lambda>(r, bs). \<not> (r = rune_error \<and> length bs = 1)) (rune_chunks s)"

definition runes :: "string \<Rightarrow> nat list" where
  [go_defs]: "runes s = map fst (rune_chunks s)"

lemma code_lt_256 [simp]: "code c < 256"
  by (cases c) (simp add: of_char_def horner_sum_simps)

lemma char_of_eqI: "n = code c \<Longrightarrow> char_of n = c"
  by simp

lemma div_plus_small: "y < k \<Longrightarrow> (x * k + y) div k = (x::nat)"
  by simp

lemma mod_plus_small: "y < k \<Longrightarrow> (x * k + y) mod k = (y::nat)"
  by simp

lemma encode_rune2:
  assumes "194 \<le> code a" "code a \<le> 223" "cont_byte b"
  shows "encode_rune ((code a - 192) * 64 + (code b - 128)) = [a, b]"
proof -
  define x y where "x = code a - 192" and "y = code b - 128"
  have "2 \<le> x" "x \<le> 31" "y < 64" and c: "192 + x = code a" "128 + y = code b"
    using assms by (auto simp: x_def y_def cont_byte_def)
  then have "(x * 64 + y) div 64 = x" "(x * 64 + y) mod 64 = y" "\<not> x * 64 + y < 128" "x * 64 + y < 2048" by auto
  then show ?thesis unfolding encode_rune_def x_def [symmetric] y_def [symmetric] by (simp add: c)
qed

lemma encode_rune3:
  assumes "224 \<le> code a" "code a \<le> 239" "code a = 224 \<longrightarrow> 160 \<le> code b" "128 \<le> code b" "code b \<le> 191" "cont_byte c"
  shows "encode_rune ((code a - 224) * 4096 + (code b - 128) * 64 + (code c - 128)) = [a, b, c]"
proof -
  define x y z where "x = code a - 224" and "y = code b - 128" and "z = code c - 128"
  have l: "x \<le> 15" "y < 64" "z < 64" "x = 0 \<longrightarrow> 32 \<le> y" and c: "224 + x = code a" "128 + y = code b" "128 + z = code c"
    using assms by (auto simp: x_def y_def z_def cont_byte_def)
  let ?r = "x * 4096 + y * 64 + z"
  have r: "?r = (x * 64 + y) * 64 + z" by simp
  have d: "?r div 64 = x * 64 + y" unfolding r by (rule div_plus_small) (rule l)
  have "?r div 4096 = ?r div 64 div 64" by (simp add: div_mult2_eq [symmetric])
  then have "?r div 4096 = x" unfolding d using l(2) by simp
  moreover have "?r div 64 mod 64 = y" unfolding d using l(2) by (rule mod_plus_small)
  moreover have "?r mod 64 = z" unfolding r using l(3) by (rule mod_plus_small)
  moreover have "\<not> ?r < 2048" "?r < 65536" using l by (cases "x = 0"; auto)+
  ultimately show ?thesis unfolding encode_rune_def x_def [symmetric] y_def [symmetric] z_def [symmetric] by (simp add: c)
qed

lemma encode_rune4:
  assumes "240 \<le> code a" "code a \<le> 244" "code a = 240 \<longrightarrow> 144 \<le> code b" "128 \<le> code b" "code b \<le> 191" "cont_byte c" "cont_byte d"
  shows "encode_rune ((code a - 240) * 262144 + (code b - 128) * 4096 + (code c - 128) * 64 + (code d - 128)) = [a, b, c, d]"
proof -
  define w x y z where "w = code a - 240" and "x = code b - 128" and "y = code c - 128" and "z = code d - 128"
  have l: "w \<le> 4" "x < 64" "y < 64" "z < 64" "w = 0 \<longrightarrow> 16 \<le> x"
    and c: "240 + w = code a" "128 + x = code b" "128 + y = code c" "128 + z = code d"
    using assms by (auto simp: w_def x_def y_def z_def cont_byte_def)
  let ?r = "w * 262144 + x * 4096 + y * 64 + z"
  have r: "?r = ((w * 64 + x) * 64 + y) * 64 + z" by simp
  have d: "?r div 64 = (w * 64 + x) * 64 + y" unfolding r by (rule div_plus_small) (rule l)
  have "?r div 4096 = ?r div 64 div 64" by (simp add: div_mult2_eq [symmetric])
  then have e: "?r div 4096 = w * 64 + x" unfolding d using l(3) by simp
  have "?r div 262144 = ?r div 4096 div 64" by (simp add: div_mult2_eq [symmetric])
  then have "?r div 262144 = w" unfolding e using l(2) by simp
  moreover have "?r div 4096 mod 64 = x" unfolding e using l(2) by (rule mod_plus_small)
  moreover have "?r div 64 mod 64 = y" unfolding d using l(3) by (rule mod_plus_small)
  moreover have "?r mod 64 = z" unfolding r using l(4) by (rule mod_plus_small)
  moreover have "\<not> ?r < 65536" using l by (cases "w = 0"; auto)
  ultimately show ?thesis
    unfolding encode_rune_def w_def [symmetric] x_def [symmetric] y_def [symmetric] z_def [symmetric] by (simp add: c)
qed

text \<open>A rune that decodes without an error is spelled as the encoder spells it.\<close>

lemma encode_decode:
  assumes "decode_rune s = (r, w)" "s \<noteq> []" "\<not> (r = rune_error \<and> w = 1)"
  shows "encode_rune r = take w s \<and> w = length (encode_rune r)"
proof -
  obtain a t where s: "s = a # t" using assms(2) by (cases s) auto
  consider (ascii) "code a < 128" | (two) b u where "t = b # u" "194 \<le> code a" "code a \<le> 223" "cont_byte b"
      "r = (code a - 192) * 64 + (code b - 128)" "w = 2"
    | (three) b c u where "t = b # c # u" "224 \<le> code a" "code a \<le> 239" "code a = 224 \<longrightarrow> 160 \<le> code b" "128 \<le> code b"
      "code b \<le> 191" "cont_byte c" "r = (code a - 224) * 4096 + (code b - 128) * 64 + (code c - 128)" "w = 3"
    | (four) b c d u where "t = b # c # d # u" "240 \<le> code a" "code a \<le> 244" "code a = 240 \<longrightarrow> 144 \<le> code b" "128 \<le> code b"
      "code b \<le> 191" "cont_byte c" "cont_byte d"
      "r = (code a - 240) * 262144 + (code b - 128) * 4096 + (code c - 128) * 64 + (code d - 128)" "w = 4"
    using assms s by (auto simp: decode_rune.simps split: if_splits list.splits)
  then show ?thesis
  proof cases
    case ascii
    then show ?thesis using assms s by (auto simp: encode_rune_def)
  next
    case two
    then show ?thesis using encode_rune2 [of a b] s by simp
  next
    case three
    then show ?thesis using encode_rune3 [of a b c] s by simp
  next
    case four
    then show ?thesis using encode_rune4 [of a b c d] s by simp
  qed
qed

lemma decode_width: "s \<noteq> [] \<Longrightarrow> decode_rune s = (r, w) \<Longrightarrow> 0 < w \<and> w \<le> length s"
  by (cases s) (auto simp: decode_rune.simps split: if_splits list.splits)

lemma rune_chunks_decode:
  assumes "decode_rune (a # s) = (r, w)"
  shows "rune_chunks (a # s) = (r, take w (a # s)) # rune_chunks (drop w (a # s))"
proof -
  have "0 < w" using decode_width assms by blast
  then show ?thesis using assms by (cases w) simp_all
qed

lemma chunk_encode:
  "\<lbrakk>(r, bs) \<in> set (rune_chunks s); \<not> (r = rune_error \<and> length bs = 1)\<rbrakk> \<Longrightarrow> bs = encode_rune r"
proof (induction s rule: rune_chunks.induct)
  case (2 a s)
  obtain r' w where d: "decode_rune (a # s) = (r', w)" by (cases "decode_rune (a # s)")
  note w = decode_width [OF list.distinct(2) d]
  then have l: "length (take w (a # s)) = w" by (simp only: length_take min_absorb2)
  have e: "drop w (a # s) = drop (w - 1) s" using w by (cases w) simp_all
  show ?case
  proof (cases "(r, bs) = (r', take w (a # s))")
    case True
    then have rb: "r = r'" "bs = take w (a # s)" by blast+
    then have "\<not> (r' = rune_error \<and> w = 1)" using "2.prems"(2) unfolding rb l by blast
    then show ?thesis unfolding rb by (rule encode_decode [OF d list.distinct(2), THEN conjunct1, symmetric])
  next
    case False
    then have "(r, bs) \<in> set (rune_chunks (drop (w - 1) s))"
      using "2.prems"(1) unfolding rune_chunks_decode [OF d] e list.set(2) by blast
    then show ?thesis by (rule "2.IH" [OF d [symmetric] refl _ "2.prems"(2)])
  qed
qed simp

text \<open>The valid strings are the concatenations of encoded scalar values.\<close>

lemma utf8_Valid_runes: "utf8_Valid s \<Longrightarrow> s = concat (map encode_rune (runes s))"
proof -
  assume v: "utf8_Valid s"
  have "map snd (rune_chunks s) = map (encode_rune \<circ> fst) (rune_chunks s)"
    using v chunk_encode by (fastforce simp: utf8_Valid_def list_all_iff)
  then show ?thesis by (metis concat_rune_chunks runes_def map_map)
qed

lemma runes_valid: "list_all valid_rune (runes s)"
  by (auto simp: runes_def list_all_iff rune_chunks_valid)

lemma encode_rune_ne [simp]: "encode_rune r \<noteq> []"
  by (simp add: encode_rune_def)

lemma utf8_Valid_encode_append [simp]: "valid_rune r \<Longrightarrow> utf8_Valid (encode_rune r @ s) = utf8_Valid s"
proof -
  assume "valid_rune r"
  moreover have "\<not> (r = rune_error \<and> length (encode_rune r) = 1)" by (simp add: rune_error_def encode_rune_def)
  ultimately show ?thesis by (simp add: utf8_Valid_def rune_chunks_encode)
qed

lemma utf8_Valid_Nil [simp]: "utf8_Valid []"
  by (simp add: utf8_Valid_def)

lemma utf8_Valid_concat: "list_all valid_rune rs \<Longrightarrow> utf8_Valid (concat (map encode_rune rs))"
  by (induction rs) auto

lemma utf8_Valid_iff: "utf8_Valid s \<longleftrightarrow> (\<exists>rs. list_all valid_rune rs \<and> s = concat (map encode_rune rs))"
  using utf8_Valid_runes utf8_Valid_concat runes_valid by metis

lemma utf8_Valid_append: "\<lbrakk>utf8_Valid s; utf8_Valid t\<rbrakk> \<Longrightarrow> utf8_Valid (s @ t)"
  unfolding utf8_Valid_iff by (metis list_all_append map_append concat_append)

lemma utf8_Valid_ascii_Cons [simp]: "code c < 128 \<Longrightarrow> utf8_Valid (c # s) = utf8_Valid s"
  using utf8_Valid_encode_append [of "code c" s] by (simp add: encode_rune_def valid_rune_def)

lemma utf8_Valid_encode [simp]: "valid_rune r \<Longrightarrow> utf8_Valid (encode_rune r)"
  using utf8_Valid_encode_append [of r "[]"] by simp

lemma runes_Nil [simp]: "runes [] = []"
  by (simp add: runes_def)

lemma runes_Nil_iff [simp]: "runes s = [] \<longleftrightarrow> s = []"
  by (cases s) (auto simp: runes_def split: prod.splits)

lemma runes_concat: "list_all valid_rune rs \<Longrightarrow> runes (concat (map encode_rune rs)) = rs"
  by (simp add: runes_def runes_encode)

lemma runes_inject: "\<lbrakk>utf8_Valid s; utf8_Valid t\<rbrakk> \<Longrightarrow> runes s = runes t \<longleftrightarrow> s = t"
  by (metis utf8_Valid_runes)

lemma runes_decode: "s \<noteq> [] \<Longrightarrow> runes s = fst (decode_rune s) # runes (drop (snd (decode_rune s)) s)"
proof -
  assume s: "s \<noteq> []"
  obtain r w where d: "decode_rune s = (r, w)" by (cases "decode_rune s")
  then have "0 < w" using decode_width s by blast
  then show ?thesis using s d by (cases s; cases w) (simp_all add: runes_def)
qed

end
