(* ===== verification/CodeUnits.thy ===== *)
theory CodeUnits
  imports GoUtf8 "HOL-Library.Word"
begin

text \<open>
  The code-unit order of \<open>graphops/laws.go\<close>: the baseline order of the graph protocol and the order of
  object members in canonical JSON. The packed comparison of the code is the lexicographic comparison of
  UTF-16 code units, and a linear order on valid UTF-8.
\<close>

unbundle bit_operations_syntax

definition codeUnitKey :: "nat \<Rightarrow> 32 word" where
  "codeUnitKey r =
    (if r < 0x10000 then push_bit 16 (of_nat r)
     else let r' = r - 0x10000 in
       push_bit 16 (0xD800 + of_nat (drop_bit 10 r')) OR (0xDC00 + of_nat (r' AND 0x3FF)))"

function CompareCodeUnits :: "string \<Rightarrow> string \<Rightarrow> int" where
  "CompareCodeUnits a b =
    (if a \<noteq> [] \<and> b \<noteq> [] then
       let (ra, na) = decode_rune a; (rb, nb) = decode_rune b in
       if ra \<noteq> rb then (if codeUnitKey ra < codeUnitKey rb then -1 else 1)
       else CompareCodeUnits (drop na a) (drop nb b)
     else if a = [] \<and> b = [] then 0
     else if a = [] then -1
     else 1)"
  by pat_completeness auto
termination
proof (relation "measure (\<lambda>(a, b). length a)", goal_cases)
  case (2 a b x ra na y rb nb)
  then have "0 < na" using decode_width [of a ra na] by simp
  then show ?case using 2 by simp
qed simp

declare CompareCodeUnits.simps [simp del]

section \<open>UTF-16\<close>

definition utf16 :: "nat \<Rightarrow> nat list" where
  "utf16 r =
    (if r < 0x10000 then [r]
     else [0xD800 + (r - 0x10000) div 0x400, 0xDC00 + (r - 0x10000) mod 0x400])"

definition code_units :: "string \<Rightarrow> nat list" where
  "code_units s = concat (map utf16 (runes s))"

fun lex_cmp :: "'a :: linorder list \<Rightarrow> 'a list \<Rightarrow> int" where
  "lex_cmp [] [] = 0"
| "lex_cmp [] (y # ys) = -1"
| "lex_cmp (x # xs) [] = 1"
| "lex_cmp (x # xs) (y # ys) = (if x < y then -1 else if y < x then 1 else lex_cmp xs ys)"

lemma unat_of_nat_32: "n < 4294967296 \<Longrightarrow> unat (word_of_nat n :: 32 word) = n"
  by (simp add: unat_of_nat take_bit_eq_mod)

lemma unat_push16: "n < 65536 \<Longrightarrow> unat (push_bit 16 (word_of_nat n) :: 32 word) = n * 65536"
proof -
  assume n: "n < 65536"
  have "push_bit 16 (word_of_nat n) = (word_of_nat (n * 65536) :: 32 word)"
    by (simp add: push_bit_eq_mult mult.commute)
  then show ?thesis using n by (simp add: unat_of_nat_32 del: of_nat_mult)
qed

lemma or_low16: "m < 65536 \<Longrightarrow> push_bit 16 w OR word_of_nat m = push_bit 16 w + (word_of_nat m :: 32 word)"
proof -
  assume m: "m < 65536"
  have "\<not> bit (push_bit 16 w) n \<or> \<not> bit (word_of_nat m :: 32 word) n" for n
  proof (cases "n < 16")
    case False
    then have "(2::nat) ^ 16 \<le> 2 ^ n" by (intro power_increasing) simp_all
    then have "m < 2 ^ n" using m by simp
    then show ?thesis by (simp add: bit_of_nat_iff bit_iff_odd [of m])
  qed (simp add: bit_push_bit_iff)
  then show ?thesis by (metis disjunctive_add)
qed

lemma unat_key:
  assumes "valid_rune r"
  shows "unat (codeUnitKey r) =
    (if r < 0x10000 then r * 65536 else (0xD800 + (r - 0x10000) div 0x400) * 65536 + (0xDC00 + (r - 0x10000) mod 0x400))"
proof (cases "r < 0x10000")
  case True
  then show ?thesis by (simp add: codeUnitKey_def unat_push16)
next
  case False
  define h l where "h = 0xD800 + (r - 0x10000) div 0x400" and "l = 0xDC00 + (r - 0x10000) mod 0x400"
  have "r - 0x10000 < 0x100000" using assms by (auto simp: valid_rune_def)
  then have "(r - 0x10000) div 0x400 < 0x400" by (simp add: less_mult_imp_div_less)
  moreover have "(r - 0x10000) mod 0x400 < 0x400" by simp
  ultimately have h: "h < 56320" and l: "l < 57344" by (simp_all add: h_def l_def)
  have "(r - 0x10000) AND 0x3FF = (r - 0x10000) mod 0x400"
    using take_bit_eq_mask [of 10 "r - 0x10000"] by (simp add: take_bit_eq_mod mask_eq_exp_minus_1)
  then have "codeUnitKey r = push_bit 16 (word_of_nat h) OR word_of_nat l"
    using False by (simp add: codeUnitKey_def h_def l_def drop_bit_eq_div Let_def)
  also have "\<dots> = push_bit 16 (word_of_nat h) + word_of_nat l" using l by (simp add: or_low16)
  also have "\<dots> = word_of_nat (h * 65536 + l)" by (simp add: push_bit_eq_mult mult.commute)
  finally have "unat (codeUnitKey r) = h * 65536 + l" using h l by (simp add: unat_of_nat_32 del: of_nat_mult of_nat_add)
  then show ?thesis using False by (simp add: h_def l_def)
qed

text \<open>The packed key of a rune orders it as its code units do; one rune's units never start another's.\<close>

lemma lead_trail:
  assumes "valid_rune r" "\<not> r < 0x10000"
  obtains h l where "utf16 r = [h, l]" "unat (codeUnitKey r) = h * 65536 + l" "0xD800 \<le> h" "h < 0xDC00" "l < 0xE000"
    "r = (h - 0xD800) * 0x400 + (l - 0xDC00) + 0x10000"
proof -
  let ?h = "0xD800 + (r - 0x10000) div 0x400" and ?l = "0xDC00 + (r - 0x10000) mod 0x400"
  have "r - 0x10000 < 0x100000" using assms by (auto simp: valid_rune_def)
  then have "(r - 0x10000) div 0x400 < 0x400" by (simp add: less_mult_imp_div_less)
  moreover have "(r - 0x10000) mod 0x400 < 0x400" by simp
  moreover have "(r - 0x10000) div 0x400 * 0x400 + (r - 0x10000) mod 0x400 + 0x10000 = r" using assms by simp
  ultimately show ?thesis using that [of ?h ?l] assms by (simp add: utf16_def unat_key)
qed

lemma key_cmp:
  assumes v: "valid_rune r" "valid_rune q" and ne: "r \<noteq> q"
  shows "lex_cmp (utf16 r @ xs) (utf16 q @ ys) = (if codeUnitKey r < codeUnitKey q then -1 else 1)"
proof -
  consider (bb) "r < 0x10000" "q < 0x10000" | (bs) "r < 0x10000" "\<not> q < 0x10000"
    | (sb) "\<not> r < 0x10000" "q < 0x10000" | (ss) "\<not> r < 0x10000" "\<not> q < 0x10000" by blast
  then show ?thesis
  proof cases
    case bb
    then show ?thesis using v ne by (simp add: utf16_def word_less_nat_alt unat_key)
  next
    case bs
    from lead_trail [OF v(2) bs(2)] obtain h l where
      "utf16 q = [h, l]" "unat (codeUnitKey q) = h * 65536 + l" "0xD800 \<le> h" "h < 0xDC00" "l < 0xE000" by metis
    then show ?thesis using v bs by (auto simp: utf16_def [of r] word_less_nat_alt unat_key [of r] valid_rune_def)
  next
    case sb
    from lead_trail [OF v(1) sb(1)] obtain h l where
      "utf16 r = [h, l]" "unat (codeUnitKey r) = h * 65536 + l" "0xD800 \<le> h" "h < 0xDC00" "l < 0xE000" by metis
    then show ?thesis using v sb by (auto simp: utf16_def [of q] word_less_nat_alt unat_key [of q] valid_rune_def)
  next
    case ss
    from lead_trail [OF v(1) ss(1)] obtain h l where
      r: "utf16 r = [h, l]" "unat (codeUnitKey r) = h * 65536 + l" "l < 0xE000"
        "r = (h - 0xD800) * 0x400 + (l - 0xDC00) + 0x10000" by metis
    from lead_trail [OF v(2) ss(2)] obtain h' l' where
      q: "utf16 q = [h', l']" "unat (codeUnitKey q) = h' * 65536 + l'" "l' < 0xE000"
        "q = (h' - 0xD800) * 0x400 + (l' - 0xDC00) + 0x10000" by metis
    have "(h, l) \<noteq> (h', l')" using ne r(4) q(4) by auto
    then show ?thesis using r(3) q(3) by (auto simp: r(1,2) q(1,2) word_less_nat_alt)
  qed
qed

lemma lex_cmp_append [simp]: "lex_cmp (us @ xs) (us @ ys) = lex_cmp xs ys"
  by (induction us) auto

lemma lex_cmp_Nil: "xs \<noteq> [] \<Longrightarrow> lex_cmp xs [] = 1" "xs \<noteq> [] \<Longrightarrow> lex_cmp [] xs = -1"
  by (cases xs; simp)+

lemma code_units_Nil [simp]: "code_units [] = []" "code_units s = [] \<longleftrightarrow> s = []"
proof -
  have "utf16 r \<noteq> []" for r by (simp add: utf16_def)
  then show "code_units s = [] \<longleftrightarrow> s = []" by (cases "runes s") (auto simp: code_units_def)
qed (simp add: code_units_def)

lemma code_units_decode:
  "s \<noteq> [] \<Longrightarrow> code_units s = utf16 (fst (decode_rune s)) @ code_units (drop (snd (decode_rune s)) s)"
  by (simp add: code_units_def runes_decode)

lemma compare_lex: "CompareCodeUnits a b = lex_cmp (code_units a) (code_units b)"
proof (induction a b rule: CompareCodeUnits.induct)
  case (1 a b)
  show ?case
  proof (cases "a = [] \<or> b = []")
    case True
    then show ?thesis by (cases "a = []"; cases "b = []") (simp_all add: CompareCodeUnits.simps lex_cmp_Nil)
  next
    case False
    obtain ra na rb nb where d: "decode_rune a = (ra, na)" "decode_rune b = (rb, nb)"
      by (cases "decode_rune a", cases "decode_rune b")
    have v: "valid_rune ra" "valid_rune rb" using d decode_rune_valid by blast+
    have c: "CompareCodeUnits a b =
        (if ra \<noteq> rb then (if codeUnitKey ra < codeUnitKey rb then -1 else 1) else CompareCodeUnits (drop na a) (drop nb b))"
      using False by (simp add: CompareCodeUnits.simps [of a b] d)
    have u: "code_units a = utf16 ra @ code_units (drop na a)" "code_units b = utf16 rb @ code_units (drop nb b)"
      using False code_units_decode [of a] code_units_decode [of b] by (simp_all add: d)
    show ?thesis
    proof (cases "ra = rb")
      case True
      then show ?thesis using "1" False by (simp add: c u d)
    next
      case False
      then show ?thesis by (simp add: c u key_cmp v)
    qed
  qed
qed

section \<open>A linear order on valid strings\<close>

lemma lex_cmp_eq0: "lex_cmp xs ys = 0 \<longleftrightarrow> xs = ys"
  by (induction xs ys rule: lex_cmp.induct) auto

lemma lex_cmp_flip: "lex_cmp ys xs = - lex_cmp xs ys"
  by (induction xs ys rule: lex_cmp.induct) auto

lemma lex_cmp_range: "lex_cmp xs ys \<in> {-1, 0, 1}"
  by (induction xs ys rule: lex_cmp.induct) auto

lemma lex_cmp_trans: "\<lbrakk>lex_cmp xs ys = -1; lex_cmp ys zs = -1\<rbrakk> \<Longrightarrow> lex_cmp xs zs = -1"
proof (induction xs ys arbitrary: zs rule: lex_cmp.induct)
  case (2 y ys)
  then show ?case by (cases zs) auto
next
  case (4 x xs y ys)
  then show ?case by (cases zs) (auto split: if_splits)
qed auto

lemma utf16_inject: "\<lbrakk>valid_rune r; valid_rune q; utf16 r @ xs = utf16 q @ ys\<rbrakk> \<Longrightarrow> r = q \<and> xs = ys"
proof -
  assume a: "valid_rune r" "valid_rune q" "utf16 r @ xs = utf16 q @ ys"
  have "r = q"
  proof (rule ccontr)
    assume "r \<noteq> q"
    then have "lex_cmp (utf16 r @ xs) (utf16 q @ ys) \<noteq> 0" using key_cmp [OF a(1,2)] by simp
    then show False using a(3) lex_cmp_eq0 by blast
  qed
  then show ?thesis using a(3) by simp
qed

lemma utf16s_inject:
  "\<lbrakk>list_all valid_rune rs; list_all valid_rune qs; concat (map utf16 rs) = concat (map utf16 qs)\<rbrakk> \<Longrightarrow> rs = qs"
proof (induction rs arbitrary: qs)
  case Nil
  have "utf16 r \<noteq> []" for r by (simp add: utf16_def)
  then show ?case using Nil by (cases qs) auto
next
  case (Cons r rs)
  have "utf16 r \<noteq> []" for r by (simp add: utf16_def)
  then obtain q qs' where qs: "qs = q # qs'" using Cons.prems(3) by (cases qs) auto
  then have "r = q \<and> concat (map utf16 rs) = concat (map utf16 qs')"
    using Cons.prems utf16_inject [of r q] by simp
  then show ?case using Cons qs by simp
qed

lemma compare_eq0: "CompareCodeUnits a b = 0 \<longleftrightarrow> runes a = runes b"
  unfolding compare_lex lex_cmp_eq0 code_units_def using utf16s_inject [OF runes_valid runes_valid] by metis

lemma compare_valid_eq0: "\<lbrakk>utf8_Valid a; utf8_Valid b\<rbrakk> \<Longrightarrow> CompareCodeUnits a b = 0 \<longleftrightarrow> a = b"
  by (simp add: compare_eq0 runes_inject)

text \<open>
  C15: the packed comparison of the code converts neither string, yet orders any two byte strings as the
  lexicographic order of their UTF-16 code units does, a malformed byte standing for U+FFFD. Strings tie
  exactly when they spell the same runes, so on valid UTF-8 the order is total.
\<close>

theorem CompareCodeUnits_code_units:
  "CompareCodeUnits a b = lex_cmp (code_units a) (code_units b) \<and> (CompareCodeUnits a b = 0 \<longleftrightarrow> runes a = runes b)"
  using compare_lex compare_eq0 by blast

end
