(* ===== verification/GraphPath.thy ===== *)
theory GraphPath
  imports GoUtf8
begin

text \<open>
  The identity grammar of the graph protocol, \<open>graphops/laws.go\<close>: percent-encoded path segments,
  local bead, link and alias paths under their roots, and canonical URLs. A validator returns the
  reason of its refusal, or \<^const>\<open>None\<close> when it accepts.
\<close>

section \<open>Bytes\<close>

definition isLowerHex :: "string \<Rightarrow> nat \<Rightarrow> bool" where
  "isLowerHex s n = (length s = n \<and> list_all (\<lambda>c. is_digit c \<or> (97 \<le> code c \<and> code c \<le> 102)) s)"

definition alnum :: "char \<Rightarrow> bool" where
  "alnum c = ((65 \<le> code c \<and> code c \<le> 90) \<or> (97 \<le> code c \<and> code c \<le> 122) \<or> is_digit c)"

definition isLiteralSegmentByte :: "char \<Rightarrow> bool" where
  "isLiteralSegmentByte c = (alnum c \<or> c \<in> set ''._~!$&()*+,;=:@-'' \<or> code c = 39)"

definition isUnreservedByte :: "char \<Rightarrow> bool" where
  "isUnreservedByte c = (alnum c \<or> c \<in> set ''-._~'')"

definition hexValue :: "char \<Rightarrow> nat option" where
  "hexValue c =
    (if is_digit c then Some (code c - 48)
     else if 97 \<le> code c \<and> code c \<le> 102 then Some (code c - 97 + 10)
     else if 65 \<le> code c \<and> code c \<le> 70 then Some (code c - 65 + 10)
     else None)"

definition upperHexDigits :: string where
  "upperHexDigits = ''0123456789ABCDEF''"

section \<open>Segments\<close>

definition CanonicalSegment :: "string \<Rightarrow> string" where
  "CanonicalSegment decoded =
    concat (map (\<lambda>c. if isLiteralSegmentByte c then [c]
                     else [CHR ''%'', upperHexDigits ! (code c div 16), upperHexDigits ! (code c mod 16)]) decoded)"

datatype segment_error =
    EmptySegment
  | IncompleteEscape
  | MalformedEscape
  | SegmentNotUtf8
  | DotSegment
  | DecodesToControl
  | DecodesToSeparator
  | NotCanonicallyEncoded string

fun decodeSegment :: "string \<Rightarrow> segment_error + string" where
  "decodeSegment [] = Inr []"
| "decodeSegment (c # s) =
    (if c \<noteq> CHR ''%'' then (case decodeSegment s of Inl e \<Rightarrow> Inl e | Inr t \<Rightarrow> Inr (c # t))
     else (case s of
         a # b # r \<Rightarrow>
           (case (hexValue a, hexValue b) of
              (Some hi, Some lo) \<Rightarrow> (case decodeSegment r of Inl e \<Rightarrow> Inl e | Inr t \<Rightarrow> Inr (char_of (hi * 16 + lo) # t))
            | _ \<Rightarrow> Inl MalformedEscape)
       | _ \<Rightarrow> Inl IncompleteEscape))"

definition control_rune :: "nat \<Rightarrow> bool" where
  "control_rune r = (r \<le> 31 \<or> r = 127)"

definition separator_rune :: "nat \<Rightarrow> bool" where
  "separator_rune r = (r = 47 \<or> r = 92)"

definition ValidateCanonicalSegment :: "string \<Rightarrow> segment_error option" where
  "ValidateCanonicalSegment segment =
    (if segment = [] then Some EmptySegment
     else case decodeSegment segment of
         Inl e \<Rightarrow> Some e
       | Inr s \<Rightarrow>
           if \<not> utf8_Valid s then Some SegmentNotUtf8
           else if s = ''.'' \<or> s = ''..'' then Some DotSegment
           else (case find (\<lambda>r. control_rune r \<or> separator_rune r) (runes s) of
               Some r \<Rightarrow> Some (if control_rune r then DecodesToControl else DecodesToSeparator)
             | None \<Rightarrow> if CanonicalSegment s \<noteq> segment then Some (NotCanonicallyEncoded (CanonicalSegment s)) else None))"

section \<open>Paths and URLs\<close>

type_synonym ResourceKind = string

abbreviation "KindBead \<equiv> ''bead''"
abbreviation "KindLink \<equiv> ''link''"

definition ResourceKind_Valid :: "ResourceKind \<Rightarrow> bool" where
  "ResourceKind_Valid k = (k = KindBead \<or> k = KindLink)"

datatype path_error =
    QueryOrFragment
  | BadRoot string
  | BadSegment string segment_error
  | BadKind ResourceKind

definition first_bad :: "string list \<Rightarrow> path_error option" where
  "first_bad segments =
    (case find (\<lambda>s. ValidateCanonicalSegment s \<noteq> None) segments of
       None \<Rightarrow> None
     | Some s \<Rightarrow> Some (BadSegment s (the (ValidateCanonicalSegment s))))"

definition validateRootedPath :: "string \<Rightarrow> string \<Rightarrow> path_error option" where
  "validateRootedPath path root =
    (if CHR ''?'' \<in> set path \<or> CHR ''#'' \<in> set path then Some QueryOrFragment
     else case split_byte (CHR ''/'') path of
         r # s # segments \<Rightarrow> if r \<noteq> root then Some (BadRoot root) else first_bad (s # segments)
       | _ \<Rightarrow> Some (BadRoot root))"

definition ValidateBeadPath :: "string \<Rightarrow> path_error option" where
  "ValidateBeadPath path = validateRootedPath path ''beads''"

definition ValidateLinkPath :: "string \<Rightarrow> path_error option" where
  "ValidateLinkPath path = validateRootedPath path ''links''"

definition ValidateAliasPath :: "string \<Rightarrow> path_error option" where
  "ValidateAliasPath path = validateRootedPath path ''alias''"

definition ValidatePath :: "string \<Rightarrow> ResourceKind \<Rightarrow> path_error option" where
  "ValidatePath path kind =
    (if kind = KindBead then ValidateBeadPath path
     else if kind = KindLink then ValidateLinkPath path
     else Some (BadKind kind))"

definition CanonicalURL :: "string \<Rightarrow> string \<Rightarrow> string" where
  "CanonicalURL scopeURL path = scopeURL @ path"

definition SplitCanonicalURL :: "string \<Rightarrow> string \<Rightarrow> (string \<times> ResourceKind) option" where
  "SplitCanonicalURL scopeURL url =
    (if \<not> has_prefix url scopeURL then None
     else let path = drop (length scopeURL) url in
       if ValidateBeadPath path = None then Some (path, KindBead)
       else if ValidateLinkPath path = None then Some (path, KindLink)
       else None)"

section \<open>Lemmas\<close>

lemma upperHex_value: "n < 16 \<Longrightarrow> hexValue (upperHexDigits ! n) = Some n"
proof -
  assume "n < 16"
  moreover have "list_all (\<lambda>n. hexValue (upperHexDigits ! n) = Some n) [0..<16]" by code_simp
  ultimately show ?thesis by (simp add: list_all_iff)
qed

lemma find_SomeD: "find P xs = Some x \<Longrightarrow> x \<in> set xs \<and> P x"
  by (induction xs) (auto split: if_splits)

lemma percent_not_literal: "\<not> isLiteralSegmentByte (CHR ''%'')"
  by (simp add: isLiteralSegmentByte_def alnum_def is_digit_def)

lemma CanonicalSegment_simps [simp]:
  "CanonicalSegment [] = []"
  "CanonicalSegment (c # s) =
    (if isLiteralSegmentByte c then [c]
     else [CHR ''%'', upperHexDigits ! (code c div 16), upperHexDigits ! (code c mod 16)]) @ CanonicalSegment s"
  by (simp_all add: CanonicalSegment_def)

lemma char_of_nibbles: "char_of (code c div 16 * 16 + code c mod 16) = c"
  by simp

text \<open>Decoding undoes the encoder.\<close>

lemma decode_CanonicalSegment [simp]: "decodeSegment (CanonicalSegment d) = Inr d"
proof (induction d)
  case (Cons c d)
  have "code c div 16 < 16" "code c mod 16 < 16" by (simp_all add: less_mult_imp_div_less)
  then have h: "hexValue (upperHexDigits ! (code c div 16)) = Some (code c div 16)"
    "hexValue (upperHexDigits ! (code c mod 16)) = Some (code c mod 16)" by (simp_all add: upperHex_value)
  show ?case
  proof (cases "isLiteralSegmentByte c")
    case True
    then have "c \<noteq> CHR ''%''" using percent_not_literal by auto
    then show ?thesis using True Cons by simp
  next
    case False
    then show ?thesis using Cons h char_of_nibbles [of c] by simp
  qed
qed simp

lemma CanonicalSegment_inject: "CanonicalSegment d = CanonicalSegment e \<longleftrightarrow> d = e"
  by (metis decode_CanonicalSegment sum.inject(2))

lemma CanonicalSegment_Nil [simp]: "CanonicalSegment d = [] \<longleftrightarrow> d = []"
  by (cases d) auto

definition identity_text :: "string \<Rightarrow> bool" where
  "identity_text d = (d \<noteq> [] \<and> d \<noteq> ''.'' \<and> d \<noteq> ''..'' \<and> utf8_Valid d
     \<and> list_all (\<lambda>r. \<not> control_rune r \<and> \<not> separator_rune r) (runes d))"

lemma validate_encoded: "ValidateCanonicalSegment (CanonicalSegment d) = None \<longleftrightarrow> identity_text d"
proof -
  have "list_all (\<lambda>r. \<not> control_rune r \<and> \<not> separator_rune r) (runes d) \<longleftrightarrow>
      find (\<lambda>r. control_rune r \<or> separator_rune r) (runes d) = None"
    by (auto simp: find_None_iff list_all_iff)
  then show ?thesis
    by (simp add: ValidateCanonicalSegment_def identity_text_def split: option.splits)
qed

text \<open>
  C13: the grammar of a segment is the image of the encoder. A spelling is accepted exactly when it is
  what \<open>CanonicalSegment\<close> writes for some text that is not empty or a dot segment, is valid UTF-8 and
  has no control character and no separator; that text is unique, and it is what decoding returns. So
  two different spellings never name the same identity.
\<close>

theorem segment_grammar_exact:
  "ValidateCanonicalSegment s = None \<longleftrightarrow> (\<exists>!d. s = CanonicalSegment d \<and> identity_text d \<and> decodeSegment s = Inr d)"
proof
  assume a: "ValidateCanonicalSegment s = None"
  then obtain d where d: "decodeSegment s = Inr d" "CanonicalSegment d = s"
    by (auto simp: ValidateCanonicalSegment_def split: if_splits sum.splits option.splits)
  then show "\<exists>!d. s = CanonicalSegment d \<and> identity_text d \<and> decodeSegment s = Inr d"
    using a validate_encoded [of d] by (intro ex1I [of _ d]) auto
next
  assume "\<exists>!d. s = CanonicalSegment d \<and> identity_text d \<and> decodeSegment s = Inr d"
  then show "ValidateCanonicalSegment s = None" using validate_encoded by auto
qed

lemma rooted_iff:
  "validateRootedPath path root = None \<longleftrightarrow>
    CHR ''?'' \<notin> set path \<and> CHR ''#'' \<notin> set path
    \<and> (\<exists>segments. segments \<noteq> [] \<and> split_byte (CHR ''/'') path = root # segments \<and> (\<forall>s\<in>set segments. ValidateCanonicalSegment s = None))"
  by (fastforce simp: validateRootedPath_def first_bad_def find_None_iff
      split: list.splits option.splits if_splits dest: find_SomeD)

lemma roots_disjoint: "ValidateBeadPath p = None \<Longrightarrow> ValidateLinkPath p \<noteq> None"
  by (auto simp: ValidateBeadPath_def ValidateLinkPath_def rooted_iff)

text \<open>
  C14: a canonical URL names one resource. Splitting a URL against a scope succeeds exactly on the
  concatenations of the scope with a valid local path, and returns that path with the one kind it is
  valid for; so building and splitting are inverse to each other.
\<close>

theorem SplitCanonicalURL_inverse:
  "SplitCanonicalURL scope url = Some (path, kind) \<longleftrightarrow> url = CanonicalURL scope path \<and> ValidatePath path kind = None"
proof -
  have "ValidateBeadPath path = None \<or> ValidateBeadPath path \<noteq> None" by blast
  then show ?thesis
    using roots_disjoint [of path]
    by (auto simp: SplitCanonicalURL_def CanonicalURL_def ValidatePath_def Let_def prefix_def split: if_splits)
qed

end
